theory Spec2Isabelle
  imports Main "HOL-Library.Word"
begin

unbundle bit_operations_syntax

section \<open>Machine types and constants\<close>

type_synonym u8 = "8 word"
type_synonym u32 = "32 word"
type_synonym u64 = "64 word"

text \<open>A libnx \<open>Result\<close> is a 32-bit code; zero is success (\<open>R_SUCCEEDED\<close>, \<open>R_FAILED\<close>).\<close>

type_synonym Result = u32

definition R_SUCCEEDED :: "Result \<Rightarrow> bool" where
  "R_SUCCEEDED rc = (rc = 0)"

definition R_FAILED :: "Result \<Rightarrow> bool" where
  "R_FAILED rc = (rc \<noteq> 0)"

text \<open>
  A buffer is the memory an object pointer refers to, byte by byte; a pointer into a
  buffer is an index, and \<open>None\<close> is the NULL pointer.
\<close>

type_synonym buffer = "nat \<Rightarrow> u8"

definition zero_buffer :: buffer where
  "zero_buffer = (\<lambda>_. 0)"

definition memcpy :: "buffer \<Rightarrow> nat \<Rightarrow> buffer \<Rightarrow> nat \<Rightarrow> nat \<Rightarrow> buffer" where
  \<comment> \<open>\<open>memcpy(dst + d, src + b, n)\<close>\<close>
  "memcpy dst d src b n = (\<lambda>i. if d \<le> i \<and> i < d + n then src (i - d + b) else dst i)"

definition GAMECARD_READ_BUFFER_SIZE :: u64 where
  "GAMECARD_READ_BUFFER_SIZE = 0x800000"

definition GAMECARD_MEDIA_UNIT_SIZE :: u64 where
  "GAMECARD_MEDIA_UNIT_SIZE = 0x200"

definition GAMECARD_ECC_BLOCK_SIZE :: u64 where
  "GAMECARD_ECC_BLOCK_SIZE = 0x200"

definition GAMECARD_ECC_DATA_SIZE :: u64 where
  "GAMECARD_ECC_DATA_SIZE = 0x24"

definition GAMECARD_UPDATE_TID :: u64 where
  "GAMECARD_UPDATE_TID = 0x0100000000000816"

definition GAMECARD_HEAD_MAGIC :: u32 where
  "GAMECARD_HEAD_MAGIC = 0x48454144"

definition GAMECARD_HFS0_MAGIC :: u32 where
  "GAMECARD_HFS0_MAGIC = 0x48465330"

definition GAMECARD_CAPACITY_1GiB :: u64 where "GAMECARD_CAPACITY_1GiB = 0x40000000"
definition GAMECARD_CAPACITY_2GiB :: u64 where "GAMECARD_CAPACITY_2GiB = 0x80000000"
definition GAMECARD_CAPACITY_4GiB :: u64 where "GAMECARD_CAPACITY_4GiB = 0x100000000"
definition GAMECARD_CAPACITY_8GiB :: u64 where "GAMECARD_CAPACITY_8GiB = 0x200000000"
definition GAMECARD_CAPACITY_16GiB :: u64 where "GAMECARD_CAPACITY_16GiB = 0x400000000"
definition GAMECARD_CAPACITY_32GiB :: u64 where "GAMECARD_CAPACITY_32GiB = 0x800000000"

text \<open>\<open>GameCardRomSize\<close> (gamecard.h).\<close>

definition GameCardRomSize_1GiB :: u8 where "GameCardRomSize_1GiB = 0xFA"
definition GameCardRomSize_2GiB :: u8 where "GameCardRomSize_2GiB = 0xF8"
definition GameCardRomSize_4GiB :: u8 where "GameCardRomSize_4GiB = 0xF0"
definition GameCardRomSize_8GiB :: u8 where "GameCardRomSize_8GiB = 0xE0"
definition GameCardRomSize_16GiB :: u8 where "GameCardRomSize_16GiB = 0xE1"
definition GameCardRomSize_32GiB :: u8 where "GameCardRomSize_32GiB = 0xE2"

text \<open>\<open>GameCardStorageArea\<close> (gamecard.c); the code keeps it in a \<open>u8\<close>.\<close>

definition GameCardStorageArea_None :: u8 where "GameCardStorageArea_None = 0"
definition GameCardStorageArea_Normal :: u8 where "GameCardStorageArea_Normal = 1"
definition GameCardStorageArea_Secure :: u8 where "GameCardStorageArea_Secure = 2"

text \<open>
  \<open>ROUND_UP\<close> as the repository defines it (\<open>round_up\<close> in util.h):
  \<open>((x) + (((y) - ((x) % (y))) % (y)))\<close>, on 64-bit unsigned operands.
\<close>

definition ROUND_UP :: "u64 \<Rightarrow> u64 \<Rightarrow> u64" where
  "ROUND_UP x y = x + ((y - (x mod y)) mod y)"

section \<open>The capacity table\<close>

definition gamecardGetCapacityFromRomSizeValue :: "u8 \<Rightarrow> u64" where
  "gamecardGetCapacityFromRomSizeValue rom_size =
    (if rom_size = GameCardRomSize_1GiB then GAMECARD_CAPACITY_1GiB
     else if rom_size = GameCardRomSize_2GiB then GAMECARD_CAPACITY_2GiB
     else if rom_size = GameCardRomSize_4GiB then GAMECARD_CAPACITY_4GiB
     else if rom_size = GameCardRomSize_8GiB then GAMECARD_CAPACITY_8GiB
     else if rom_size = GameCardRomSize_16GiB then GAMECARD_CAPACITY_16GiB
     else if rom_size = GameCardRomSize_32GiB then GAMECARD_CAPACITY_32GiB
     else 0)"

section \<open>The platform and the session state\<close>

text \<open>
  Every call the module makes to the operating system, to libnx or to the C library is
  recorded, most recent first.
\<close>

datatype call =
    FsOpenGameCardStorage u32 u32          \<comment> \<open>handle value, partition\<close>
  | FsStorageClose u32
  | SvcCloseHandle u32
  | FsDeviceOperatorGetGameCardHandle
  | FsStorageRead u32 u64 u64              \<comment> \<open>storage, offset, size\<close>
  | FsStorageGetSize u32
  | FsDeviceOperatorIsGameCardInserted
  | FsDeviceOperatorGetGameCardDeviceCertificate u32
  | FsDeviceOperatorUpdatePartitionInfo u32
  | UtilsGetCustomFirmwareType
  | UtilsSleep nat
  | Malloc u64
  | Calloc u64 u64
  | Free
  | FsOpenDeviceOperator
  | FsOpenGameCardDetectionEventNotifier
  | FsEventNotifierGetEventHandle
  | UeventCreate
  | ThrdCreate

text \<open>
  The platform is a parameter: each external function answers from the history of calls
  made so far, so that it may answer the same call differently each time.
  An \<open>FsStorage\<close> is represented by its session handle (zero when inactive), a
  \<open>FsGameCardHandle\<close> by its value.
\<close>

record platform =
  fsOpenGameCardStorage :: "call list \<Rightarrow> u32 \<Rightarrow> u32 \<Rightarrow> Result \<times> u32"
  fsDeviceOperatorGetGameCardHandle :: "call list \<Rightarrow> Result \<times> u32"
  fsStorageRead :: "call list \<Rightarrow> u32 \<Rightarrow> u64 \<Rightarrow> u64 \<Rightarrow> Result \<times> buffer"
  fsStorageGetSize :: "call list \<Rightarrow> u32 \<Rightarrow> Result \<times> u64"
  fsDeviceOperatorIsGameCardInserted :: "call list \<Rightarrow> Result \<times> bool"
  fsDeviceOperatorGetGameCardDeviceCertificate :: "call list \<Rightarrow> u32 \<Rightarrow> Result \<times> buffer"
  fsDeviceOperatorUpdatePartitionInfo :: "call list \<Rightarrow> u32 \<Rightarrow> Result \<times> u32 \<times> u64"
  utilsGetCustomFirmwareType :: "call list \<Rightarrow> u8"
  malloc :: "call list \<Rightarrow> u64 \<Rightarrow> buffer option"
  calloc :: "call list \<Rightarrow> u64 \<Rightarrow> u64 \<Rightarrow> bool"
  fsOpenDeviceOperator :: "call list \<Rightarrow> Result"
  fsOpenGameCardDetectionEventNotifier :: "call list \<Rightarrow> Result"
  fsEventNotifierGetEventHandle :: "call list \<Rightarrow> Result"
  thrd_create :: "call list \<Rightarrow> bool"

text \<open>\<open>GameCardHashFileSystemPartitionInfo\<close> (gamecard.c).\<close>

record GameCardHashFileSystemPartitionInfo =
  pi_offset :: u64
  pi_size :: u64
  pi_header_size :: u64
  pi_header :: "buffer option"

text \<open>The module's global variables.\<close>

record gc_state =
  g_gamecardInterfaceInit :: bool
  g_openDeviceOperator :: bool
  g_openEventNotifier :: bool
  g_loadKernelEvent :: bool
  g_gameCardDetectionThreadCreated :: bool
  g_gameCardInserted :: bool
  g_gameCardInfoLoaded :: bool
  g_gameCardHandle :: u32
  g_gameCardStorage :: u32
  g_gameCardStorageCurrentArea :: u8
  g_gameCardReadBuf :: "buffer option"
  g_gameCardHeader :: buffer
  g_gameCardStorageNormalAreaSize :: u64
  g_gameCardStorageSecureAreaSize :: u64
  g_gameCardCapacity :: u64
  g_gameCardHfsRootHeader :: "buffer option"
  g_gameCardHfsPartitions :: "GameCardHashFileSystemPartitionInfo list option"
  calls :: "call list"

definition log_call :: "call \<Rightarrow> gc_state \<Rightarrow> gc_state" where
  "log_call c s = s\<lparr>calls := c # calls s\<rparr>"

definition serviceIsActive :: "u32 \<Rightarrow> bool" where
  "serviceIsActive session = (session \<noteq> 0)"

section \<open>Handles and storage areas\<close>

definition gamecardCloseHandle :: "gc_state \<Rightarrow> gc_state" where
  "gamecardCloseHandle s =
     (log_call (SvcCloseHandle (g_gameCardHandle s)) s)\<lparr>g_gameCardHandle := 0\<rparr>"

text \<open>
  The retry loop of \<open>gamecardGetHandle\<close>; the first argument counts the iterations that
  remain of \<open>for(u8 i = 0; i < 10; i++)\<close>. It returns \<open>rc1\<close>, \<open>rc2\<close> and the state.
\<close>

fun gamecardGetHandle_loop ::
  "platform \<Rightarrow> nat \<Rightarrow> Result \<Rightarrow> Result \<Rightarrow> gc_state \<Rightarrow> Result \<times> Result \<times> gc_state"
where
  "gamecardGetHandle_loop P 0 rc1 rc2 s = (rc1, rc2, s)"
| "gamecardGetHandle_loop P (Suc n) rc1 rc2 s =
     (case fsOpenGameCardStorage P (calls s) (g_gameCardHandle s) 0 of
        (rc1', tmp_storage) \<Rightarrow>
          let s1 = log_call (FsOpenGameCardStorage (g_gameCardHandle s) 0) s in
          if R_SUCCEEDED rc1' then (rc1', rc2, log_call (FsStorageClose tmp_storage) s1)
          else
            let s2 = gamecardCloseHandle s1 in
            (case fsDeviceOperatorGetGameCardHandle P (calls s2) of
               (rc2', h) \<Rightarrow>
                 let s3 = log_call FsDeviceOperatorGetGameCardHandle s2;
                     s4 = (if R_SUCCEEDED rc2' then s3\<lparr>g_gameCardHandle := h\<rparr> else s3)
                 in gamecardGetHandle_loop P n rc1' rc2' s4))"

definition gamecardGetHandle :: "platform \<Rightarrow> gc_state \<Rightarrow> bool \<times> gc_state" where
  "gamecardGetHandle P s =
     (if \<not> g_gameCardInserted s then (False, s)
      else
        case gamecardGetHandle_loop P 10 0 0 s of
          (rc1, rc2, s1) \<Rightarrow>
            if R_FAILED rc1 \<or> R_FAILED rc2 then (False, gamecardCloseHandle s1)
            else (True, s1))"

definition gamecardCloseStorageArea :: "gc_state \<Rightarrow> gc_state" where
  "gamecardCloseStorageArea s =
     (let s1 = (if serviceIsActive (g_gameCardStorage s)
                then (log_call (FsStorageClose (g_gameCardStorage s)) s)\<lparr>g_gameCardStorage := 0\<rparr>
                else s);
          s2 = gamecardCloseHandle s1
      in s2\<lparr>g_gameCardStorageCurrentArea := GameCardStorageArea_None\<rparr>)"

definition gamecardOpenStorageArea :: "platform \<Rightarrow> gc_state \<Rightarrow> u8 \<Rightarrow> bool \<times> gc_state" where
  "gamecardOpenStorageArea P s area =
     (if \<not> g_gameCardInserted s \<or>
         (area \<noteq> GameCardStorageArea_Normal \<and> area \<noteq> GameCardStorageArea_Secure)
      then (False, s)
      else if g_gameCardHandle s \<noteq> 0 \<and> serviceIsActive (g_gameCardStorage s) \<and>
              g_gameCardStorageCurrentArea s = area
      then (True, s)
      else
        let s1 = gamecardCloseStorageArea s;
            partition = (ucast (area - 1) :: u32)
        in case gamecardGetHandle P s1 of
             (False, s2) \<Rightarrow> (False, s2)
           | (True, s2) \<Rightarrow>
               (case fsOpenGameCardStorage P (calls s2) (g_gameCardHandle s2) partition of
                  (rc, storage) \<Rightarrow>
                    let s3 = log_call (FsOpenGameCardStorage (g_gameCardHandle s2) partition) s2 in
                    if R_FAILED rc then (False, gamecardCloseHandle s3)
                    else (True, s3\<lparr>g_gameCardStorage := storage,
                                    g_gameCardStorageCurrentArea := area\<rparr>)))"

section \<open>Reading the two storage areas as one address space\<close>

subsection \<open>Arithmetic of the aligned chunk\<close>

lemma dvd512_pow64: "(512::nat) dvd 2 ^ 64"
proof -
  have "(2::nat) ^ 64 = 512 * 2 ^ 55" by simp
  then show ?thesis by (metis dvd_triv_left)
qed

lemma pad_aligned:
  fixes t :: nat
  shows "(t + (512 - t mod 512) mod 512) mod 512 = 0"
proof (cases "t mod 512 = 0")
  case True
  then show ?thesis by simp
next
  case False
  define q where "q = t div 512"
  define m where "m = t mod 512"
  have m: "m < 512" "m \<noteq> 0" using False by (simp_all add: m_def)
  have t: "t = 512 * q + m" by (simp add: q_def m_def)
  have "(512 - m) mod 512 = 512 - m" using m by simp
  moreover have "t + (512 - m) = 512 * (q + 1)" using m unfolding t by simp
  ultimately have "(t + (512 - m) mod 512) mod 512 = 0" by simp
  then show ?thesis by (simp only: m_def)
qed

lemma chunk_nat:
  fixes B R :: nat
  assumes R: "R < 2 ^ 64"
  defines "t \<equiv> (B + R) mod 2 ^ 64"
  defines "p \<equiv> (512 - t mod 512) mod 512"
  defines "d \<equiv> B mod 512"
  assumes big: "8388608 < (R + p + d) mod 2 ^ 64"
  shows "8388608 - d < R"
proof (cases "R + p + d < 2 ^ 64")
  case True
  have p: "p < 512" and d: "d < 512" by (simp_all add: p_def d_def)
  have t512: "t mod 512 = (B + R) mod 512"
    unfolding t_def using dvd512_pow64 by (simp add: mod_mod_cancel)
  have "(t + p) mod 512 = 0" unfolding p_def by (rule pad_aligned)
  then have "(t mod 512 + p) mod 512 = 0" by (simp add: mod_add_left_eq)
  then have "((B + R) mod 512 + p) mod 512 = 0" by (simp only: t512)
  then have sum0: "(B + R + p) mod 512 = 0" by (simp add: mod_add_left_eq)
  have dle: "d \<le> B" unfolding d_def by simp
  have split: "B + R + p = (R + p + d) + (B - d)" using dle by simp
  have "B - d = 512 * (B div 512)" unfolding d_def by (rule minus_mod_eq_mult_div)
  then have bd0: "(B - d) mod 512 = 0" by simp
  have "(R + p + d) mod 512 = ((R + p + d) + (B - d) mod 512) mod 512"
    by (simp only: bd0 add_0_right)
  also have "\<dots> = ((R + p + d) + (B - d)) mod 512" by (rule mod_add_right_eq)
  also have "\<dots> = 0" using sum0 by (simp only: split)
  finally have al: "(R + p + d) mod 512 = 0" .
  then obtain k where k: "R + p + d = 512 * k" by (auto simp: mod_eq_0_iff_dvd dvd_def)
  from big True have "8388608 < R + p + d" by simp
  with k have "8388608 < 512 * k" by simp
  then have "16385 \<le> k" by linarith
  with k have "8388608 + 512 \<le> R + p + d" by linarith
  with p d show ?thesis by linarith
next
  case False
  have p: "p < 512" and d: "d < 512" by (simp_all add: p_def d_def)
  have e: "(2::nat) ^ 64 = 18446744073709551616" by simp
  from False p d have "18446744073709551616 - 1024 \<le> R" unfolding e by linarith
  with d show ?thesis by linarith
qed

lemma unat_mod_unit: "unat ((x::u64) mod 0x200) = unat x mod 512"
  by (simp add: unat_mod)

lemma unat_pad: "unat ((0x200 - (x::u64) mod 0x200) mod 0x200) = (512 - unat x mod 512) mod 512"
proof -
  have le: "x mod 0x200 \<le> 0x200"
    by (simp add: word_le_nat_alt unat_mod_unit)
  have "unat (0x200 - x mod 0x200) = unat (0x200 :: u64) - unat (x mod 0x200)"
    using le by (rule unat_sub)
  then have "unat (0x200 - x mod 0x200) = 512 - unat x mod 512"
    by (simp add: unat_mod_unit)
  then show ?thesis by (simp add: unat_mod)
qed

lemma tail_decreases:
  fixes b r :: u64
  assumes big0: "GAMECARD_READ_BUFFER_SIZE <
      ROUND_UP (b + r) GAMECARD_MEDIA_UNIT_SIZE - (b - b mod GAMECARD_MEDIA_UNIT_SIZE)"
  shows "unat (r - (GAMECARD_READ_BUFFER_SIZE - (b - (b - b mod GAMECARD_MEDIA_UNIT_SIZE)))) < unat r"
proof -
  from big0 have big: "0x800000 < ROUND_UP (b + r) 0x200 - (b - b mod 0x200)"
    by (simp add: GAMECARD_READ_BUFFER_SIZE_def GAMECARD_MEDIA_UNIT_SIZE_def)
  define pad where "pad = (0x200 - (b + r) mod 0x200) mod 0x200"
  define d where "d = b mod 0x200"
  have bs: "ROUND_UP (b + r) 0x200 - (b - b mod 0x200) = r + pad + d"
    by (simp add: ROUND_UP_def pad_def d_def)
  have upad: "unat pad = (512 - ((unat b + unat r) mod 2 ^ 64) mod 512) mod 512"
  proof -
    have "unat pad = (512 - unat (b + r) mod 512) mod 512" unfolding pad_def by (rule unat_pad)
    moreover have "unat (b + r) = (unat b + unat r) mod 2 ^ 64" by (simp add: unat_word_ariths)
    ultimately show ?thesis by (simp only:)
  qed
  have ud: "unat d = unat b mod 512" unfolding d_def by (rule unat_mod_unit)
  have "unat (r + pad + d) = (unat r + unat pad + unat d) mod 2 ^ 64"
    by (simp add: unat_word_ariths mod_add_left_eq)
  with big bs have "8388608 < (unat r + unat pad + unat d) mod 2 ^ 64"
    by (simp add: word_less_nat_alt)
  then have "8388608 < (unat r + (512 - ((unat b + unat r) mod 2 ^ 64) mod 512) mod 512 + unat b mod 512) mod 2 ^ 64"
    by (simp only: upad ud)
  moreover have "unat r < 2 ^ 64" using unsigned_less [of r] by simp
  ultimately have key: "8388608 - unat b mod 512 < unat r"
    by (rule chunk_nat [rotated])
  have d512: "unat d < 512" by (simp add: ud)
  have oc: "unat (0x800000 - d) = 8388608 - unat d"
  proof -
    have "d \<le> 0x800000" using d512 by (simp add: word_le_nat_alt)
    then have "unat (0x800000 - d) = unat (0x800000 :: u64) - unat d" by (rule unat_sub)
    then show ?thesis by simp
  qed
  have le: "0x800000 - d \<le> r" using key by (simp add: word_le_nat_alt oc ud)
  have "unat (r - (0x800000 - d)) = unat r - unat (0x800000 - d)" using le by (rule unat_sub)
  then have "unat (r - (0x800000 - d)) < unat r" using key d512 by (simp add: oc ud)
  moreover have "b - (b - b mod 0x200) = d" by (simp add: d_def)
  ultimately show ?thesis
    by (simp add: GAMECARD_READ_BUFFER_SIZE_def GAMECARD_MEDIA_UNIT_SIZE_def)
qed

lemma split_decreases:
  fixes n off r :: u64
  assumes "off < n" "n < off + r"
  shows "unat (n - off) < unat r" and "unat (r - (n - off)) < unat r" and "unat (r - (n - off)) \<noteq> 0"
  using assms by unat_arith+

subsection \<open>\<open>gamecardReadStorageArea\<close>\<close>

text \<open>
  The destination is the buffer \<open>mem\<close> with the pointer \<open>out\<close> into it. The mutex
  calls guarded by \<open>lock\<close> have no effect on the sequential state. A failed
  \<open>fsStorageRead\<close> leaves its destination as it was; with no scratch buffer allocated the
  unaligned read fails.
\<close>

function gamecardReadStorageArea ::
  "platform \<Rightarrow> gc_state \<Rightarrow> buffer \<Rightarrow> nat option \<Rightarrow> u64 \<Rightarrow> u64 \<Rightarrow> bool \<Rightarrow> bool \<times> buffer \<times> gc_state"
where
  "gamecardReadStorageArea P s mem out read_size offset lock =
    (if \<not> g_gameCardInserted s \<or> g_gameCardStorageNormalAreaSize s = 0 \<or>
        g_gameCardStorageSecureAreaSize s = 0 \<or> out = None \<or> read_size = 0 \<or>
        offset \<ge> g_gameCardStorageNormalAreaSize s + g_gameCardStorageSecureAreaSize s \<or>
        offset + read_size > g_gameCardStorageNormalAreaSize s + g_gameCardStorageSecureAreaSize s
     then (False, mem, s)
     else
       let out_u8 = the out;
           area = (if offset < g_gameCardStorageNormalAreaSize s
                   then GameCardStorageArea_Normal else GameCardStorageArea_Secure)
       in
       case (if area = GameCardStorageArea_Normal \<and>
                offset + read_size > g_gameCardStorageNormalAreaSize s
             then
               let diff_size = g_gameCardStorageNormalAreaSize s - offset in
               (case gamecardReadStorageArea P s mem (Some out_u8) diff_size offset False of
                  (ok, mem1, s1) \<Rightarrow>
                    (ok, mem1, s1, read_size - diff_size, g_gameCardStorageNormalAreaSize s1,
                     out_u8 + unat diff_size, GameCardStorageArea_Secure))
             else (True, mem, s, read_size, offset, out_u8, area))
       of (ok, mem1, s1, read_size1, offset1, out1, area1) \<Rightarrow>
         if \<not> ok then (False, mem1, s1)
         else
           (case gamecardOpenStorageArea P s1 area1 of
              (False, s2) \<Rightarrow> (False, mem1, s2)
            | (True, s2) \<Rightarrow>
                let base_offset = (if area1 = GameCardStorageArea_Normal then offset1
                                   else offset1 - g_gameCardStorageNormalAreaSize s2)
                in
                if base_offset mod GAMECARD_MEDIA_UNIT_SIZE = 0 \<and>
                   read_size1 mod GAMECARD_MEDIA_UNIT_SIZE = 0
                then
                  (case fsStorageRead P (calls s2) (g_gameCardStorage s2) base_offset read_size1 of
                     (rc, data) \<Rightarrow>
                       let s3 = log_call (FsStorageRead (g_gameCardStorage s2) base_offset read_size1) s2 in
                       if R_FAILED rc then (False, mem1, s3)
                       else (True, memcpy mem1 out1 data 0 (unat read_size1), s3))
                else
                  let block_start_offset = base_offset - (base_offset mod GAMECARD_MEDIA_UNIT_SIZE);
                      block_end_offset = ROUND_UP (base_offset + read_size1) GAMECARD_MEDIA_UNIT_SIZE;
                      block_size = block_end_offset - block_start_offset;
                      chunk_size = (if block_size > GAMECARD_READ_BUFFER_SIZE
                                    then GAMECARD_READ_BUFFER_SIZE else block_size);
                      out_chunk_size = (if block_size > GAMECARD_READ_BUFFER_SIZE
                                        then GAMECARD_READ_BUFFER_SIZE - (base_offset - block_start_offset)
                                        else read_size1)
                  in
                  (case fsStorageRead P (calls s2) (g_gameCardStorage s2) block_start_offset chunk_size of
                     (rc, data) \<Rightarrow>
                       let s3 = log_call (FsStorageRead (g_gameCardStorage s2) block_start_offset chunk_size) s2 in
                       if R_FAILED rc then (False, mem1, s3)
                       else
                         (case g_gameCardReadBuf s3 of
                            None \<Rightarrow> (False, mem1, s3)
                          | Some rb \<Rightarrow>
                              let rb' = memcpy rb 0 data 0 (unat chunk_size);
                                  s4 = s3\<lparr>g_gameCardReadBuf := Some rb'\<rparr>;
                                  mem2 = memcpy mem1 out1 rb' (unat (base_offset - block_start_offset))
                                           (unat out_chunk_size)
                              in
                              if block_size > GAMECARD_READ_BUFFER_SIZE
                              then gamecardReadStorageArea P s4 mem2 (Some (out1 + unat out_chunk_size))
                                     (read_size1 - out_chunk_size) (base_offset + out_chunk_size) False
                              else (True, mem2, s4)))))"
  by pat_completeness auto

termination
proof (relation "measure (\<lambda>(P, s, mem, out, read_size, offset, lock). unat read_size)", goal_cases)
  case 1
  show ?case by simp
next
  case (2 P s mem out read_size offset lock x xa xaa)
  then have "offset < g_gameCardStorageNormalAreaSize s"
    by (auto simp: GameCardStorageArea_Normal_def GameCardStorageArea_Secure_def split: if_splits)
  with 2 show ?case by (auto intro: split_decreases(1))
next
  case (3 P s mem out read_size offset lock x xa xb y xc ya xd yb xe yc xf yd xg ye xh yf xi xj xk xl xm xn)
  have le: "unat xe \<le> unat read_size"
  proof (cases "xa = GameCardStorageArea_Normal \<and> g_gameCardStorageNormalAreaSize s < offset + read_size")
    case True
    with 3 have off: "offset < g_gameCardStorageNormalAreaSize s"
      by (auto simp: GameCardStorageArea_Normal_def GameCardStorageArea_Secure_def split: if_splits)
    from True 3 have "xe = read_size - (g_gameCardStorageNormalAreaSize s - offset)"
      by (auto simp: Let_def split: prod.splits)
    with off True show ?thesis using split_decreases(2) [of offset "g_gameCardStorageNormalAreaSize s" read_size]
      by simp
  next
    case False
    with 3 have "xe = read_size" by (auto split: if_splits)
    then show ?thesis by simp
  qed
  from 3 have "GAMECARD_READ_BUFFER_SIZE < ROUND_UP (xi + xe) GAMECARD_MEDIA_UNIT_SIZE - (xi - xi mod GAMECARD_MEDIA_UNIT_SIZE)"
    by simp
  then have "unat (xe - (GAMECARD_READ_BUFFER_SIZE - (xi - (xi - xi mod GAMECARD_MEDIA_UNIT_SIZE)))) < unat xe"
    by (rule tail_decreases)
  moreover from 3 have "xn = GAMECARD_READ_BUFFER_SIZE - (xi - (xi - xi mod GAMECARD_MEDIA_UNIT_SIZE))"
    by simp
  ultimately show ?case using le by simp
qed

declare gamecardReadStorageArea.simps [simp del]

definition gamecardRead ::
  "platform \<Rightarrow> gc_state \<Rightarrow> buffer \<Rightarrow> nat option \<Rightarrow> u64 \<Rightarrow> u64 \<Rightarrow> bool \<times> buffer \<times> gc_state"
where
  "gamecardRead P s mem out read_size offset = gamecardReadStorageArea P s mem out read_size offset True"

section \<open>A simulated gamecard\<close>

text \<open>
  A platform that behaves: a card with a normal and a secure area is inserted, the handle
  \<open>0x1234\<close> is the only valid one, a storage opened on partition \<open>p\<close> has the session
  \<open>p + 1\<close>, and a read that stays inside its area returns the area's bytes. It is used
  to run the module on concrete inputs.
\<close>

record card =
  normal_size :: u64
  secure_size :: u64
  normal_data :: buffer
  secure_data :: buffer
  firmware_type :: u8

definition sim_handle :: u32 where
  "sim_handle = 0x1234"

definition sim_platform :: "card \<Rightarrow> platform" where
  "sim_platform c =
     \<lparr> fsOpenGameCardStorage = (\<lambda>h handle partition.
          if handle = sim_handle \<and> partition \<le> 1 then (0, partition + 1) else (0x2EE202, 0)),
       fsDeviceOperatorGetGameCardHandle = (\<lambda>h. (0, sim_handle)),
       fsStorageRead = (\<lambda>h storage off size.
          if storage = 1 \<and> unat off + unat size \<le> unat (normal_size c)
          then (0, \<lambda>i. normal_data c (unat off + i))
          else if storage = 2 \<and> unat off + unat size \<le> unat (secure_size c)
          then (0, \<lambda>i. secure_data c (unat off + i))
          else (0x2EE202, zero_buffer)),
       fsStorageGetSize = (\<lambda>h storage.
          if storage = 1 then (0, normal_size c)
          else if storage = 2 then (0, secure_size c) else (0x2EE202, 0)),
       fsDeviceOperatorIsGameCardInserted = (\<lambda>h. (0, True)),
       fsDeviceOperatorGetGameCardDeviceCertificate = (\<lambda>h handle.
          if handle = sim_handle then (0, zero_buffer) else (0x2EE202, zero_buffer)),
       fsDeviceOperatorUpdatePartitionInfo = (\<lambda>h handle.
          if handle = sim_handle then (0, 0x10000, GAMECARD_UPDATE_TID) else (0x2EE202, 0, 0)),
       utilsGetCustomFirmwareType = (\<lambda>h. firmware_type c),
       malloc = (\<lambda>h n. Some zero_buffer),
       calloc = (\<lambda>h n m. True),
       fsOpenDeviceOperator = (\<lambda>h. 0),
       fsOpenGameCardDetectionEventNotifier = (\<lambda>h. 0),
       fsEventNotifierGetEventHandle = (\<lambda>h. 0),
       thrd_create = (\<lambda>h. True) \<rparr>"

text \<open>
  A card whose normal area has 0x1000 bytes and whose secure area has 32 MiB; the byte at
  offset \<open>i\<close> of the normal area is \<open>i mod 256\<close>, the byte at offset \<open>i\<close> of the secure
  area is \<open>(i div 0x1000) mod 256\<close>.
\<close>

definition sim_card :: card where
  "sim_card =
     \<lparr> normal_size = 0x1000, secure_size = 0x2000000,
       normal_data = (\<lambda>i. of_nat i), secure_data = (\<lambda>i. of_nat (i div 0x1000)),
       firmware_type = 0 \<rparr>"

text \<open>The session once this card is inserted and its area sizes are known.\<close>

definition sim_ready_state :: gc_state where
  "sim_ready_state =
     \<lparr> g_gamecardInterfaceInit = True,
       g_openDeviceOperator = True,
       g_openEventNotifier = True,
       g_loadKernelEvent = True,
       g_gameCardDetectionThreadCreated = True,
       g_gameCardInserted = True,
       g_gameCardInfoLoaded = True,
       g_gameCardHandle = 0,
       g_gameCardStorage = 0,
       g_gameCardStorageCurrentArea = GameCardStorageArea_None,
       g_gameCardReadBuf = Some zero_buffer,
       g_gameCardHeader = zero_buffer,
       g_gameCardStorageNormalAreaSize = 0x1000,
       g_gameCardStorageSecureAreaSize = 0x2000000,
       g_gameCardCapacity = GAMECARD_CAPACITY_1GiB,
       g_gameCardHfsRootHeader = Some zero_buffer,
       g_gameCardHfsPartitions = Some [],
       calls = [] \<rparr>"

section \<open>Requests that are refused at once\<close>

text \<open>
  C8: whatever the offset, a request of size zero or with a NULL destination returns false;
  the destination and the whole session state, the record of platform calls included, are
  as before, so no storage read was issued.
\<close>

theorem gamecardRead_zero_size_or_null:
  assumes "read_size = 0 \<or> out = None"
  shows "gamecardReadStorageArea P s mem out read_size offset lock = (False, mem, s) \<and>
         gamecardRead P s mem out read_size offset = (False, mem, s) \<and>
         calls (snd (snd (gamecardRead P s mem out read_size offset))) = calls s"
  using assms by (auto simp: gamecardRead_def gamecardReadStorageArea.simps)

theorem gamecardRead_zero_size_or_null_witness:
  "gamecardRead (sim_platform sim_card) sim_ready_state zero_buffer (Some 0) 0 0x10 =
     (False, zero_buffer, sim_ready_state) \<and>
   gamecardRead (sim_platform sim_card) sim_ready_state zero_buffer None 0x200 0x10 =
     (False, zero_buffer, sim_ready_state) \<and>
   g_gameCardInserted sim_ready_state \<and> g_gameCardInfoLoaded sim_ready_state \<and>
   (0x10 :: u64) + 0x200 \<le> g_gameCardStorageNormalAreaSize sim_ready_state +
     g_gameCardStorageSecureAreaSize sim_ready_state"
  using gamecardRead_zero_size_or_null [of 0 "Some 0" "sim_platform sim_card" sim_ready_state zero_buffer "0x10" True]
        gamecardRead_zero_size_or_null [of "0x200" None "sim_platform sim_card" sim_ready_state zero_buffer "0x10" True]
  by (simp add: sim_ready_state_def)

section \<open>The retry loop of \<open>gamecardGetHandle\<close>\<close>

fun is_open_call :: "call \<Rightarrow> bool" where
  "is_open_call (FsOpenGameCardStorage h p) = True"
| "is_open_call c = False"

definition count_opens :: "call list \<Rightarrow> nat" where
  "count_opens cs = length (filter is_open_call cs)"

text \<open>
  The calls of the retry loop, oldest first: failed attempts, each an open on partition 0
  followed by closing that handle and requesting a new one, and then at most one
  attempt that succeeds, whose temporary storage is closed.
\<close>

definition is_failed_attempt :: "call \<Rightarrow> call \<Rightarrow> call \<Rightarrow> bool" where
  "is_failed_attempt a b c =
     (case a of
        FsOpenGameCardStorage h p \<Rightarrow> p = 0 \<and> b = SvcCloseHandle h \<and> c = FsDeviceOperatorGetGameCardHandle
      | _ \<Rightarrow> False)"

definition is_successful_attempt :: "call \<Rightarrow> call \<Rightarrow> bool" where
  "is_successful_attempt a b =
     (case a of
        FsOpenGameCardStorage h p \<Rightarrow> p = 0 \<and> (case b of FsStorageClose t \<Rightarrow> True | _ \<Rightarrow> False)
      | _ \<Rightarrow> False)"

fun retry_trace :: "call list \<Rightarrow> bool" where
  "retry_trace [] = True"
| "retry_trace [a] = False"
| "retry_trace [a, b] = is_successful_attempt a b"
| "retry_trace (a # b # c # rest) = (is_failed_attempt a b c \<and> retry_trace rest)"

lemma retry_trace_failed_prefix:
  "retry_trace (FsOpenGameCardStorage h 0 # SvcCloseHandle h # FsDeviceOperatorGetGameCardHandle # rest) = retry_trace rest"
  by (simp add: is_failed_attempt_def)

lemma gamecardGetHandle_loop_trace:
  "gamecardGetHandle_loop P n rc1 rc2 s = (r1, r2, s') \<Longrightarrow>
     \<exists>new. calls s' = new @ calls s \<and> retry_trace (rev new) \<and> count_opens new \<le> n \<and>
           (R_FAILED r1 \<and> 0 < n \<longrightarrow> count_opens new = n)"
proof (induction n arbitrary: rc1 rc2 s)
  case 0
  then show ?case by (simp add: count_opens_def)
next
  case (Suc n)
  obtain rc1' tmp where op: "fsOpenGameCardStorage P (calls s) (g_gameCardHandle s) 0 = (rc1', tmp)"
    by (cases "fsOpenGameCardStorage P (calls s) (g_gameCardHandle s) 0")
  show ?case
  proof (cases "R_SUCCEEDED rc1'")
    case True
    with Suc.prems op have "s' = log_call (FsStorageClose tmp) (log_call (FsOpenGameCardStorage (g_gameCardHandle s) 0) s)"
      and "r1 = rc1'"
      by (simp_all add: Let_def)
    with True show ?thesis
      by (intro exI [of _ "[FsStorageClose tmp, FsOpenGameCardStorage (g_gameCardHandle s) 0]"])
         (simp add: log_call_def count_opens_def R_SUCCEEDED_def R_FAILED_def is_successful_attempt_def)
  next
    case False
    define s2 where "s2 = gamecardCloseHandle (log_call (FsOpenGameCardStorage (g_gameCardHandle s) 0) s)"
    obtain rc2' h where gh: "fsDeviceOperatorGetGameCardHandle P (calls s2) = (rc2', h)"
      by (cases "fsDeviceOperatorGetGameCardHandle P (calls s2)")
    define s4 where "s4 = (if R_SUCCEEDED rc2'
        then (log_call FsDeviceOperatorGetGameCardHandle s2)\<lparr>g_gameCardHandle := h\<rparr>
        else log_call FsDeviceOperatorGetGameCardHandle s2)"
    from Suc.prems op False gh have run: "gamecardGetHandle_loop P n rc1' rc2' s4 = (r1, r2, s')"
      by (auto simp: Let_def s2_def s4_def split: if_splits)
    have c4: "calls s4 = [FsDeviceOperatorGetGameCardHandle, SvcCloseHandle (g_gameCardHandle s),
                          FsOpenGameCardStorage (g_gameCardHandle s) 0] @ calls s"
      by (simp add: s4_def s2_def gamecardCloseHandle_def log_call_def)
    from Suc.IH [OF run] obtain new where new: "calls s' = new @ calls s4" "retry_trace (rev new)"
      "count_opens new \<le> n" "R_FAILED r1 \<and> 0 < n \<longrightarrow> count_opens new = n"
      by blast
    have r1n: "n = 0 \<Longrightarrow> new = []"
      using new(3) run new(1) by (simp add: count_opens_def)
    show ?thesis
    proof (intro exI [of _ "new @ [FsDeviceOperatorGetGameCardHandle, SvcCloseHandle (g_gameCardHandle s),
                          FsOpenGameCardStorage (g_gameCardHandle s) 0]"] conjI impI)
      show "calls s' = (new @ [FsDeviceOperatorGetGameCardHandle, SvcCloseHandle (g_gameCardHandle s),
                          FsOpenGameCardStorage (g_gameCardHandle s) 0]) @ calls s"
        using new(1) c4 by simp
      show "retry_trace (rev (new @ [FsDeviceOperatorGetGameCardHandle, SvcCloseHandle (g_gameCardHandle s),
                          FsOpenGameCardStorage (g_gameCardHandle s) 0]))"
        using new(2) by (simp add: is_failed_attempt_def)
      show "count_opens (new @ [FsDeviceOperatorGetGameCardHandle, SvcCloseHandle (g_gameCardHandle s),
                          FsOpenGameCardStorage (g_gameCardHandle s) 0]) \<le> Suc n"
        using new(3) by (simp add: count_opens_def)
      assume a: "R_FAILED r1 \<and> 0 < Suc n"
      show "count_opens (new @ [FsDeviceOperatorGetGameCardHandle, SvcCloseHandle (g_gameCardHandle s),
                          FsOpenGameCardStorage (g_gameCardHandle s) 0]) = Suc n"
      proof (cases n)
        case 0
        with r1n show ?thesis by (simp add: count_opens_def)
      next
        case (Suc m)
        with a new(4) show ?thesis by (simp add: count_opens_def)
      qed
    qed
  qed
qed

lemma gamecardGetHandle_loop_all_fail:
  assumes "\<forall>h handle. R_FAILED (fst (fsOpenGameCardStorage P h handle 0))"
  shows "0 < n \<Longrightarrow> R_FAILED (fst (gamecardGetHandle_loop P n rc1 rc2 s))"
proof (induction n arbitrary: rc1 rc2 s)
  case 0
  then show ?case by simp
next
  case (Suc n)
  obtain rc1' tmp where op: "fsOpenGameCardStorage P (calls s) (g_gameCardHandle s) 0 = (rc1', tmp)"
    by (cases "fsOpenGameCardStorage P (calls s) (g_gameCardHandle s) 0")
  with assms have f: "R_FAILED rc1'" by (metis fst_conv)
  then have nf: "\<not> R_SUCCEEDED rc1'" by (simp add: R_FAILED_def R_SUCCEEDED_def)
  show ?case
  proof (cases n)
    case 0
    with op nf f show ?thesis by (simp add: Let_def split: prod.splits)
  next
    case (Suc m)
    with op nf Suc.IH show ?thesis by (simp add: Let_def split: prod.splits)
  qed
qed

lemma gamecardCloseHandle_handle: "g_gameCardHandle (gamecardCloseHandle s) = 0"
  by (simp add: gamecardCloseHandle_def log_call_def)

lemma gamecardCloseHandle_calls:
  "calls (gamecardCloseHandle s) = SvcCloseHandle (g_gameCardHandle s) # calls s"
  by (simp add: gamecardCloseHandle_def log_call_def)

text \<open>
  C7: without a card \<open>gamecardGetHandle\<close> returns false at once and touches nothing.
  With a card, the calls it adds are (oldest first) failed attempts, each an open of
  partition 0 followed by closing the stale handle and requesting a new one, then at most
  one successful attempt; there are at most 10 opens. When the last attempt failed all 10
  were made and the result is false; so it is when the platform refuses every open. A false
  result with a card comes after a final \<open>svcCloseHandle\<close>, and leaves the handle value 0.
  The loop is a total function: it always returns.
\<close>

theorem gamecardGetHandle_bounded_retries:
  "(\<not> g_gameCardInserted s \<longrightarrow> gamecardGetHandle P s = (False, s)) \<and>
   (g_gameCardInserted s \<longrightarrow>
      (\<exists>new leftover.
          calls (snd (gamecardGetHandle P s)) =
            (if fst (gamecardGetHandle P s) then new else SvcCloseHandle leftover # new) @ calls s \<and>
          retry_trace (rev new) \<and> count_opens new \<le> 10 \<and>
          (R_FAILED (fst (gamecardGetHandle_loop P 10 0 0 s)) \<longrightarrow>
             count_opens new = 10 \<and> \<not> fst (gamecardGetHandle P s)) \<and>
          ((\<forall>h handle. R_FAILED (fst (fsOpenGameCardStorage P h handle 0))) \<longrightarrow>
             count_opens new = 10 \<and> \<not> fst (gamecardGetHandle P s))) \<and>
      (\<not> fst (gamecardGetHandle P s) \<longrightarrow> g_gameCardHandle (snd (gamecardGetHandle P s)) = 0))"
proof (intro conjI impI)
  assume "\<not> g_gameCardInserted s"
  then show "gamecardGetHandle P s = (False, s)" by (simp add: gamecardGetHandle_def)
next
  assume ins: "g_gameCardInserted s"
  obtain rc1 rc2 s1 where loop: "gamecardGetHandle_loop P 10 0 0 s = (rc1, rc2, s1)"
    by (cases "gamecardGetHandle_loop P 10 0 0 s") auto
  from gamecardGetHandle_loop_trace [OF loop] obtain new where
    new: "calls s1 = new @ calls s" "retry_trace (rev new)" "count_opens new \<le> 10"
         "R_FAILED rc1 \<and> (0::nat) < 10 \<longrightarrow> count_opens new = 10"
    by blast
  have res: "gamecardGetHandle P s =
      (if R_FAILED rc1 \<or> R_FAILED rc2 then (False, gamecardCloseHandle s1) else (True, s1))"
    using ins loop by (simp add: gamecardGetHandle_def)
  have allfail: "(\<forall>h handle. R_FAILED (fst (fsOpenGameCardStorage P h handle 0))) \<Longrightarrow> R_FAILED rc1"
    using gamecardGetHandle_loop_all_fail [of P 10 0 0 s] loop by simp
  show "\<exists>new leftover.
          calls (snd (gamecardGetHandle P s)) =
            (if fst (gamecardGetHandle P s) then new else SvcCloseHandle leftover # new) @ calls s \<and>
          retry_trace (rev new) \<and> count_opens new \<le> 10 \<and>
          (R_FAILED (fst (gamecardGetHandle_loop P 10 0 0 s)) \<longrightarrow>
             count_opens new = 10 \<and> \<not> fst (gamecardGetHandle P s)) \<and>
          ((\<forall>h handle. R_FAILED (fst (fsOpenGameCardStorage P h handle 0))) \<longrightarrow>
             count_opens new = 10 \<and> \<not> fst (gamecardGetHandle P s))"
    using new allfail
    by (intro exI [of _ new] exI [of _ "g_gameCardHandle s1"])
       (auto simp: res loop gamecardCloseHandle_calls)
next
  assume ins: "g_gameCardInserted s" and f: "\<not> fst (gamecardGetHandle P s)"
  then show "g_gameCardHandle (snd (gamecardGetHandle P s)) = 0"
    by (auto simp: gamecardGetHandle_def gamecardCloseHandle_handle split: prod.splits if_splits)
qed

text \<open>A platform on which every attempt to open a storage fails.\<close>

definition stale_platform :: platform where
  "stale_platform = (sim_platform sim_card)\<lparr>fsOpenGameCardStorage := (\<lambda>h handle partition. (0x2EE202, 0))\<rparr>"

theorem gamecardGetHandle_bounded_retries_witness:
  "g_gameCardInserted sim_ready_state \<and>
   \<not> fst (gamecardGetHandle stale_platform sim_ready_state) \<and>
   g_gameCardHandle (snd (gamecardGetHandle stale_platform sim_ready_state)) = 0 \<and>
   count_opens (calls (snd (gamecardGetHandle stale_platform sim_ready_state))) = 10 \<and>
   gamecardGetHandle stale_platform (sim_ready_state\<lparr>g_gameCardInserted := False\<rparr>) =
     (False, sim_ready_state\<lparr>g_gameCardInserted := False\<rparr>)"
proof -
  have ins: "g_gameCardInserted sim_ready_state" by (simp add: sim_ready_state_def)
  have stale: "\<forall>h handle. R_FAILED (fst (fsOpenGameCardStorage stale_platform h handle 0))"
    by (simp add: stale_platform_def R_FAILED_def)
  have c0: "calls sim_ready_state = []" by (simp add: sim_ready_state_def)
  from gamecardGetHandle_bounded_retries [of sim_ready_state stale_platform] ins stale
  have "\<not> fst (gamecardGetHandle stale_platform sim_ready_state)"
    and "g_gameCardHandle (snd (gamecardGetHandle stale_platform sim_ready_state)) = 0"
    and "count_opens (calls (snd (gamecardGetHandle stale_platform sim_ready_state))) = 10"
    by (auto simp: c0 count_opens_def)
  moreover from gamecardGetHandle_bounded_retries [of "sim_ready_state\<lparr>g_gameCardInserted := False\<rparr>" stale_platform]
  have "gamecardGetHandle stale_platform (sim_ready_state\<lparr>g_gameCardInserted := False\<rparr>) =
     (False, sim_ready_state\<lparr>g_gameCardInserted := False\<rparr>)"
    by simp
  ultimately show ?thesis using ins by simp
qed

section \<open>Initialisation\<close>

text \<open>
  \<open>gamecardCreateDetectionThread\<close> starts the detection thread; the thread's own steps are
  modelled separately, one event at a time.
\<close>

definition gamecardCreateDetectionThread :: "platform \<Rightarrow> gc_state \<Rightarrow> bool \<times> gc_state" where
  "gamecardCreateDetectionThread P s = (thrd_create P (calls s), log_call ThrdCreate s)"

definition gamecardInitialize :: "platform \<Rightarrow> gc_state \<Rightarrow> bool \<times> gc_state" where
  "gamecardInitialize P s =
     (let ret = g_gamecardInterfaceInit s in
      if ret then (ret, s)
      else
        let s1 = (log_call (Malloc GAMECARD_READ_BUFFER_SIZE) s)
                   \<lparr>g_gameCardReadBuf := malloc P (calls s) GAMECARD_READ_BUFFER_SIZE\<rparr>
        in
        if g_gameCardReadBuf s1 = None then (ret, s1)
        else
          let rc = fsOpenDeviceOperator P (calls s1);
              s2 = log_call FsOpenDeviceOperator s1
          in
          if R_FAILED rc then (ret, s2)
          else
            let s3 = s2\<lparr>g_openDeviceOperator := True\<rparr>;
                rc = fsOpenGameCardDetectionEventNotifier P (calls s3);
                s4 = log_call FsOpenGameCardDetectionEventNotifier s3
            in
            if R_FAILED rc then (ret, s4)
            else
              let s5 = s4\<lparr>g_openEventNotifier := True\<rparr>;
                  rc = fsEventNotifierGetEventHandle P (calls s5);
                  s6 = log_call FsEventNotifierGetEventHandle s5
              in
              if R_FAILED rc then (ret, s6)
              else
                let s7 = s6\<lparr>g_loadKernelEvent := True\<rparr>;
                    s8 = log_call UeventCreate s7;
                    s9 = log_call UeventCreate s8
                in
                case gamecardCreateDetectionThread P s9 of
                  (created, s10) \<Rightarrow>
                    let s11 = s10\<lparr>g_gameCardDetectionThreadCreated := created\<rparr> in
                    if \<not> created then (ret, s11)
                    else (True, s11\<lparr>g_gamecardInterfaceInit := True\<rparr>))"

text \<open>The module before \<open>gamecardInitialize\<close>: every global has its static initial value.\<close>

definition initial_state :: gc_state where
  "initial_state =
     \<lparr> g_gamecardInterfaceInit = False,
       g_openDeviceOperator = False,
       g_openEventNotifier = False,
       g_loadKernelEvent = False,
       g_gameCardDetectionThreadCreated = False,
       g_gameCardInserted = False,
       g_gameCardInfoLoaded = False,
       g_gameCardHandle = 0,
       g_gameCardStorage = 0,
       g_gameCardStorageCurrentArea = GameCardStorageArea_None,
       g_gameCardReadBuf = None,
       g_gameCardHeader = zero_buffer,
       g_gameCardStorageNormalAreaSize = 0,
       g_gameCardStorageSecureAreaSize = 0,
       g_gameCardCapacity = 0,
       g_gameCardHfsRootHeader = None,
       g_gameCardHfsPartitions = None,
       calls = [] \<rparr>"

lemma gamecardInitialize_sets_flag:
  "fst (gamecardInitialize P s) \<Longrightarrow> g_gamecardInterfaceInit (snd (gamecardInitialize P s))"
  by (auto simp: gamecardInitialize_def Let_def split: if_splits prod.splits)

lemma gamecardInitialize_when_initialized:
  "g_gamecardInterfaceInit s \<Longrightarrow> gamecardInitialize P s = (True, s)"
  by (simp add: gamecardInitialize_def)

text \<open>
  C9: once the interface is initialised, in particular after a call that succeeded, a
  call returns true and the session state is the same: no call to the platform is recorded
  (no allocation, no device operator or notifier opened, no thread created), and so for any
  number of further calls.
\<close>

theorem gamecardInitialize_idempotent:
  assumes "g_gamecardInterfaceInit s \<or> (\<exists>s0. fst (gamecardInitialize P0 s0) \<and> s = snd (gamecardInitialize P0 s0))"
  shows "gamecardInitialize P s = (True, s) \<and>
         calls (snd (gamecardInitialize P s)) = calls s \<and>
         ((\<lambda>t. snd (gamecardInitialize P t)) ^^ n) s = s"
proof -
  from assms have init: "g_gamecardInterfaceInit s"
    by (auto dest: gamecardInitialize_sets_flag)
  then have one: "gamecardInitialize P s = (True, s)" by (rule gamecardInitialize_when_initialized)
  have "((\<lambda>t. snd (gamecardInitialize P t)) ^^ n) s = s"
    by (induction n) (simp_all add: one)
  with one show ?thesis by simp
qed

theorem gamecardInitialize_idempotent_witness:
  "fst (gamecardInitialize (sim_platform sim_card) initial_state) \<and>
   gamecardInitialize (sim_platform sim_card) (snd (gamecardInitialize (sim_platform sim_card) initial_state)) =
     (True, snd (gamecardInitialize (sim_platform sim_card) initial_state)) \<and>
   length (calls (snd (gamecardInitialize (sim_platform sim_card) initial_state))) = 7"
proof -
  have ok: "fst (gamecardInitialize (sim_platform sim_card) initial_state)"
    by (simp add: gamecardInitialize_def initial_state_def sim_platform_def Let_def log_call_def
        gamecardCreateDetectionThread_def R_FAILED_def)
  have n: "length (calls (snd (gamecardInitialize (sim_platform sim_card) initial_state))) = 7"
    by (simp add: gamecardInitialize_def initial_state_def sim_platform_def Let_def log_call_def
        gamecardCreateDetectionThread_def R_FAILED_def)
  from ok gamecardInitialize_idempotent
    [where s = "snd (gamecardInitialize (sim_platform sim_card) initial_state)"
       and ?P0.0 = "sim_platform sim_card" and P = "sim_platform sim_card" and n = 1]
  show ?thesis using n by auto
qed

section \<open>What a read leaves untouched\<close>

text \<open>
  \<open>io_frame s s'\<close>: \<open>s'\<close> differs from \<open>s\<close> at most in the gamecard handle, the open
  storage, the current area, the scratch buffer and the record of calls.
\<close>

definition io_frame :: "gc_state \<Rightarrow> gc_state \<Rightarrow> bool" where
  "io_frame s s' =
     (g_gamecardInterfaceInit s' = g_gamecardInterfaceInit s \<and>
      g_openDeviceOperator s' = g_openDeviceOperator s \<and>
      g_openEventNotifier s' = g_openEventNotifier s \<and>
      g_loadKernelEvent s' = g_loadKernelEvent s \<and>
      g_gameCardDetectionThreadCreated s' = g_gameCardDetectionThreadCreated s \<and>
      g_gameCardInserted s' = g_gameCardInserted s \<and>
      g_gameCardInfoLoaded s' = g_gameCardInfoLoaded s \<and>
      g_gameCardHeader s' = g_gameCardHeader s \<and>
      g_gameCardStorageNormalAreaSize s' = g_gameCardStorageNormalAreaSize s \<and>
      g_gameCardStorageSecureAreaSize s' = g_gameCardStorageSecureAreaSize s \<and>
      g_gameCardCapacity s' = g_gameCardCapacity s \<and>
      g_gameCardHfsRootHeader s' = g_gameCardHfsRootHeader s \<and>
      g_gameCardHfsPartitions s' = g_gameCardHfsPartitions s)"

lemma io_frame_refl: "io_frame s s"
  by (simp add: io_frame_def)

lemma io_frame_trans: "io_frame s t \<Longrightarrow> io_frame t u \<Longrightarrow> io_frame s u"
  by (simp add: io_frame_def)

lemma io_frame_log_call: "io_frame s (log_call c s)"
  by (simp add: io_frame_def log_call_def)

lemma io_frame_gamecardCloseHandle: "io_frame s (gamecardCloseHandle s)"
  by (simp add: io_frame_def gamecardCloseHandle_def log_call_def)

lemma io_frame_gamecardCloseStorageArea: "io_frame s (gamecardCloseStorageArea s)"
  by (simp add: io_frame_def gamecardCloseStorageArea_def gamecardCloseHandle_def log_call_def Let_def)

lemma io_frame_gamecardGetHandle_loop:
  "io_frame s (snd (snd (gamecardGetHandle_loop P n rc1 rc2 s)))"
proof (induction n arbitrary: rc1 rc2 s)
  case 0
  show ?case by (simp add: io_frame_refl)
next
  case (Suc n)
  obtain rc1' tmp where op: "fsOpenGameCardStorage P (calls s) (g_gameCardHandle s) 0 = (rc1', tmp)"
    by (cases "fsOpenGameCardStorage P (calls s) (g_gameCardHandle s) 0")
  show ?case
  proof (cases "R_SUCCEEDED rc1'")
    case True
    with op show ?thesis by (simp add: Let_def io_frame_def log_call_def)
  next
    case False
    define s2 where "s2 = gamecardCloseHandle (log_call (FsOpenGameCardStorage (g_gameCardHandle s) 0) s)"
    obtain rc2' h where gh: "fsDeviceOperatorGetGameCardHandle P (calls s2) = (rc2', h)"
      by (cases "fsDeviceOperatorGetGameCardHandle P (calls s2)")
    define s4 where "s4 = (if R_SUCCEEDED rc2'
        then (log_call FsDeviceOperatorGetGameCardHandle s2)\<lparr>g_gameCardHandle := h\<rparr>
        else log_call FsDeviceOperatorGetGameCardHandle s2)"
    have f4: "io_frame s s4"
      by (simp add: s4_def s2_def io_frame_def gamecardCloseHandle_def log_call_def)
    from op False gh have "gamecardGetHandle_loop P (Suc n) rc1 rc2 s = gamecardGetHandle_loop P n rc1' rc2' s4"
      by (auto simp: Let_def s2_def s4_def split: if_splits)
    moreover have "io_frame s4 (snd (snd (gamecardGetHandle_loop P n rc1' rc2' s4)))" by (rule Suc.IH)
    ultimately show ?thesis using f4 by (auto intro: io_frame_trans)
  qed
qed

lemma io_frame_gamecardGetHandle: "io_frame s (snd (gamecardGetHandle P s))"
proof (cases "g_gameCardInserted s")
  case False
  then show ?thesis by (simp add: gamecardGetHandle_def io_frame_refl)
next
  case True
  obtain rc1 rc2 s1 where loop: "gamecardGetHandle_loop P 10 0 0 s = (rc1, rc2, s1)"
    by (cases "gamecardGetHandle_loop P 10 0 0 s") auto
  from io_frame_gamecardGetHandle_loop [of s P 10 0 0] loop have "io_frame s s1" by simp
  moreover have "io_frame s1 (gamecardCloseHandle s1)" by (rule io_frame_gamecardCloseHandle)
  ultimately show ?thesis using True loop
    by (auto simp: gamecardGetHandle_def intro: io_frame_trans)
qed

lemma io_frame_gamecardOpenStorageArea: "io_frame s (snd (gamecardOpenStorageArea P s area))"
proof -
  define s1 where "s1 = gamecardCloseStorageArea s"
  have a: "io_frame s s1" unfolding s1_def by (rule io_frame_gamecardCloseStorageArea)
  obtain ok s2 where gh: "gamecardGetHandle P s1 = (ok, s2)" by (cases "gamecardGetHandle P s1")
  from io_frame_gamecardGetHandle [of s1 P] gh have b: "io_frame s1 s2" by simp
  from a b have c: "io_frame s s2" by (rule io_frame_trans)
  then have d: "io_frame s (gamecardCloseHandle (log_call c' s2))" for c'
    by (simp add: io_frame_def gamecardCloseHandle_def log_call_def)
  from c have e: "io_frame s ((log_call c' s2)\<lparr>g_gameCardStorage := x, g_gameCardStorageCurrentArea := y\<rparr>)" for c' x y
    by (simp add: io_frame_def log_call_def)
  show ?thesis
    using c d e gh s1_def
    by (auto simp: gamecardOpenStorageArea_def Let_def io_frame_refl split: prod.splits bool.splits)
qed

subsection \<open>The body of \<open>gamecardReadStorageArea\<close> in named parts\<close>

text \<open>
  For the proofs, the parts of the body are named: the guard, the test for a request that
  spans both areas, the offsets and sizes of the aligned chunk, and the code that opens an
  area and reads from it (\<open>read_area\<close>), which calls \<open>gamecardReadStorageArea\<close> again when
  the aligned chunk exceeds the scratch buffer. \<open>gamecardReadStorageArea_unfold\<close> states
  that the body is made of these parts.
\<close>

definition read_refused :: "gc_state \<Rightarrow> nat option \<Rightarrow> u64 \<Rightarrow> u64 \<Rightarrow> bool" where
  "read_refused s out read_size offset =
     (\<not> g_gameCardInserted s \<or> g_gameCardStorageNormalAreaSize s = 0 \<or>
      g_gameCardStorageSecureAreaSize s = 0 \<or> out = None \<or> read_size = 0 \<or>
      offset \<ge> g_gameCardStorageNormalAreaSize s + g_gameCardStorageSecureAreaSize s \<or>
      offset + read_size > g_gameCardStorageNormalAreaSize s + g_gameCardStorageSecureAreaSize s)"

definition read_spans :: "gc_state \<Rightarrow> u64 \<Rightarrow> u64 \<Rightarrow> bool" where
  "read_spans s read_size offset =
     (offset < g_gameCardStorageNormalAreaSize s \<and>
      offset + read_size > g_gameCardStorageNormalAreaSize s)"

definition area_base_offset :: "gc_state \<Rightarrow> u8 \<Rightarrow> u64 \<Rightarrow> u64" where
  "area_base_offset s area offset =
     (if area = GameCardStorageArea_Normal then offset
      else offset - g_gameCardStorageNormalAreaSize s)"

definition block_start :: "u64 \<Rightarrow> u64" where
  "block_start base_offset = base_offset - (base_offset mod GAMECARD_MEDIA_UNIT_SIZE)"

definition block_size_of :: "u64 \<Rightarrow> u64 \<Rightarrow> u64" where
  "block_size_of base_offset read_size =
     ROUND_UP (base_offset + read_size) GAMECARD_MEDIA_UNIT_SIZE - block_start base_offset"

definition chunk_size_of :: "u64 \<Rightarrow> u64 \<Rightarrow> u64" where
  "chunk_size_of base_offset read_size =
     (if block_size_of base_offset read_size > GAMECARD_READ_BUFFER_SIZE
      then GAMECARD_READ_BUFFER_SIZE else block_size_of base_offset read_size)"

definition out_chunk_size_of :: "u64 \<Rightarrow> u64 \<Rightarrow> u64" where
  "out_chunk_size_of base_offset read_size =
     (if block_size_of base_offset read_size > GAMECARD_READ_BUFFER_SIZE
      then GAMECARD_READ_BUFFER_SIZE - (base_offset - block_start base_offset)
      else read_size)"

definition read_aligned ::
  "platform \<Rightarrow> buffer \<Rightarrow> gc_state \<Rightarrow> u64 \<Rightarrow> u64 \<Rightarrow> nat \<Rightarrow> bool \<times> buffer \<times> gc_state"
where
  "read_aligned P mem1 s2 read_size1 base_offset out1 =
     (case fsStorageRead P (calls s2) (g_gameCardStorage s2) base_offset read_size1 of
        (rc, data) \<Rightarrow>
          let s3 = log_call (FsStorageRead (g_gameCardStorage s2) base_offset read_size1) s2 in
          if R_FAILED rc then (False, mem1, s3)
          else (True, memcpy mem1 out1 data 0 (unat read_size1), s3))"

definition read_unaligned ::
  "platform \<Rightarrow> buffer \<Rightarrow> gc_state \<Rightarrow> u64 \<Rightarrow> u64 \<Rightarrow> nat \<Rightarrow> bool \<times> buffer \<times> gc_state"
where
  "read_unaligned P mem1 s2 read_size1 base_offset out1 =
     (let block_start_offset = base_offset - (base_offset mod GAMECARD_MEDIA_UNIT_SIZE);
          block_end_offset = ROUND_UP (base_offset + read_size1) GAMECARD_MEDIA_UNIT_SIZE;
          block_size = block_end_offset - block_start_offset;
          chunk_size = (if block_size > GAMECARD_READ_BUFFER_SIZE
                        then GAMECARD_READ_BUFFER_SIZE else block_size);
          out_chunk_size = (if block_size > GAMECARD_READ_BUFFER_SIZE
                            then GAMECARD_READ_BUFFER_SIZE - (base_offset - block_start_offset)
                            else read_size1)
      in
      (case fsStorageRead P (calls s2) (g_gameCardStorage s2) block_start_offset chunk_size of
         (rc, data) \<Rightarrow>
           let s3 = log_call (FsStorageRead (g_gameCardStorage s2) block_start_offset chunk_size) s2 in
           if R_FAILED rc then (False, mem1, s3)
           else
             (case g_gameCardReadBuf s3 of
                None \<Rightarrow> (False, mem1, s3)
              | Some rb \<Rightarrow>
                  let rb' = memcpy rb 0 data 0 (unat chunk_size);
                      s4 = s3\<lparr>g_gameCardReadBuf := Some rb'\<rparr>;
                      mem2 = memcpy mem1 out1 rb' (unat (base_offset - block_start_offset))
                               (unat out_chunk_size)
                  in
                  if block_size > GAMECARD_READ_BUFFER_SIZE
                  then gamecardReadStorageArea P s4 mem2 (Some (out1 + unat out_chunk_size))
                         (read_size1 - out_chunk_size) (base_offset + out_chunk_size) False
                  else (True, mem2, s4))))"

definition read_area ::
  "platform \<Rightarrow> buffer \<Rightarrow> gc_state \<Rightarrow> u64 \<Rightarrow> u64 \<Rightarrow> nat \<Rightarrow> u8 \<Rightarrow> bool \<times> buffer \<times> gc_state"
where
  "read_area P mem1 s1 read_size1 offset1 out1 area1 =
     (case gamecardOpenStorageArea P s1 area1 of
        (False, s2) \<Rightarrow> (False, mem1, s2)
      | (True, s2) \<Rightarrow>
          let base_offset = (if area1 = GameCardStorageArea_Normal then offset1
                             else offset1 - g_gameCardStorageNormalAreaSize s2)
          in
          if base_offset mod GAMECARD_MEDIA_UNIT_SIZE = 0 \<and>
             read_size1 mod GAMECARD_MEDIA_UNIT_SIZE = 0
          then read_aligned P mem1 s2 read_size1 base_offset out1
          else read_unaligned P mem1 s2 read_size1 base_offset out1)"

lemma read_area_body:
  "read_area P mem1 s1 read_size1 offset1 out1 area1 =
     (case gamecardOpenStorageArea P s1 area1 of
        (False, s2) \<Rightarrow> (False, mem1, s2)
      | (True, s2) \<Rightarrow>
          let base_offset = (if area1 = GameCardStorageArea_Normal then offset1
                             else offset1 - g_gameCardStorageNormalAreaSize s2)
          in
          if base_offset mod GAMECARD_MEDIA_UNIT_SIZE = 0 \<and>
             read_size1 mod GAMECARD_MEDIA_UNIT_SIZE = 0
          then
            (case fsStorageRead P (calls s2) (g_gameCardStorage s2) base_offset read_size1 of
               (rc, data) \<Rightarrow>
                 let s3 = log_call (FsStorageRead (g_gameCardStorage s2) base_offset read_size1) s2 in
                 if R_FAILED rc then (False, mem1, s3)
                 else (True, memcpy mem1 out1 data 0 (unat read_size1), s3))
          else
            let block_start_offset = base_offset - (base_offset mod GAMECARD_MEDIA_UNIT_SIZE);
                block_end_offset = ROUND_UP (base_offset + read_size1) GAMECARD_MEDIA_UNIT_SIZE;
                block_size = block_end_offset - block_start_offset;
                chunk_size = (if block_size > GAMECARD_READ_BUFFER_SIZE
                              then GAMECARD_READ_BUFFER_SIZE else block_size);
                out_chunk_size = (if block_size > GAMECARD_READ_BUFFER_SIZE
                                  then GAMECARD_READ_BUFFER_SIZE - (base_offset - block_start_offset)
                                  else read_size1)
            in
            (case fsStorageRead P (calls s2) (g_gameCardStorage s2) block_start_offset chunk_size of
               (rc, data) \<Rightarrow>
                 let s3 = log_call (FsStorageRead (g_gameCardStorage s2) block_start_offset chunk_size) s2 in
                 if R_FAILED rc then (False, mem1, s3)
                 else
                   (case g_gameCardReadBuf s3 of
                      None \<Rightarrow> (False, mem1, s3)
                    | Some rb \<Rightarrow>
                        let rb' = memcpy rb 0 data 0 (unat chunk_size);
                            s4 = s3\<lparr>g_gameCardReadBuf := Some rb'\<rparr>;
                            mem2 = memcpy mem1 out1 rb' (unat (base_offset - block_start_offset))
                                     (unat out_chunk_size)
                        in
                        if block_size > GAMECARD_READ_BUFFER_SIZE
                        then gamecardReadStorageArea P s4 mem2 (Some (out1 + unat out_chunk_size))
                               (read_size1 - out_chunk_size) (base_offset + out_chunk_size) False
                        else (True, mem2, s4))))"
  unfolding read_area_def read_aligned_def read_unaligned_def by (rule refl)

lemma gamecardReadStorageArea_unfold:
  "gamecardReadStorageArea P s mem out read_size offset lock =
     (if read_refused s out read_size offset then (False, mem, s)
      else if read_spans s read_size offset then
        (case gamecardReadStorageArea P s mem out
                (g_gameCardStorageNormalAreaSize s - offset) offset False of
           (ok, mem1, s1) \<Rightarrow>
             if \<not> ok then (False, mem1, s1)
             else read_area P mem1 s1 (read_size - (g_gameCardStorageNormalAreaSize s - offset))
                    (g_gameCardStorageNormalAreaSize s1)
                    (the out + unat (g_gameCardStorageNormalAreaSize s - offset))
                    GameCardStorageArea_Secure)
      else read_area P mem s read_size offset (the out)
             (if offset < g_gameCardStorageNormalAreaSize s
              then GameCardStorageArea_Normal else GameCardStorageArea_Secure))"
proof (cases "read_refused s out read_size offset")
  case True
  then show ?thesis
    by (subst gamecardReadStorageArea.simps) (simp add: read_refused_def)
next
  case False
  then obtain y where y: "out = Some y" by (auto simp: read_refused_def)
  have ne: "GameCardStorageArea_Normal \<noteq> GameCardStorageArea_Secure"
    by (simp add: GameCardStorageArea_Normal_def GameCardStorageArea_Secure_def)
  have g: "(\<not> g_gameCardInserted s \<or> g_gameCardStorageNormalAreaSize s = 0 \<or>
        g_gameCardStorageSecureAreaSize s = 0 \<or> Some y = None \<or> read_size = 0 \<or>
        offset \<ge> g_gameCardStorageNormalAreaSize s + g_gameCardStorageSecureAreaSize s \<or>
        offset + read_size > g_gameCardStorageNormalAreaSize s + g_gameCardStorageSecureAreaSize s) = False"
    using False by (simp add: read_refused_def y)
  show ?thesis
  proof (cases "read_spans s read_size offset")
    case True
    with False ne show ?thesis
      unfolding y
      apply (subst gamecardReadStorageArea.simps)
      apply (simp only: read_area_body [symmetric] g if_False)
      apply (simp add: read_spans_def Let_def split: prod.splits)
      done
  next
    case nsp: False
    with False ne show ?thesis
      unfolding y
      apply (subst gamecardReadStorageArea.simps)
      apply (simp only: read_area_body [symmetric] g if_False)
      apply (auto simp: read_spans_def Let_def split: prod.splits)
      done
  qed
qed

text \<open>The unaligned read with the chunk's offsets and sizes named.\<close>

lemma read_unaligned_flat:
  "read_unaligned P mem s read_size base_offset out =
     (case fsStorageRead P (calls s) (g_gameCardStorage s) (block_start base_offset)
             (chunk_size_of base_offset read_size) of
        (rc, data) \<Rightarrow>
          let s3 = log_call (FsStorageRead (g_gameCardStorage s) (block_start base_offset)
                               (chunk_size_of base_offset read_size)) s in
          if R_FAILED rc then (False, mem, s3)
          else
            (case g_gameCardReadBuf s3 of
               None \<Rightarrow> (False, mem, s3)
             | Some rb \<Rightarrow>
                 let rb' = memcpy rb 0 data 0 (unat (chunk_size_of base_offset read_size));
                     s4 = s3\<lparr>g_gameCardReadBuf := Some rb'\<rparr>;
                     mem2 = memcpy mem out rb' (unat (base_offset - block_start base_offset))
                              (unat (out_chunk_size_of base_offset read_size))
                 in
                 if block_size_of base_offset read_size > GAMECARD_READ_BUFFER_SIZE
                 then gamecardReadStorageArea P s4 mem2
                        (Some (out + unat (out_chunk_size_of base_offset read_size)))
                        (read_size - out_chunk_size_of base_offset read_size)
                        (base_offset + out_chunk_size_of base_offset read_size) False
                 else (True, mem2, s4)))"
  unfolding read_unaligned_def block_start_def block_size_of_def chunk_size_of_def
    out_chunk_size_of_def Let_def
  by (rule refl)

lemma g_gameCardReadBuf_log_call: "g_gameCardReadBuf (log_call c s) = g_gameCardReadBuf s"
  by (simp add: log_call_def)

lemma out_chunk_decreases:
  assumes "GAMECARD_READ_BUFFER_SIZE < block_size_of b r"
  shows "unat (r - out_chunk_size_of b r) < unat r"
proof -
  from assms have "unat (r - (GAMECARD_READ_BUFFER_SIZE - (b - (b - b mod GAMECARD_MEDIA_UNIT_SIZE)))) < unat r"
    unfolding block_size_of_def block_start_def by (rule tail_decreases)
  with assms show ?thesis by (simp add: out_chunk_size_of_def block_start_def)
qed

text \<open>
  A relation between states that is reflexive and transitive, and that opening an area,
  recording a storage read and writing the scratch buffer respect, holds between the state
  before and after a read.
\<close>

lemma read_unaligned_rel:
  assumes refl: "\<And>s. R s s" and trans: "\<And>s t u. R s t \<Longrightarrow> R t u \<Longrightarrow> R s u"
    and lg: "\<And>s st off sz. R s (log_call (FsStorageRead st off sz) s)"
    and buf: "\<And>s b. R s (s\<lparr>g_gameCardReadBuf := b\<rparr>)"
    and IH: "\<And>s' mem' out' rs' off'. unat rs' < unat read_size \<Longrightarrow>
               R s' (snd (snd (gamecardReadStorageArea P s' mem' out' rs' off' False)))"
  shows "R s (snd (snd (read_unaligned P mem s read_size base_offset out)))"
proof -
  obtain rc data where rd: "fsStorageRead P (calls s) (g_gameCardStorage s) (block_start base_offset)
             (chunk_size_of base_offset read_size) = (rc, data)"
    by (cases "fsStorageRead P (calls s) (g_gameCardStorage s) (block_start base_offset)
             (chunk_size_of base_offset read_size)")
  define s3 where "s3 = log_call (FsStorageRead (g_gameCardStorage s) (block_start base_offset)
                                        (chunk_size_of base_offset read_size)) s"
  have r3: "R s s3" unfolding s3_def by (rule lg)
  have b3: "g_gameCardReadBuf s3 = g_gameCardReadBuf s" by (simp add: s3_def log_call_def)
  show ?thesis
  proof (cases "R_FAILED rc \<or> g_gameCardReadBuf s = None")
    case True
    with rd r3 show ?thesis by (auto simp: read_unaligned_flat s3_def Let_def g_gameCardReadBuf_log_call)
  next
    case False
    then obtain rb where rb: "g_gameCardReadBuf s = Some rb" and nf: "\<not> R_FAILED rc" by auto
    define s4 where "s4 = s3\<lparr>g_gameCardReadBuf :=
                              Some (memcpy rb 0 data 0 (unat (chunk_size_of base_offset read_size)))\<rparr>"
    have r4: "R s s4" using r3 buf [of s3] unfolding s4_def by (blast intro: trans)
    show ?thesis
    proof (cases "block_size_of base_offset read_size > GAMECARD_READ_BUFFER_SIZE")
      case True
      then have "unat (read_size - out_chunk_size_of base_offset read_size) < unat read_size"
        by (rule out_chunk_decreases)
      from IH [OF this] have "R s4 (snd (snd (gamecardReadStorageArea P s4 mem' out' 
             (read_size - out_chunk_size_of base_offset read_size) off' False)))" for mem' out' off' .
      with r4 have "R s (snd (snd (gamecardReadStorageArea P s4 mem' out' 
             (read_size - out_chunk_size_of base_offset read_size) off' False)))" for mem' out' off'
        by (rule trans)
      with True rd rb nf show ?thesis
        by (simp add: read_unaligned_flat s4_def s3_def Let_def g_gameCardReadBuf_log_call)
    next
      case False
      with rd rb nf r4 show ?thesis
        by (simp add: read_unaligned_flat s4_def s3_def Let_def g_gameCardReadBuf_log_call)
    qed
  qed
qed

lemma read_area_rel:
  assumes refl: "\<And>s. R s s" and trans: "\<And>s t u. R s t \<Longrightarrow> R t u \<Longrightarrow> R s u"
    and opn: "\<And>s a. R s (snd (gamecardOpenStorageArea P s a))"
    and lg: "\<And>s st off sz. R s (log_call (FsStorageRead st off sz) s)"
    and buf: "\<And>s b. R s (s\<lparr>g_gameCardReadBuf := b\<rparr>)"
    and IH: "\<And>s' mem' out' rs' off'. unat rs' < unat read_size \<Longrightarrow>
               R s' (snd (snd (gamecardReadStorageArea P s' mem' out' rs' off' False)))"
  shows "R s (snd (snd (read_area P mem s read_size offset out area)))"
proof -
  obtain ok s2 where op: "gamecardOpenStorageArea P s area = (ok, s2)"
    by (cases "gamecardOpenStorageArea P s area")
  from opn [of s area] op have r12: "R s s2" by simp
  have al: "R s2 (snd (snd (read_aligned P mem s2 read_size b out)))" for b
    by (auto simp: read_aligned_def Let_def lg split: prod.splits)
  have un: "R s2 (snd (snd (read_unaligned P mem s2 read_size b out)))" for b
    by (rule read_unaligned_rel [where R = R, OF refl trans lg buf IH])
  show ?thesis
    using op r12 trans [OF r12 al] trans [OF r12 un]
    by (cases ok) (simp_all add: read_area_def Let_def)
qed

lemma gamecardReadStorageArea_rel:
  assumes refl: "\<And>s. R s s" and trans: "\<And>s t u. R s t \<Longrightarrow> R t u \<Longrightarrow> R s u"
    and opn: "\<And>s a. R s (snd (gamecardOpenStorageArea P s a))"
    and lg: "\<And>s st off sz. R s (log_call (FsStorageRead st off sz) s)"
    and buf: "\<And>s b. R s (s\<lparr>g_gameCardReadBuf := b\<rparr>)"
  shows "R s (snd (snd (gamecardReadStorageArea P s mem out read_size offset lock)))"
proof (induction "unat read_size" arbitrary: s mem out read_size offset lock rule: less_induct)
  case less
  have area: "R s1 (snd (snd (read_area P mem1 s1 rs1 off1 out1 area1)))"
    if "unat rs1 \<le> unat read_size" for s1 mem1 and rs1 :: u64 and off1 out1 area1
  proof (rule read_area_rel [where R = R, OF refl trans opn lg buf])
    fix s' mem' out' and rs' :: u64 and off'
    assume "unat rs' < unat rs1"
    with that have "unat rs' < unat read_size" by simp
    then show "R s' (snd (snd (gamecardReadStorageArea P s' mem' out' rs' off' False)))"
      by (rule less)
  qed
  show ?case
  proof (cases "read_refused s out read_size offset")
    case True
    then show ?thesis by (subst gamecardReadStorageArea_unfold) (simp add: refl)
  next
    case nr: False
    show ?thesis
    proof (cases "read_spans s read_size offset")
      case True
      define d where "d = g_gameCardStorageNormalAreaSize s - offset"
      from True have d1: "unat d < unat read_size" and d2: "unat (read_size - d) < unat read_size"
        unfolding d_def read_spans_def by (auto intro: split_decreases)
      obtain ok mem1 s1 where r: "gamecardReadStorageArea P s mem out d offset False = (ok, mem1, s1)"
        by (cases "gamecardReadStorageArea P s mem out d offset False")
      from less [OF d1, of s mem out offset False] r have r1: "R s s1" by simp
      from d2 have "R s1 (snd (snd (read_area P mem1 s1 (read_size - d) (g_gameCardStorageNormalAreaSize s1)
                    (the out + unat d) GameCardStorageArea_Secure)))"
        by (intro area) simp
      with r1 have "R s (snd (snd (read_area P mem1 s1 (read_size - d) (g_gameCardStorageNormalAreaSize s1)
                    (the out + unat d) GameCardStorageArea_Secure)))"
        by (rule trans)
      with r1 nr True r show ?thesis
        by (subst gamecardReadStorageArea_unfold) (simp add: d_def [symmetric])
    next
      case False
      with nr area [of read_size s mem offset "the out"] show ?thesis
        by (subst gamecardReadStorageArea_unfold) simp
    qed
  qed
qed

lemma io_frame_gamecardReadStorageArea:
  "io_frame s (snd (snd (gamecardReadStorageArea P s mem out read_size offset lock)))"
proof (rule gamecardReadStorageArea_rel [where R = io_frame])
  show "io_frame s s" for s by (rule io_frame_refl)
  show "io_frame s t \<Longrightarrow> io_frame t u \<Longrightarrow> io_frame s u" for s t u by (rule io_frame_trans)
  show "io_frame s (snd (gamecardOpenStorageArea P s a))" for s a by (rule io_frame_gamecardOpenStorageArea)
  show "io_frame s (log_call (FsStorageRead st off sz) s)" for s st off sz by (rule io_frame_log_call)
  show "io_frame s (s\<lparr>g_gameCardReadBuf := b\<rparr>)" for s b by (simp add: io_frame_def)
qed

section \<open>The simulated card at work\<close>

lemma sim_gamecardGetHandle_loop:
  assumes "g_gameCardHandle s = 0"
  shows "gamecardGetHandle_loop (sim_platform c) (Suc (Suc n)) rc1 rc2 s =
    (0, 0, s\<lparr>g_gameCardHandle := sim_handle,
              calls := FsStorageClose 1 # FsOpenGameCardStorage sim_handle 0 #
                       FsDeviceOperatorGetGameCardHandle # SvcCloseHandle 0 #
                       FsOpenGameCardStorage 0 0 # calls s\<rparr>)"
  using assms
  by (simp add: sim_platform_def sim_handle_def Let_def
      log_call_def gamecardCloseHandle_def R_SUCCEEDED_def R_FAILED_def)

lemma sim_gamecardGetHandle:
  assumes "g_gameCardInserted s" "g_gameCardHandle s = 0"
  shows "gamecardGetHandle (sim_platform c) s =
    (True, s\<lparr>g_gameCardHandle := sim_handle,
              calls := FsStorageClose 1 # FsOpenGameCardStorage sim_handle 0 #
                       FsDeviceOperatorGetGameCardHandle # SvcCloseHandle 0 #
                       FsOpenGameCardStorage 0 0 # calls s\<rparr>)"
proof -
  have "gamecardGetHandle_loop (sim_platform c) 10 0 0 s =
        gamecardGetHandle_loop (sim_platform c) (Suc (Suc 8)) 0 0 s"
  proof -
    have ten: "(10::nat) = Suc (Suc 8)" by simp
    show ?thesis by (rule arg_cong [where f = "\<lambda>n. gamecardGetHandle_loop (sim_platform c) n 0 0 s", OF ten])
  qed
  also have "\<dots> = (0, 0, s\<lparr>g_gameCardHandle := sim_handle,
              calls := FsStorageClose 1 # FsOpenGameCardStorage sim_handle 0 #
                       FsDeviceOperatorGetGameCardHandle # SvcCloseHandle 0 #
                       FsOpenGameCardStorage 0 0 # calls s\<rparr>)"
    by (rule sim_gamecardGetHandle_loop [OF assms(2)])
  finally show ?thesis
    using assms by (simp add: gamecardGetHandle_def R_FAILED_def)
qed

lemma sim_gamecardOpenStorageArea_fresh:
  assumes "g_gameCardInserted s" "g_gameCardHandle s = 0" "g_gameCardStorage s = 0"
    and "area = GameCardStorageArea_Normal \<or> area = GameCardStorageArea_Secure"
  shows "gamecardOpenStorageArea (sim_platform c) s area =
    (True, s\<lparr>g_gameCardHandle := sim_handle,
              g_gameCardStorage := ucast area,
              g_gameCardStorageCurrentArea := area,
              calls := FsOpenGameCardStorage sim_handle (ucast (area - 1)) #
                       FsStorageClose 1 # FsOpenGameCardStorage sim_handle 0 #
                       FsDeviceOperatorGetGameCardHandle # SvcCloseHandle 0 #
                       FsOpenGameCardStorage 0 0 # SvcCloseHandle 0 # calls s\<rparr>)"
proof -
  define s1 where "s1 = gamecardCloseStorageArea s"
  have s1: "s1 = s\<lparr>g_gameCardStorageCurrentArea := GameCardStorageArea_None, calls := SvcCloseHandle 0 # calls s\<rparr>"
    using assms by (simp add: s1_def gamecardCloseStorageArea_def serviceIsActive_def Let_def
        gamecardCloseHandle_def log_call_def)
  have gh: "gamecardGetHandle (sim_platform c) s1 =
    (True, s1\<lparr>g_gameCardHandle := sim_handle,
              calls := FsStorageClose 1 # FsOpenGameCardStorage sim_handle 0 #
                       FsDeviceOperatorGetGameCardHandle # SvcCloseHandle 0 #
                       FsOpenGameCardStorage 0 0 # calls s1\<rparr>)"
    using assms by (intro sim_gamecardGetHandle) (simp_all add: s1)
  show ?thesis
    using assms(1,2,4)
    apply (simp add: gamecardOpenStorageArea_def s1_def [symmetric] gh Let_def)
    apply (auto simp: s1 sim_platform_def log_call_def R_FAILED_def serviceIsActive_def
        GameCardStorageArea_Normal_def GameCardStorageArea_Secure_def GameCardStorageArea_None_def)
    done
qed

lemma sim_fsStorageRead:
  "fsStorageRead (sim_platform c) h storage off sz =
     (if storage = 1 \<and> unat off + unat sz \<le> unat (normal_size c)
      then (0, \<lambda>i. normal_data c (unat off + i))
      else if storage = 2 \<and> unat off + unat sz \<le> unat (secure_size c)
      then (0, \<lambda>i. secure_data c (unat off + i))
      else (0x2EE202, zero_buffer))"
  by (simp add: sim_platform_def)

lemma sim_card_simps:
  "normal_size sim_card = 0x1000" "secure_size sim_card = 0x2000000"
  "normal_data sim_card i = of_nat i" "secure_data sim_card i = of_nat (i div 0x1000)"
  by (simp_all add: sim_card_def)

lemma sim_ready_state_simps:
  "g_gameCardInserted sim_ready_state"
  "g_gameCardHandle sim_ready_state = 0"
  "g_gameCardStorage sim_ready_state = 0"
  "g_gameCardStorageNormalAreaSize sim_ready_state = 0x1000"
  "g_gameCardStorageSecureAreaSize sim_ready_state = 0x2000000"
  "g_gameCardReadBuf sim_ready_state = Some zero_buffer"
  "calls sim_ready_state = []"
  by (simp_all add: sim_ready_state_def)

section \<open>A request whose end wraps around\<close>

text \<open>
  C4 at \<open>offset = 0x10\<close>, \<open>read_size = 0xFFFFFFFFFFFFFFF0\<close> on the simulated card (total
  size 0x2001000): the exact sum exceeds the total size, but the 64-bit sum is 0, the
  guard lets the request through, a storage read of length 0 is issued, the destination
  is overwritten from the scratch buffer and the result is true.
\<close>

theorem gamecardRead_wrapped_sum_not_refused:
  "unat (0x10 :: u64) + unat (0xFFFFFFFFFFFFFFF0 :: u64) >
     unat (g_gameCardStorageNormalAreaSize sim_ready_state + g_gameCardStorageSecureAreaSize sim_ready_state) \<and>
   \<not> read_refused sim_ready_state (Some 0) 0xFFFFFFFFFFFFFFF0 0x10 \<and>
   fst (gamecardRead (sim_platform sim_card) sim_ready_state (\<lambda>i. 0xAA) (Some 0) 0xFFFFFFFFFFFFFFF0 0x10) \<and>
   fst (snd (gamecardRead (sim_platform sim_card) sim_ready_state (\<lambda>i. 0xAA) (Some 0) 0xFFFFFFFFFFFFFFF0 0x10)) 0 = 0 \<and>
   hd (calls (snd (snd (gamecardRead (sim_platform sim_card) sim_ready_state (\<lambda>i. 0xAA) (Some 0)
                          0xFFFFFFFFFFFFFFF0 0x10)))) = FsStorageRead 1 0 0"
proof -
  have nr: "\<not> read_refused sim_ready_state (Some 0) 0xFFFFFFFFFFFFFFF0 0x10"
    by (simp add: read_refused_def sim_ready_state_simps)
  have ns: "\<not> read_spans sim_ready_state 0xFFFFFFFFFFFFFFF0 0x10"
    by (simp add: read_spans_def sim_ready_state_simps)
  have op: "gamecardOpenStorageArea (sim_platform sim_card) sim_ready_state GameCardStorageArea_Normal =
    (True, sim_ready_state\<lparr>g_gameCardHandle := sim_handle,
              g_gameCardStorage := 1,
              g_gameCardStorageCurrentArea := GameCardStorageArea_Normal,
              calls := FsOpenGameCardStorage sim_handle 0 #
                       FsStorageClose 1 # FsOpenGameCardStorage sim_handle 0 #
                       FsDeviceOperatorGetGameCardHandle # SvcCloseHandle 0 #
                       FsOpenGameCardStorage 0 0 # SvcCloseHandle 0 # []\<rparr>)"
    using sim_gamecardOpenStorageArea_fresh [of sim_ready_state GameCardStorageArea_Normal sim_card]
    by (simp add: sim_ready_state_simps GameCardStorageArea_Normal_def)
  have bs: "block_start 0x10 = 0" "block_size_of 0x10 0xFFFFFFFFFFFFFFF0 = 0"
    "chunk_size_of 0x10 0xFFFFFFFFFFFFFFF0 = 0"
    "out_chunk_size_of 0x10 0xFFFFFFFFFFFFFFF0 = 0xFFFFFFFFFFFFFFF0"
    by (simp_all add: block_start_def block_size_of_def chunk_size_of_def out_chunk_size_of_def
        GAMECARD_MEDIA_UNIT_SIZE_def GAMECARD_READ_BUFFER_SIZE_def ROUND_UP_def)
  have run: "gamecardRead (sim_platform sim_card) sim_ready_state (\<lambda>i. 0xAA) (Some 0) 0xFFFFFFFFFFFFFFF0 0x10 =
      read_unaligned (sim_platform sim_card) (\<lambda>i. 0xAA)
        (sim_ready_state\<lparr>g_gameCardHandle := sim_handle,
              g_gameCardStorage := 1,
              g_gameCardStorageCurrentArea := GameCardStorageArea_Normal,
              calls := FsOpenGameCardStorage sim_handle 0 #
                       FsStorageClose 1 # FsOpenGameCardStorage sim_handle 0 #
                       FsDeviceOperatorGetGameCardHandle # SvcCloseHandle 0 #
                       FsOpenGameCardStorage 0 0 # SvcCloseHandle 0 # []\<rparr>)
        0xFFFFFFFFFFFFFFF0 0x10 0"
    unfolding gamecardRead_def
    by (subst gamecardReadStorageArea_unfold)
       (simp add: nr ns read_area_def op sim_ready_state_simps GAMECARD_MEDIA_UNIT_SIZE_def)
  show ?thesis
    unfolding run
    by (simp add: nr read_unaligned_flat bs sim_platform_def sim_card_def sim_ready_state_simps
        Let_def log_call_def R_FAILED_def memcpy_def zero_buffer_def GAMECARD_READ_BUFFER_SIZE_def)
qed

theorem gamecardRead_wrapped_sum_not_refused_witness:
  "(0x10 :: u64) + 0xFFFFFFFFFFFFFFF0 = 0 \<and>
   fst (gamecardRead (sim_platform sim_card) sim_ready_state (\<lambda>i. 0xAA) (Some 0) 0xFFFFFFFFFFFFFFF0 0x10)"
  using gamecardRead_wrapped_sum_not_refused by simp

text \<open>Without wrap-around, a request that ends beyond the two areas is refused.\<close>

lemma gamecardRead_out_of_bounds_refused:
  assumes "unat offset + unat read_size >
             unat (g_gameCardStorageNormalAreaSize s + g_gameCardStorageSecureAreaSize s)"
    and "unat offset + unat read_size < 2 ^ 64"
  shows "gamecardRead P s mem out read_size offset = (False, mem, s)"
proof -
  from assms(2) have "unat (offset + read_size) = unat offset + unat read_size"
    by (simp add: unat_add_lem [THEN iffD1])
  with assms(1) have "offset + read_size >
      g_gameCardStorageNormalAreaSize s + g_gameCardStorageSecureAreaSize s"
    by (simp add: word_less_nat_alt)
  then have "read_refused s out read_size offset" by (simp add: read_refused_def)
  then show ?thesis
    unfolding gamecardRead_def by (subst gamecardReadStorageArea_unfold) simp
qed

section \<open>An unaligned request in the secure area that exceeds the scratch buffer\<close>

text \<open>
  The logical address space of a card: the normal area followed by the secure area.
\<close>

definition card_byte :: "card \<Rightarrow> nat \<Rightarrow> u8" where
  "card_byte c a =
     (if a < unat (normal_size c) then normal_data c a
      else secure_data c (a - unat (normal_size c)))"

text \<open>
  C1 at \<open>offset = 0x1001\<close>, \<open>read_size = 0x800000\<close> on the simulated card: the request is in
  bounds and lies in the secure area, at offset 1 of it. The aligned chunk has 0x800200
  bytes, more than the scratch buffer, so 0x7FFFFF bytes are copied and the rest is left to
  a second call, which is given the offset inside the area (0x800000) where the function
  takes an offset in the whole address space (0x801000). The call returns true, and the
  last byte of the destination is the card's byte at address 0x800000, not the one at
  0x801000.
\<close>

theorem gamecardRead_secure_unaligned_large:
  "unat (0x1001 :: u64) + unat (0x800000 :: u64) \<le>
     unat (normal_size sim_card) + unat (secure_size sim_card) \<and>
   fst (gamecardRead (sim_platform sim_card) sim_ready_state zero_buffer (Some 0) 0x800000 0x1001) \<and>
   fst (snd (gamecardRead (sim_platform sim_card) sim_ready_state zero_buffer (Some 0) 0x800000 0x1001))
     0x7FFFFF = card_byte sim_card 0x800000 \<and>
   card_byte sim_card 0x800000 = 0xFF \<and>
   card_byte sim_card (0x1001 + 0x7FFFFF) = 0"
proof -
  let ?P = "sim_platform sim_card"
  have cb: "card_byte sim_card 0x800000 = 0xFF" "card_byte sim_card (0x1001 + 0x7FFFFF) = 0"
    by (simp_all add: card_byte_def sim_card_simps)
  have ne: "GameCardStorageArea_Secure \<noteq> GameCardStorageArea_Normal"
    by (simp add: GameCardStorageArea_Normal_def GameCardStorageArea_Secure_def)
  have nr: "\<not> read_refused sim_ready_state (Some 0) 0x800000 0x1001"
    by (simp add: read_refused_def sim_ready_state_simps)
  have ns: "\<not> read_spans sim_ready_state 0x800000 0x1001"
    by (simp add: read_spans_def sim_ready_state_simps)
  define s2 where "s2 = sim_ready_state\<lparr>g_gameCardHandle := sim_handle,
              g_gameCardStorage := 2,
              g_gameCardStorageCurrentArea := GameCardStorageArea_Secure,
              calls := FsOpenGameCardStorage sim_handle 1 #
                       FsStorageClose 1 # FsOpenGameCardStorage sim_handle 0 #
                       FsDeviceOperatorGetGameCardHandle # SvcCloseHandle 0 #
                       FsOpenGameCardStorage 0 0 # SvcCloseHandle 0 # []\<rparr>"
  have op: "gamecardOpenStorageArea ?P sim_ready_state GameCardStorageArea_Secure = (True, s2)"
    using sim_gamecardOpenStorageArea_fresh [of sim_ready_state GameCardStorageArea_Secure sim_card]
    by (simp add: sim_ready_state_simps GameCardStorageArea_Secure_def s2_def)
  have s2: "g_gameCardInserted s2" "g_gameCardHandle s2 = sim_handle" "g_gameCardStorage s2 = 2"
    "g_gameCardStorageCurrentArea s2 = GameCardStorageArea_Secure"
    "g_gameCardStorageNormalAreaSize s2 = 0x1000" "g_gameCardStorageSecureAreaSize s2 = 0x2000000"
    "g_gameCardReadBuf s2 = Some zero_buffer"
    by (simp_all add: s2_def sim_ready_state_simps)
  have bs: "block_start 1 = 0" "block_size_of 1 0x800000 = 0x800200"
    "chunk_size_of 1 0x800000 = 0x800000" "out_chunk_size_of 1 0x800000 = 0x7FFFFF"
    by (simp_all add: block_start_def block_size_of_def chunk_size_of_def out_chunk_size_of_def
        GAMECARD_MEDIA_UNIT_SIZE_def GAMECARD_READ_BUFFER_SIZE_def ROUND_UP_def)
  define rb1 where "rb1 = memcpy zero_buffer 0 (\<lambda>i. secure_data sim_card i) 0 8388608"
  define s4 where "s4 = s2\<lparr>calls := FsStorageRead 2 0 0x800000 # calls s2, g_gameCardReadBuf := Some rb1\<rparr>"
  define mem2 where "mem2 = memcpy zero_buffer 0 rb1 (Suc 0) 8388607"
  have step1: "gamecardRead ?P sim_ready_state zero_buffer (Some 0) 0x800000 0x1001 =
      gamecardReadStorageArea ?P s4 mem2 (Some 0x7FFFFF) 1 0x800000 False"
    unfolding gamecardRead_def
    apply (subst gamecardReadStorageArea_unfold)
    apply (simp add: nr ns read_area_def op sim_ready_state_simps s2 GAMECARD_MEDIA_UNIT_SIZE_def ne)
    apply (simp add: read_unaligned_flat bs s2 Let_def g_gameCardReadBuf_log_call
        GAMECARD_READ_BUFFER_SIZE_def sim_fsStorageRead sim_card_simps R_FAILED_def
        s4_def rb1_def mem2_def log_call_def)
    done
  have s4: "g_gameCardInserted s4" "g_gameCardHandle s4 = sim_handle" "g_gameCardStorage s4 = 2"
    "g_gameCardStorageCurrentArea s4 = GameCardStorageArea_Secure"
    "g_gameCardStorageNormalAreaSize s4 = 0x1000" "g_gameCardStorageSecureAreaSize s4 = 0x2000000"
    "g_gameCardReadBuf s4 = Some rb1"
    by (simp_all add: s4_def s2)
  have nr2: "\<not> read_refused s4 (Some 0x7FFFFF) 1 0x800000"
    by (simp add: read_refused_def s4)
  have ns2: "\<not> read_spans s4 1 0x800000"
    by (simp add: read_spans_def s4)
  have op2: "gamecardOpenStorageArea ?P s4 GameCardStorageArea_Secure = (True, s4)"
    by (simp add: gamecardOpenStorageArea_def s4 serviceIsActive_def sim_handle_def)
  have bs2: "block_start 0x7FF000 = 0x7FF000" "block_size_of 0x7FF000 1 = 0x200"
    "chunk_size_of 0x7FF000 1 = 0x200" "out_chunk_size_of 0x7FF000 1 = 1"
    by (simp_all add: block_start_def block_size_of_def chunk_size_of_def out_chunk_size_of_def
        GAMECARD_MEDIA_UNIT_SIZE_def GAMECARD_READ_BUFFER_SIZE_def ROUND_UP_def)
  have step2: "fst (gamecardReadStorageArea ?P s4 mem2 (Some 0x7FFFFF) 1 0x800000 False) \<and>
      fst (snd (gamecardReadStorageArea ?P s4 mem2 (Some 0x7FFFFF) 1 0x800000 False)) 0x7FFFFF =
        secure_data sim_card 0x7FF000"
    apply (subst (1 2) gamecardReadStorageArea_unfold)
    apply (simp add: nr2 ns2 read_area_def op2 s4 GAMECARD_MEDIA_UNIT_SIZE_def ne)
    apply (simp add: read_unaligned_flat bs2 s4 Let_def g_gameCardReadBuf_log_call
        GAMECARD_READ_BUFFER_SIZE_def sim_fsStorageRead sim_card_simps R_FAILED_def memcpy_def)
    done
  have "secure_data sim_card 0x7FF000 = card_byte sim_card 0x800000"
    by (simp add: card_byte_def sim_card_simps)
  with step1 step2 cb show ?thesis by (simp add: sim_card_simps)
qed

theorem gamecardRead_secure_unaligned_large_witness:
  "fst (snd (gamecardRead (sim_platform sim_card) sim_ready_state zero_buffer (Some 0) 0x800000 0x1001))
     0x7FFFFF \<noteq> card_byte sim_card (0x1001 + 0x7FFFFF)"
  using gamecardRead_secure_unaligned_large by simp

section \<open>Cached gamecard information\<close>

subsection \<open>Reading structures from memory\<close>

text \<open>
  The structures of gamecard.h are read from their bytes, little-endian, at the offsets of
  their fields.
\<close>

definition read_le32 :: "buffer \<Rightarrow> nat \<Rightarrow> u32" where
  "read_le32 m a =
     of_nat (unat (m a) + 2 ^ 8 * unat (m (a + 1)) + 2 ^ 16 * unat (m (a + 2)) + 2 ^ 24 * unat (m (a + 3)))"

definition read_le64 :: "buffer \<Rightarrow> nat \<Rightarrow> u64" where
  "read_le64 m a =
     of_nat (unat (m a) + 2 ^ 8 * unat (m (a + 1)) + 2 ^ 16 * unat (m (a + 2)) + 2 ^ 24 * unat (m (a + 3)) +
             2 ^ 32 * unat (m (a + 4)) + 2 ^ 40 * unat (m (a + 5)) + 2 ^ 48 * unat (m (a + 6)) +
             2 ^ 56 * unat (m (a + 7)))"

definition bswap32 :: "u32 \<Rightarrow> u32" where
  \<comment> \<open>\<open>__builtin_bswap32\<close>\<close>
  "bswap32 w =
     push_bit 24 (w AND 0xFF) OR push_bit 8 (w AND 0xFF00) OR
     (drop_bit 8 w AND 0xFF00) OR drop_bit 24 w"

definition memset :: "buffer \<Rightarrow> nat \<Rightarrow> u8 \<Rightarrow> nat \<Rightarrow> buffer" where
  "memset dst d v n = (\<lambda>i. if d \<le> i \<and> i < d + n then v else dst i)"

text \<open>\<open>GameCardHeader\<close>: 0x200 bytes.\<close>

definition sizeof_GameCardHeader :: u64 where
  "sizeof_GameCardHeader = 0x200"

definition hdr_magic :: "buffer \<Rightarrow> u32" where
  "hdr_magic h = read_le32 h 0x100"

definition hdr_rom_size :: "buffer \<Rightarrow> u8" where
  "hdr_rom_size h = h 0x10D"

definition hdr_valid_data_end_address :: "buffer \<Rightarrow> u32" where
  "hdr_valid_data_end_address h = read_le32 h 0x118"

definition hdr_partition_fs_header_address :: "buffer \<Rightarrow> u64" where
  "hdr_partition_fs_header_address h = read_le64 h 0x130"

definition hdr_partition_fs_header_size :: "buffer \<Rightarrow> u64" where
  "hdr_partition_fs_header_size h = read_le64 h 0x138"

text \<open>\<open>GameCardHashFileSystemHeader\<close> (0x10 bytes) and \<open>GameCardHashFileSystemEntry\<close> (0x40 bytes).\<close>

definition sizeof_GameCardHashFileSystemHeader :: u64 where
  "sizeof_GameCardHashFileSystemHeader = 0x10"

definition sizeof_GameCardHashFileSystemEntry :: u64 where
  "sizeof_GameCardHashFileSystemEntry = 0x40"

definition hfs_magic :: "buffer \<Rightarrow> u32" where
  "hfs_magic b = read_le32 b 0"

definition hfs_entry_count :: "buffer \<Rightarrow> u32" where
  "hfs_entry_count b = read_le32 b 4"

definition hfs_name_table_size :: "buffer \<Rightarrow> u32" where
  "hfs_name_table_size b = read_le32 b 8"

definition entry_offset :: "buffer \<Rightarrow> nat \<Rightarrow> u64" where
  "entry_offset b e = read_le64 b e"

definition entry_size :: "buffer \<Rightarrow> nat \<Rightarrow> u64" where
  "entry_size b e = read_le64 b (e + 8)"

definition entry_name_offset :: "buffer \<Rightarrow> nat \<Rightarrow> u32" where
  "entry_name_offset b e = read_le32 b (e + 0x10)"

text \<open>The entry pointer is its offset from the start of the header.\<close>

definition gamecardGetHashFileSystemEntryByIndex :: "buffer option \<Rightarrow> u32 \<Rightarrow> nat option" where
  "gamecardGetHashFileSystemEntryByIndex hfs_header idx =
     (case hfs_header of
        None \<Rightarrow> None
      | Some h \<Rightarrow>
          if idx \<ge> hfs_entry_count h then None
          else Some (unat sizeof_GameCardHashFileSystemHeader +
                     unat idx * unat sizeof_GameCardHashFileSystemEntry))"

subsection \<open>\<open>gamecardGetStorageAreasSizes\<close>\<close>

text \<open>One iteration of the loop over the two areas.\<close>

definition gamecardGetStorageAreasSizes_area :: "platform \<Rightarrow> gc_state \<Rightarrow> u8 \<Rightarrow> bool \<times> gc_state" where
  "gamecardGetStorageAreasSizes_area P s area =
     (case gamecardOpenStorageArea P s area of
        (False, s1) \<Rightarrow> (False, s1)
      | (True, s1) \<Rightarrow>
          (case fsStorageGetSize P (calls s1) (g_gameCardStorage s1) of
             (rc, area_size) \<Rightarrow>
               let s2 = log_call (FsStorageGetSize (g_gameCardStorage s1)) s1;
                   s3 = gamecardCloseStorageArea s2
               in
               if R_FAILED rc \<or> area_size = 0
               then (False, s3\<lparr>g_gameCardStorageNormalAreaSize := 0,
                                g_gameCardStorageSecureAreaSize := 0\<rparr>)
               else if area = GameCardStorageArea_Normal
               then (True, s3\<lparr>g_gameCardStorageNormalAreaSize := area_size\<rparr>)
               else (True, s3\<lparr>g_gameCardStorageSecureAreaSize := area_size\<rparr>)))"

definition gamecardGetStorageAreasSizes :: "platform \<Rightarrow> gc_state \<Rightarrow> bool \<times> gc_state" where
  "gamecardGetStorageAreasSizes P s =
     (if \<not> g_gameCardInserted s then (False, s)
      else
        case gamecardGetStorageAreasSizes_area P s GameCardStorageArea_Normal of
          (False, s1) \<Rightarrow> (False, s1)
        | (True, s1) \<Rightarrow> gamecardGetStorageAreasSizes_area P s1 GameCardStorageArea_Secure)"

subsection \<open>\<open>gamecardFreeInfo\<close>\<close>

text \<open>
  The loop that frees the partition headers visits the indices below the root header's
  entry count; the array of partitions has that many elements when it was allocated by
  \<open>gamecardLoadInfo\<close>, and an index beyond the modelled array frees nothing.
\<close>

definition gamecardFreeInfo_headers ::
  "GameCardHashFileSystemPartitionInfo list \<Rightarrow> nat \<Rightarrow> gc_state \<Rightarrow> gc_state"
where
  "gamecardFreeInfo_headers ps n s =
     fold (\<lambda>i t. if i < length ps \<and> pi_header (ps ! i) \<noteq> None then log_call Free t else t) [0..<n] s"

definition gamecardFreeInfo :: "gc_state \<Rightarrow> gc_state" where
  "gamecardFreeInfo s =
     (let s1 = s\<lparr>g_gameCardHeader := memset (g_gameCardHeader s) 0 0 (unat sizeof_GameCardHeader),
                  g_gameCardStorageNormalAreaSize := 0,
                  g_gameCardStorageSecureAreaSize := 0,
                  g_gameCardCapacity := 0\<rparr>;
          s2 = (case g_gameCardHfsRootHeader s1 of
                  None \<Rightarrow> s1
                | Some fs_header \<Rightarrow>
                    let t = (case g_gameCardHfsPartitions s1 of
                               None \<Rightarrow> s1
                             | Some ps \<Rightarrow> gamecardFreeInfo_headers ps (unat (hfs_entry_count fs_header)) s1)
                    in (log_call Free t)\<lparr>g_gameCardHfsRootHeader := None\<rparr>);
          s3 = (case g_gameCardHfsPartitions s2 of
                  None \<Rightarrow> s2
                | Some ps \<Rightarrow> (log_call Free s2)\<lparr>g_gameCardHfsPartitions := None\<rparr>);
          s4 = gamecardCloseStorageArea s3
      in s4\<lparr>g_gameCardInfoLoaded := False\<rparr>)"

subsection \<open>\<open>gamecardLoadInfo\<close>\<close>

text \<open>
  Where \<open>gamecardLoadInfo\<close> leaves for its label \<open>out\<close>, named after the message it logs
  there; \<open>Load_Ok\<close> when it reaches the end.
\<close>

datatype load_result =
    Load_Ok
  | Failed_storage_area_sizes
  | Failed_read_header
  | Invalid_header_magic
  | Invalid_capacity
  | Failed_alloc_root_header
  | Failed_read_root_header
  | Invalid_root_magic
  | Invalid_root_counts
  | Failed_alloc_partitions
  | Invalid_partition_entry nat
  | Failed_read_partition_header nat
  | Invalid_partition_magic nat
  | Invalid_partition_name_table_size nat
  | Failed_alloc_partition_header nat
  | Failed_read_full_partition_header nat

definition set_partition ::
  "nat \<Rightarrow> (GameCardHashFileSystemPartitionInfo \<Rightarrow> GameCardHashFileSystemPartitionInfo) \<Rightarrow> gc_state \<Rightarrow> gc_state"
where
  \<comment> \<open>an assignment to a field of \<open>g_gameCardHfsPartitions[i]\<close>\<close>
  "set_partition i f s =
     s\<lparr>g_gameCardHfsPartitions := map_option (\<lambda>ps. ps[i := f (ps ! i)]) (g_gameCardHfsPartitions s)\<rparr>"

definition zero_partition :: GameCardHashFileSystemPartitionInfo where
  "zero_partition = \<lparr>pi_offset = 0, pi_size = 0, pi_header_size = 0, pi_header = None\<rparr>"

text \<open>
  One iteration of the loop over the partitions of the root header, for index \<open>i\<close>.
  \<open>fs_header\<close> is the root header, which the loop does not write. The result is \<open>Load_Ok\<close>
  when the iteration reaches its end, and the failure otherwise.
\<close>

definition gamecardLoadInfo_partition ::
  "platform \<Rightarrow> buffer \<Rightarrow> nat \<Rightarrow> gc_state \<Rightarrow> load_result \<times> gc_state"
where
  "gamecardLoadInfo_partition P fs_header i s =
     (case gamecardGetHashFileSystemEntryByIndex (Some fs_header) (of_nat i) of
        None \<Rightarrow> (Invalid_partition_entry i, s)
      | Some fs_entry \<Rightarrow>
          if entry_size fs_header fs_entry = 0 then (Invalid_partition_entry i, s)
          else
            let part_offset = hdr_partition_fs_header_address (g_gameCardHeader s) +
                              hdr_partition_fs_header_size (g_gameCardHeader s) +
                              entry_offset fs_header fs_entry;
                s1 = set_partition i (\<lambda>p. p\<lparr>pi_offset := part_offset,
                                                pi_size := entry_size fs_header fs_entry\<rparr>) s
            in
            (case gamecardReadStorageArea P s1 zero_buffer (Some 0)
                    sizeof_GameCardHashFileSystemHeader part_offset False of
               (ok, partition_header, s2) \<Rightarrow>
                 if \<not> ok then (Failed_read_partition_header i, s2)
                 else if bswap32 (hfs_magic partition_header) \<noteq> GAMECARD_HFS0_MAGIC
                 then (Invalid_partition_magic i, s2)
                 else if hfs_name_table_size partition_header = 0
                 then (Invalid_partition_name_table_size i, s2)
                 else
                   let header_size = ROUND_UP
                         (sizeof_GameCardHashFileSystemHeader +
                          ucast (hfs_entry_count partition_header) * sizeof_GameCardHashFileSystemEntry +
                          ucast (hfs_name_table_size partition_header))
                         GAMECARD_MEDIA_UNIT_SIZE;
                       s3 = set_partition i (\<lambda>p. p\<lparr>pi_header_size := header_size\<rparr>) s2;
                       allocated = calloc P (calls s3) header_size 1;
                       s4 = log_call (Calloc header_size 1) s3
                   in
                   if \<not> allocated then (Failed_alloc_partition_header i, s4)
                   else
                     let s5 = set_partition i (\<lambda>p. p\<lparr>pi_header := Some zero_buffer\<rparr>) s4 in
                     (case gamecardReadStorageArea P s5 zero_buffer (Some 0) header_size part_offset False of
                        (ok, header, s6) \<Rightarrow>
                          let s7 = set_partition i (\<lambda>p. p\<lparr>pi_header := Some header\<rparr>) s6 in
                          if \<not> ok then (Failed_read_full_partition_header i, s7)
                          else (Load_Ok, s7))))"

text \<open>The loop, from index \<open>i\<close> on, and the assignment that follows it.\<close>

function gamecardLoadInfo_partitions ::
  "platform \<Rightarrow> buffer \<Rightarrow> nat \<Rightarrow> gc_state \<Rightarrow> load_result \<times> gc_state"
where
  "gamecardLoadInfo_partitions P fs_header i s =
     (if i < unat (hfs_entry_count fs_header) then
        (case gamecardLoadInfo_partition P fs_header i s of
           (r, s1) \<Rightarrow>
             if r = Load_Ok then gamecardLoadInfo_partitions P fs_header (i + 1) s1
             else (r, s1))
      else (Load_Ok, s\<lparr>g_gameCardInfoLoaded := True\<rparr>))"
  by pat_completeness auto
termination
  by (relation "measure (\<lambda>(P, fs_header, i, s). unat (hfs_entry_count fs_header) - i)") auto

declare gamecardLoadInfo_partitions.simps [simp del]

text \<open>
  The body of \<open>gamecardLoadInfo\<close> up to the label \<open>out\<close>. The firmware type that stands for
  SX OS (\<open>UtilsCustomFirmwareType_SXOS\<close>, declared in utils.h) is a parameter.
\<close>

definition gamecardLoadInfo_steps :: "u8 \<Rightarrow> platform \<Rightarrow> gc_state \<Rightarrow> load_result \<times> gc_state" where
  "gamecardLoadInfo_steps UtilsCustomFirmwareType_SXOS P s =
     (case gamecardGetStorageAreasSizes P s of
        (False, s1) \<Rightarrow> (Failed_storage_area_sizes, s1)
      | (True, s1) \<Rightarrow>
          (case gamecardReadStorageArea P s1 (g_gameCardHeader s1) (Some 0) sizeof_GameCardHeader 0 False of
             (ok, header, s2') \<Rightarrow>
               let s2 = s2'\<lparr>g_gameCardHeader := header\<rparr> in
               if \<not> ok then (Failed_read_header, s2)
               else if bswap32 (hdr_magic (g_gameCardHeader s2)) \<noteq> GAMECARD_HEAD_MAGIC
               then (Invalid_header_magic, s2)
               else
                 let s3 = s2\<lparr>g_gameCardCapacity :=
                              gamecardGetCapacityFromRomSizeValue (hdr_rom_size (g_gameCardHeader s2))\<rparr>
                 in
                 if g_gameCardCapacity s3 = 0 then (Invalid_capacity, s3)
                 else
                   let fw = utilsGetCustomFirmwareType P (calls s3);
                       s4 = log_call UtilsGetCustomFirmwareType s3;
                       s5 = (if fw = UtilsCustomFirmwareType_SXOS
                             then s4\<lparr>g_gameCardStorageSecureAreaSize :=
                                       (g_gameCardCapacity s4 -
                                        (g_gameCardCapacity s4 div GAMECARD_ECC_BLOCK_SIZE) * GAMECARD_ECC_DATA_SIZE) -
                                       g_gameCardStorageNormalAreaSize s4\<rparr>
                             else s4);
                       root_size = hdr_partition_fs_header_size (g_gameCardHeader s5);
                       allocated = calloc P (calls s5) root_size 1;
                       s6 = log_call (Calloc root_size 1) s5
                   in
                   if \<not> allocated then (Failed_alloc_root_header, s6)
                   else
                     let s7 = s6\<lparr>g_gameCardHfsRootHeader := Some zero_buffer\<rparr> in
                     (case gamecardReadStorageArea P s7 zero_buffer (Some 0) root_size
                             (hdr_partition_fs_header_address (g_gameCardHeader s7)) False of
                        (ok, root, s8') \<Rightarrow>
                          let s8 = s8'\<lparr>g_gameCardHfsRootHeader := Some root\<rparr> in
                          if \<not> ok then (Failed_read_root_header, s8)
                          else if bswap32 (hfs_magic root) \<noteq> GAMECARD_HFS0_MAGIC
                          then (Invalid_root_magic, s8)
                          else if hfs_entry_count root = 0 \<or> hfs_name_table_size root = 0 \<or>
                                  sizeof_GameCardHashFileSystemHeader +
                                  ucast (hfs_entry_count root) * sizeof_GameCardHashFileSystemEntry +
                                  ucast (hfs_name_table_size root) >
                                  hdr_partition_fs_header_size (g_gameCardHeader s8)
                          then (Invalid_root_counts, s8)
                          else
                            let allocated = calloc P (calls s8) (ucast (hfs_entry_count root))
                                              sizeof_GameCardHashFileSystemEntry;
                                s9 = log_call (Calloc (ucast (hfs_entry_count root))
                                                 sizeof_GameCardHashFileSystemEntry) s8
                            in
                            if \<not> allocated then (Failed_alloc_partitions, s9)
                            else
                              gamecardLoadInfo_partitions P root 0
                                (s9\<lparr>g_gameCardHfsPartitions :=
                                      Some (replicate (unat (hfs_entry_count root)) zero_partition)\<rparr>))))"

definition gamecardLoadInfo :: "u8 \<Rightarrow> platform \<Rightarrow> gc_state \<Rightarrow> gc_state" where
  "gamecardLoadInfo UtilsCustomFirmwareType_SXOS P s =
     (if g_gameCardInfoLoaded s then s
      else
        case gamecardLoadInfo_steps UtilsCustomFirmwareType_SXOS P s of
          (r, s1) \<Rightarrow> if \<not> g_gameCardInfoLoaded s1 then gamecardFreeInfo s1 else s1)"

subsection \<open>The detection thread\<close>

definition gamecardIsInserted :: "platform \<Rightarrow> gc_state \<Rightarrow> bool \<times> gc_state" where
  "gamecardIsInserted P s =
     (case fsDeviceOperatorIsGameCardInserted P (calls s) of
        (rc, inserted) \<Rightarrow>
          (R_SUCCEEDED rc \<and> inserted, log_call FsDeviceOperatorIsGameCardInserted s))"

definition GAMECARD_ACCESS_WAIT_TIME :: nat where
  "GAMECARD_ACCESS_WAIT_TIME = 3"

text \<open>
  \<open>gamecardDetectionThreadFunc\<close> in three parts: what it does before its loop, one
  iteration of the loop for a status-change event, and what it does after the loop. Each
  returns \<open>prev_status\<close> with the state. The locks it takes have no effect here.
\<close>

definition gamecardDetectionThreadFunc_init :: "u8 \<Rightarrow> platform \<Rightarrow> gc_state \<Rightarrow> bool \<times> gc_state" where
  "gamecardDetectionThreadFunc_init sxos P s =
     (case gamecardIsInserted P s of
        (inserted, s1) \<Rightarrow>
          let s2 = s1\<lparr>g_gameCardInserted := inserted\<rparr> in
          (inserted, if g_gameCardInserted s2 then gamecardLoadInfo sxos P s2 else s2))"

definition gamecardDetectionThreadFunc_iteration ::
  "u8 \<Rightarrow> platform \<Rightarrow> bool \<Rightarrow> gc_state \<Rightarrow> bool \<times> gc_state"
where
  "gamecardDetectionThreadFunc_iteration sxos P prev_status s =
     (case gamecardIsInserted P s of
        (inserted, s1) \<Rightarrow>
          let s2 = s1\<lparr>g_gameCardInserted := inserted\<rparr>;
              s3 = (if \<not> prev_status \<and> g_gameCardInserted s2
                    then gamecardLoadInfo sxos P (log_call (UtilsSleep GAMECARD_ACCESS_WAIT_TIME) s2)
                    else gamecardFreeInfo s2)
          in (g_gameCardInserted s3, s3))"

definition gamecardDetectionThreadFunc_exit :: "gc_state \<Rightarrow> gc_state" where
  "gamecardDetectionThreadFunc_exit s = (gamecardFreeInfo s)\<lparr>g_gameCardInserted := False\<rparr>"

text \<open>What \<open>waitMulti\<close> returns to the loop: a failure, the card event or the exit event.\<close>

datatype wait_result = Wait_failed | Card_event | Exit_event

text \<open>
  The loop over the results of \<open>waitMulti\<close>; the third component tells whether the exit
  event was met (otherwise the thread is still waiting).
\<close>

fun gamecardDetectionThreadFunc_loop ::
  "u8 \<Rightarrow> platform \<Rightarrow> wait_result list \<Rightarrow> bool \<Rightarrow> gc_state \<Rightarrow> bool \<times> gc_state \<times> bool"
where
  "gamecardDetectionThreadFunc_loop sxos P [] prev_status s = (prev_status, s, False)"
| "gamecardDetectionThreadFunc_loop sxos P (Wait_failed # ws) prev_status s =
     gamecardDetectionThreadFunc_loop sxos P ws prev_status s"
| "gamecardDetectionThreadFunc_loop sxos P (Exit_event # ws) prev_status s = (prev_status, s, True)"
| "gamecardDetectionThreadFunc_loop sxos P (Card_event # ws) prev_status s =
     (case gamecardDetectionThreadFunc_iteration sxos P prev_status s of
        (prev_status', s') \<Rightarrow> gamecardDetectionThreadFunc_loop sxos P ws prev_status' s')"

definition gamecardDetectionThreadFunc :: "u8 \<Rightarrow> platform \<Rightarrow> wait_result list \<Rightarrow> gc_state \<Rightarrow> gc_state" where
  "gamecardDetectionThreadFunc sxos P ws s =
     (case gamecardDetectionThreadFunc_init sxos P s of
        (prev_status, s1) \<Rightarrow>
          (case gamecardDetectionThreadFunc_loop sxos P ws prev_status s1 of
             (prev_status', s2, exited) \<Rightarrow>
               if exited then gamecardDetectionThreadFunc_exit s2 else s2))"

subsection \<open>The accessors\<close>

text \<open>
  An output parameter is the value its pointer refers to, \<open>None\<close> for a NULL pointer; an
  accessor returns its result, the value then referred to, and for those that call the
  platform the state.
\<close>

definition gamecardIsReady :: "gc_state \<Rightarrow> bool" where
  "gamecardIsReady s = (g_gameCardInserted s \<and> g_gameCardInfoLoaded s)"

definition gamecardGetHeader :: "gc_state \<Rightarrow> buffer option \<Rightarrow> bool \<times> buffer option" where
  "gamecardGetHeader s out =
     (if g_gameCardInserted s \<and> g_gameCardInfoLoaded s \<and> out \<noteq> None
      then (True, Some (memcpy (the out) 0 (g_gameCardHeader s) 0 (unat sizeof_GameCardHeader)))
      else (False, out))"

definition gamecardGetTotalSize :: "gc_state \<Rightarrow> u64 option \<Rightarrow> bool \<times> u64 option" where
  "gamecardGetTotalSize s out =
     (if g_gameCardInserted s \<and> g_gameCardInfoLoaded s \<and> out \<noteq> None
      then (True, Some (g_gameCardStorageNormalAreaSize s + g_gameCardStorageSecureAreaSize s))
      else (False, out))"

definition gamecardGetTrimmedSize :: "gc_state \<Rightarrow> u64 option \<Rightarrow> bool \<times> u64 option" where
  "gamecardGetTrimmedSize s out =
     (if g_gameCardInserted s \<and> g_gameCardInfoLoaded s \<and> out \<noteq> None
      then (True, Some (sizeof_GameCardHeader +
                        ucast (hdr_valid_data_end_address (g_gameCardHeader s)) * GAMECARD_MEDIA_UNIT_SIZE))
      else (False, out))"

definition gamecardGetRomCapacity :: "gc_state \<Rightarrow> u64 option \<Rightarrow> bool \<times> u64 option" where
  "gamecardGetRomCapacity s out =
     (if g_gameCardInserted s \<and> g_gameCardInfoLoaded s \<and> out \<noteq> None
      then (True, Some (g_gameCardCapacity s))
      else (False, out))"

definition gamecardGetCertificate ::
  "platform \<Rightarrow> gc_state \<Rightarrow> buffer option \<Rightarrow> bool \<times> buffer option \<times> gc_state"
where
  "gamecardGetCertificate P s out =
     (if g_gameCardInserted s \<and> g_gameCardHandle s \<noteq> 0 \<and> out \<noteq> None
      then
        (case fsDeviceOperatorGetGameCardDeviceCertificate P (calls s) (g_gameCardHandle s) of
           (rc, cert) \<Rightarrow>
             (R_SUCCEEDED rc, if R_SUCCEEDED rc then Some cert else out,
              log_call (FsDeviceOperatorGetGameCardDeviceCertificate (g_gameCardHandle s)) s))
      else (False, out, s))"

definition gamecardGetBundledFirmwareUpdateVersion ::
  "platform \<Rightarrow> gc_state \<Rightarrow> u32 option \<Rightarrow> bool \<times> u32 option \<times> gc_state"
where
  "gamecardGetBundledFirmwareUpdateVersion P s out =
     (if g_gameCardInserted s \<and> g_gameCardHandle s \<noteq> 0 \<and> out \<noteq> None
      then
        (case fsDeviceOperatorUpdatePartitionInfo P (calls s) (g_gameCardHandle s) of
           (rc, update_version, update_id) \<Rightarrow>
             let ret = (R_SUCCEEDED rc \<and> update_id = GAMECARD_UPDATE_TID) in
             (ret, if ret then Some update_version else out,
              log_call (FsDeviceOperatorUpdatePartitionInfo (g_gameCardHandle s)) s))
      else (False, out, s))"

section \<open>What loading and freeing leave behind\<close>

text \<open>The state \<open>gamecardFreeInfo\<close> leaves: nothing cached, nothing open.\<close>

definition info_freed :: "gc_state \<Rightarrow> bool" where
  "info_freed s =
     (\<not> g_gameCardInfoLoaded s \<and>
      list_all (\<lambda>i. g_gameCardHeader s i = 0) [0..<unat sizeof_GameCardHeader] \<and>
      g_gameCardStorageNormalAreaSize s = 0 \<and>
      g_gameCardStorageSecureAreaSize s = 0 \<and>
      g_gameCardCapacity s = 0 \<and>
      g_gameCardHfsRootHeader s = None \<and>
      g_gameCardHfsPartitions s = None \<and>
      g_gameCardHandle s = 0 \<and>
      g_gameCardStorage s = 0 \<and>
      g_gameCardStorageCurrentArea s = GameCardStorageArea_None)"

lemma calls_fold_free [simp]:
  "g_gameCardInfoLoaded (gamecardFreeInfo_headers ps n s) = g_gameCardInfoLoaded s"
  "g_gameCardHeader (gamecardFreeInfo_headers ps n s) = g_gameCardHeader s"
  "g_gameCardStorageNormalAreaSize (gamecardFreeInfo_headers ps n s) = g_gameCardStorageNormalAreaSize s"
  "g_gameCardStorageSecureAreaSize (gamecardFreeInfo_headers ps n s) = g_gameCardStorageSecureAreaSize s"
  "g_gameCardCapacity (gamecardFreeInfo_headers ps n s) = g_gameCardCapacity s"
  "g_gameCardHfsRootHeader (gamecardFreeInfo_headers ps n s) = g_gameCardHfsRootHeader s"
  "g_gameCardHfsPartitions (gamecardFreeInfo_headers ps n s) = g_gameCardHfsPartitions s"
  "g_gameCardInserted (gamecardFreeInfo_headers ps n s) = g_gameCardInserted s"
  "g_gameCardStorage (gamecardFreeInfo_headers ps n s) = g_gameCardStorage s"
  "g_gameCardHandle (gamecardFreeInfo_headers ps n s) = g_gameCardHandle s"
  unfolding gamecardFreeInfo_headers_def
  by (induction n; simp add: log_call_def)+

lemma gamecardCloseStorageArea_fields:
  "g_gameCardHandle (gamecardCloseStorageArea s) = 0"
  "g_gameCardStorage (gamecardCloseStorageArea s) = 0"
  "g_gameCardStorageCurrentArea (gamecardCloseStorageArea s) = GameCardStorageArea_None"
  by (simp_all add: gamecardCloseStorageArea_def Let_def gamecardCloseHandle_def log_call_def
      serviceIsActive_def)

lemma io_frame_fields:
  assumes "io_frame s s'"
  shows "g_gameCardInfoLoaded s' = g_gameCardInfoLoaded s"
    "g_gameCardInserted s' = g_gameCardInserted s"
    "g_gameCardHeader s' = g_gameCardHeader s"
    "g_gameCardStorageNormalAreaSize s' = g_gameCardStorageNormalAreaSize s"
    "g_gameCardStorageSecureAreaSize s' = g_gameCardStorageSecureAreaSize s"
    "g_gameCardCapacity s' = g_gameCardCapacity s"
    "g_gameCardHfsRootHeader s' = g_gameCardHfsRootHeader s"
    "g_gameCardHfsPartitions s' = g_gameCardHfsPartitions s"
  using assms by (simp_all add: io_frame_def)

lemma gamecardFreeInfo_freed: "info_freed (gamecardFreeInfo s)"
proof -
  have z: "list_all (\<lambda>i. memset h 0 0 (unat sizeof_GameCardHeader) i = 0) [0..<unat sizeof_GameCardHeader]" for h
    by (simp add: list_all_iff memset_def)
  show ?thesis
    unfolding info_freed_def gamecardFreeInfo_def Let_def
    using z
    by (simp add: gamecardCloseStorageArea_fields
        io_frame_fields [OF io_frame_gamecardCloseStorageArea] log_call_def
        split: option.splits)
qed

lemma gamecardFreeInfo_inserted: "g_gameCardInserted (gamecardFreeInfo s) = g_gameCardInserted s"
  unfolding gamecardFreeInfo_def Let_def
  by (simp add: io_frame_fields [OF io_frame_gamecardCloseStorageArea] log_call_def split: option.splits)

text \<open>
  \<open>cache_frame s s'\<close>: the flags, the header, the area sizes, the capacity and the root
  header are the same in \<open>s'\<close> as in \<open>s\<close>.
\<close>

definition cache_frame :: "gc_state \<Rightarrow> gc_state \<Rightarrow> bool" where
  "cache_frame s s' =
     (g_gamecardInterfaceInit s' = g_gamecardInterfaceInit s \<and>
      g_gameCardInserted s' = g_gameCardInserted s \<and>
      g_gameCardInfoLoaded s' = g_gameCardInfoLoaded s \<and>
      g_gameCardHeader s' = g_gameCardHeader s \<and>
      g_gameCardStorageNormalAreaSize s' = g_gameCardStorageNormalAreaSize s \<and>
      g_gameCardStorageSecureAreaSize s' = g_gameCardStorageSecureAreaSize s \<and>
      g_gameCardCapacity s' = g_gameCardCapacity s \<and>
      g_gameCardHfsRootHeader s' = g_gameCardHfsRootHeader s)"

lemma cache_frame_refl: "cache_frame s s"
  by (simp add: cache_frame_def)

lemma cache_frame_trans: "cache_frame s t \<Longrightarrow> cache_frame t u \<Longrightarrow> cache_frame s u"
  by (simp add: cache_frame_def)

lemma io_frame_cache_frame: "io_frame s s' \<Longrightarrow> cache_frame s s'"
  by (simp add: io_frame_def cache_frame_def)

lemma cache_frame_set_partition: "cache_frame s (set_partition i f s)"
  by (simp add: cache_frame_def set_partition_def)

lemma cache_frame_log_call: "cache_frame s (log_call c s)"
  by (simp add: cache_frame_def log_call_def)

lemma cache_frame_read:
  "gamecardReadStorageArea P s mem out n off l = (ok, m, s') \<Longrightarrow> cache_frame s s'"
  using io_frame_gamecardReadStorageArea [of s P mem out n off l]
  by (simp add: io_frame_cache_frame)

lemma cache_frame_gamecardLoadInfo_partition:
  "cache_frame s (snd (gamecardLoadInfo_partition P fs_header i s))"
proof (cases "gamecardGetHashFileSystemEntryByIndex (Some fs_header) (of_nat i)")
  case None
  then show ?thesis by (simp add: gamecardLoadInfo_partition_def cache_frame_refl)
next
  case (Some fs_entry)
  show ?thesis
  proof (cases "entry_size fs_header fs_entry = 0")
    case True
    with Some show ?thesis by (simp add: gamecardLoadInfo_partition_def cache_frame_refl)
  next
    case False
    define part_offset where "part_offset = hdr_partition_fs_header_address (g_gameCardHeader s) +
                              hdr_partition_fs_header_size (g_gameCardHeader s) +
                              entry_offset fs_header fs_entry"
    define s1 where "s1 = set_partition i (\<lambda>p. p\<lparr>pi_offset := part_offset,
                                                pi_size := entry_size fs_header fs_entry\<rparr>) s"
    obtain ok ph s2 where r1: "gamecardReadStorageArea P s1 zero_buffer (Some 0)
                    sizeof_GameCardHashFileSystemHeader part_offset False = (ok, ph, s2)"
      by (cases "gamecardReadStorageArea P s1 zero_buffer (Some 0)
                    sizeof_GameCardHashFileSystemHeader part_offset False") auto
    have f1: "cache_frame s s1" unfolding s1_def by (rule cache_frame_set_partition)
    have f2: "cache_frame s s2" using f1 cache_frame_read [OF r1] by (rule cache_frame_trans)
    define header_size where "header_size = ROUND_UP
                         (sizeof_GameCardHashFileSystemHeader +
                          ucast (hfs_entry_count ph) * sizeof_GameCardHashFileSystemEntry +
                          ucast (hfs_name_table_size ph))
                         GAMECARD_MEDIA_UNIT_SIZE"
    define s4 where "s4 = log_call (Calloc header_size 1) (set_partition i (\<lambda>p. p\<lparr>pi_header_size := header_size\<rparr>) s2)"
    have f4: "cache_frame s s4"
      unfolding s4_def
      by (blast intro: cache_frame_trans f2 cache_frame_set_partition cache_frame_log_call)
    define s5 where "s5 = set_partition i (\<lambda>p. p\<lparr>pi_header := Some zero_buffer\<rparr>) s4"
    obtain ok2 hd2 s6 where r2: "gamecardReadStorageArea P s5 zero_buffer (Some 0) header_size part_offset False = (ok2, hd2, s6)"
      by (cases "gamecardReadStorageArea P s5 zero_buffer (Some 0) header_size part_offset False") auto
    have f6: "cache_frame s s6"
      using cache_frame_read [OF r2] f4 unfolding s5_def
      by (blast intro: cache_frame_trans cache_frame_set_partition)
    have f7: "cache_frame s (set_partition i f s6)" for f
      using f6 by (blast intro: cache_frame_trans cache_frame_set_partition)
    have c3: "calls (set_partition i f t) = calls t" for f t by (simp add: set_partition_def)
    from Some False r1 r2 show ?thesis
      unfolding gamecardLoadInfo_partition_def
      apply (simp add: Let_def part_offset_def [symmetric] s1_def [symmetric])
      apply (simp add: header_size_def [symmetric] c3 f2)
      apply (simp add: f2 f4 f7 s4_def [symmetric] s5_def [symmetric])
      done
  qed
qed

lemma gamecardLoadInfo_partitions_result:
  "\<exists>t. cache_frame s t \<and>
       snd (gamecardLoadInfo_partitions P fs_header i s) =
         (if fst (gamecardLoadInfo_partitions P fs_header i s) = Load_Ok
          then t\<lparr>g_gameCardInfoLoaded := True\<rparr> else t)"
proof (induction P fs_header i s rule: gamecardLoadInfo_partitions.induct)
  case (1 P fs_header i s)
  show ?case
  proof (cases "i < unat (hfs_entry_count fs_header)")
    case False
    then show ?thesis
      by (subst (1 2) gamecardLoadInfo_partitions.simps) (auto intro: cache_frame_refl)
  next
    case True
    obtain r s1 where p: "gamecardLoadInfo_partition P fs_header i s = (r, s1)"
      by (cases "gamecardLoadInfo_partition P fs_header i s")
    from cache_frame_gamecardLoadInfo_partition [of s P fs_header i] p
    have f: "cache_frame s s1" by simp
    show ?thesis
    proof (cases "r = Load_Ok")
      case False
      with True p f show ?thesis
        by (subst (1 2) gamecardLoadInfo_partitions.simps) auto
    next
      case ok: True
      from 1 [OF True p [symmetric] ok]
      obtain t where t: "cache_frame s1 t"
        "snd (gamecardLoadInfo_partitions P fs_header (i + 1) s1) =
         (if fst (gamecardLoadInfo_partitions P fs_header (i + 1) s1) = Load_Ok
          then t\<lparr>g_gameCardInfoLoaded := True\<rparr> else t)" by blast
      have e: "gamecardLoadInfo_partitions P fs_header i s = gamecardLoadInfo_partitions P fs_header (i + 1) s1"
        using True p ok by (subst gamecardLoadInfo_partitions.simps) simp
      from f t(1) have "cache_frame s t" by (rule cache_frame_trans)
      with t(2) show ?thesis unfolding e by blast
    qed
  qed
qed


lemma gamecardLoadInfo_partitions_dest:
  assumes "gamecardLoadInfo_partitions P fs_header i s = (r, s')"
  shows "\<exists>t. cache_frame s t \<and> s' = (if r = Load_Ok then t\<lparr>g_gameCardInfoLoaded := True\<rparr> else t)"
  using gamecardLoadInfo_partitions_result [of s P fs_header i] assms by simp

lemma gamecardReadStorageArea_dest:
  "gamecardReadStorageArea P s mem out n off l = (ok, m, s') \<Longrightarrow> io_frame s s'"
  using io_frame_gamecardReadStorageArea [of s P mem out n off l] by simp

definition flags_frame :: "gc_state \<Rightarrow> gc_state \<Rightarrow> bool" where
  "flags_frame s s' =
     (g_gamecardInterfaceInit s' = g_gamecardInterfaceInit s \<and>
      g_gameCardInserted s' = g_gameCardInserted s \<and>
      g_gameCardInfoLoaded s' = g_gameCardInfoLoaded s \<and>
      g_gameCardHfsRootHeader s' = g_gameCardHfsRootHeader s \<and>
      g_gameCardHfsPartitions s' = g_gameCardHfsPartitions s)"

lemma flags_frame_gamecardGetStorageAreasSizes_area:
  "flags_frame s (snd (gamecardGetStorageAreasSizes_area P s area))"
proof -
  obtain ok s1 where o: "gamecardOpenStorageArea P s area = (ok, s1)"
    by (cases "gamecardOpenStorageArea P s area")
  from io_frame_gamecardOpenStorageArea [of s P area] o have f1: "io_frame s s1" by simp
  have f3: "io_frame s (gamecardCloseStorageArea (log_call c s1))" for c
    by (blast intro: io_frame_trans f1 io_frame_log_call io_frame_gamecardCloseStorageArea)
  show ?thesis
    using o f1 f3 [of "FsStorageGetSize (g_gameCardStorage s1)"]
    by (auto simp: gamecardGetStorageAreasSizes_area_def Let_def flags_frame_def io_frame_def
        split: prod.splits bool.splits)
qed

lemma flags_frame_gamecardGetStorageAreasSizes:
  "flags_frame s (snd (gamecardGetStorageAreasSizes P s))"
proof -
  obtain ok s1 where a: "gamecardGetStorageAreasSizes_area P s GameCardStorageArea_Normal = (ok, s1)"
    by (cases "gamecardGetStorageAreasSizes_area P s GameCardStorageArea_Normal")
  from flags_frame_gamecardGetStorageAreasSizes_area [of s P GameCardStorageArea_Normal] a
  have f1: "flags_frame s s1" by simp
  from flags_frame_gamecardGetStorageAreasSizes_area [of s1 P GameCardStorageArea_Secure] f1
  have f2: "flags_frame s (snd (gamecardGetStorageAreasSizes_area P s1 GameCardStorageArea_Secure))"
    by (simp add: flags_frame_def)
  show ?thesis
    using a f1 f2
    by (auto simp: gamecardGetStorageAreasSizes_def flags_frame_def split: prod.splits bool.splits)
qed

lemma gamecardGetStorageAreasSizes_dest:
  "gamecardGetStorageAreasSizes P s = (ok, s') \<Longrightarrow> flags_frame s s'"
  using flags_frame_gamecardGetStorageAreasSizes [of s P] by simp


definition info_valid :: "gc_state \<Rightarrow> bool" where
  "info_valid s =
     (bswap32 (hdr_magic (g_gameCardHeader s)) = GAMECARD_HEAD_MAGIC \<and>
      g_gameCardCapacity s = gamecardGetCapacityFromRomSizeValue (hdr_rom_size (g_gameCardHeader s)) \<and>
      g_gameCardCapacity s \<noteq> 0 \<and>
      (case g_gameCardHfsRootHeader s of
         None \<Rightarrow> False
       | Some root \<Rightarrow>
           bswap32 (hfs_magic root) = GAMECARD_HFS0_MAGIC \<and>
           hfs_entry_count root \<noteq> 0 \<and> hfs_name_table_size root \<noteq> 0 \<and>
           sizeof_GameCardHashFileSystemHeader +
           ucast (hfs_entry_count root) * sizeof_GameCardHashFileSystemEntry +
           ucast (hfs_name_table_size root) \<le> hdr_partition_fs_header_size (g_gameCardHeader s)))"

definition past_root_checks :: "load_result \<Rightarrow> bool" where
  "past_root_checks r =
     (case r of
        Failed_storage_area_sizes \<Rightarrow> False
      | Failed_read_header \<Rightarrow> False
      | Invalid_header_magic \<Rightarrow> False
      | Invalid_capacity \<Rightarrow> False
      | Failed_alloc_root_header \<Rightarrow> False
      | Failed_read_root_header \<Rightarrow> False
      | Invalid_root_magic \<Rightarrow> False
      | Invalid_root_counts \<Rightarrow> False
      | _ \<Rightarrow> True)"


subsection \<open>The body of \<open>gamecardLoadInfo\<close> in named parts\<close>

definition load_partitions_part :: "platform \<Rightarrow> buffer \<Rightarrow> gc_state \<Rightarrow> load_result \<times> gc_state" where
  "load_partitions_part P root s8 =
     (let allocated = calloc P (calls s8) (ucast (hfs_entry_count root))
                        sizeof_GameCardHashFileSystemEntry;
          s9 = log_call (Calloc (ucast (hfs_entry_count root))
                           sizeof_GameCardHashFileSystemEntry) s8
      in
      if \<not> allocated then (Failed_alloc_partitions, s9)
      else
        gamecardLoadInfo_partitions P root 0
          (s9\<lparr>g_gameCardHfsPartitions :=
                Some (replicate (unat (hfs_entry_count root)) zero_partition)\<rparr>))"

definition load_root_part :: "platform \<Rightarrow> gc_state \<Rightarrow> load_result \<times> gc_state" where
  "load_root_part P s5 =
     (let root_size = hdr_partition_fs_header_size (g_gameCardHeader s5);
          allocated = calloc P (calls s5) root_size 1;
          s6 = log_call (Calloc root_size 1) s5
      in
      if \<not> allocated then (Failed_alloc_root_header, s6)
      else
        let s7 = s6\<lparr>g_gameCardHfsRootHeader := Some zero_buffer\<rparr> in
        (case gamecardReadStorageArea P s7 zero_buffer (Some 0) root_size
                (hdr_partition_fs_header_address (g_gameCardHeader s7)) False of
           (ok, root, s8') \<Rightarrow>
             let s8 = s8'\<lparr>g_gameCardHfsRootHeader := Some root\<rparr> in
             if \<not> ok then (Failed_read_root_header, s8)
             else if bswap32 (hfs_magic root) \<noteq> GAMECARD_HFS0_MAGIC
             then (Invalid_root_magic, s8)
             else if hfs_entry_count root = 0 \<or> hfs_name_table_size root = 0 \<or>
                     sizeof_GameCardHashFileSystemHeader +
                     ucast (hfs_entry_count root) * sizeof_GameCardHashFileSystemEntry +
                     ucast (hfs_name_table_size root) >
                     hdr_partition_fs_header_size (g_gameCardHeader s8)
             then (Invalid_root_counts, s8)
             else load_partitions_part P root s8))"

definition load_capacity_part :: "u8 \<Rightarrow> platform \<Rightarrow> gc_state \<Rightarrow> load_result \<times> gc_state" where
  "load_capacity_part UtilsCustomFirmwareType_SXOS P s2 =
     (let s3 = s2\<lparr>g_gameCardCapacity :=
                  gamecardGetCapacityFromRomSizeValue (hdr_rom_size (g_gameCardHeader s2))\<rparr>
      in
      if g_gameCardCapacity s3 = 0 then (Invalid_capacity, s3)
      else
        let fw = utilsGetCustomFirmwareType P (calls s3);
            s4 = log_call UtilsGetCustomFirmwareType s3;
            s5 = (if fw = UtilsCustomFirmwareType_SXOS
                  then s4\<lparr>g_gameCardStorageSecureAreaSize :=
                            (g_gameCardCapacity s4 -
                             (g_gameCardCapacity s4 div GAMECARD_ECC_BLOCK_SIZE) * GAMECARD_ECC_DATA_SIZE) -
                            g_gameCardStorageNormalAreaSize s4\<rparr>
                  else s4)
        in load_root_part P s5)"

lemma gamecardLoadInfo_steps_parts:
  "gamecardLoadInfo_steps sx P s =
     (case gamecardGetStorageAreasSizes P s of
        (False, s1) \<Rightarrow> (Failed_storage_area_sizes, s1)
      | (True, s1) \<Rightarrow>
          (case gamecardReadStorageArea P s1 (g_gameCardHeader s1) (Some 0) sizeof_GameCardHeader 0 False of
             (ok, header, s2') \<Rightarrow>
               let s2 = s2'\<lparr>g_gameCardHeader := header\<rparr> in
               if \<not> ok then (Failed_read_header, s2)
               else if bswap32 (hdr_magic (g_gameCardHeader s2)) \<noteq> GAMECARD_HEAD_MAGIC
               then (Invalid_header_magic, s2)
               else load_capacity_part sx P s2))"
  unfolding gamecardLoadInfo_steps_def load_capacity_part_def load_root_part_def load_partitions_part_def
  by (rule refl)

text \<open>
  \<open>load_post s res\<close>: the result \<open>res\<close> of a part started in \<open>s\<close> is a state \<open>t\<close> with the
  flags of \<open>s\<close>, marked as loaded exactly when the part reached the end.
\<close>

definition load_post :: "(gc_state \<Rightarrow> bool) \<Rightarrow> gc_state \<Rightarrow> load_result \<times> gc_state \<Rightarrow> bool" where
  "load_post Q s res =
     (\<exists>t. g_gameCardInserted t = g_gameCardInserted s \<and>
          g_gameCardInfoLoaded t = g_gameCardInfoLoaded s \<and>
          g_gamecardInterfaceInit t = g_gamecardInterfaceInit s \<and>
          snd res = (if fst res = Load_Ok then t\<lparr>g_gameCardInfoLoaded := True\<rparr> else t) \<and>
          (if past_root_checks (fst res) then Q t else fst res \<noteq> Load_Ok))"

definition root_valid :: "gc_state \<Rightarrow> bool" where
  "root_valid s =
     (case g_gameCardHfsRootHeader s of
         None \<Rightarrow> False
       | Some root \<Rightarrow>
           bswap32 (hfs_magic root) = GAMECARD_HFS0_MAGIC \<and>
           hfs_entry_count root \<noteq> 0 \<and> hfs_name_table_size root \<noteq> 0 \<and>
           sizeof_GameCardHashFileSystemHeader +
           ucast (hfs_entry_count root) * sizeof_GameCardHashFileSystemEntry +
           ucast (hfs_name_table_size root) \<le> hdr_partition_fs_header_size (g_gameCardHeader s))"

lemma past_root_checks_partitions:
  "gamecardLoadInfo_partitions P fs_header i s = (r, s') \<Longrightarrow> past_root_checks r"
proof (induction P fs_header i s rule: gamecardLoadInfo_partitions.induct)
  case (1 P fs_header i s)
  show ?case
  proof (cases "i < unat (hfs_entry_count fs_header)")
    case False
    with 1(2) show ?thesis
      by (subst (asm) gamecardLoadInfo_partitions.simps) (auto simp: past_root_checks_def)
  next
    case True
    obtain r1 s1 where p: "gamecardLoadInfo_partition P fs_header i s = (r1, s1)"
      by (cases "gamecardLoadInfo_partition P fs_header i s")
    show ?thesis
    proof (cases "r1 = Load_Ok")
      case ok: True
      from 1(2) True p ok have "gamecardLoadInfo_partitions P fs_header (i + 1) s1 = (r, s')"
        by (subst (asm) gamecardLoadInfo_partitions.simps) simp
      with 1(1) [OF True p [symmetric] ok] show ?thesis by simp
    next
      case False
      from 1(2) True p False have "r = r1"
        by (subst (asm) gamecardLoadInfo_partitions.simps) simp
      moreover from p have "past_root_checks r1"
        by (auto simp: gamecardLoadInfo_partition_def Let_def past_root_checks_def
            split: option.splits if_splits prod.splits)
      ultimately show ?thesis by simp
    qed
  qed
qed

lemma load_partitions_part_post:
  "load_post (\<lambda>t. g_gameCardHeader t = g_gameCardHeader s \<and> g_gameCardCapacity t = g_gameCardCapacity s \<and>
               g_gameCardHfsRootHeader t = g_gameCardHfsRootHeader s) s (load_partitions_part P root s)"
proof (cases "calloc P (calls s) (ucast (hfs_entry_count root)) sizeof_GameCardHashFileSystemEntry")
  case False
  then show ?thesis
    by (auto simp: load_partitions_part_def load_post_def Let_def log_call_def past_root_checks_def)
next
  case True
  define s10 where "s10 = (log_call (Calloc (ucast (hfs_entry_count root)) sizeof_GameCardHashFileSystemEntry) s)
     \<lparr>g_gameCardHfsPartitions := Some (replicate (unat (hfs_entry_count root)) zero_partition)\<rparr>"
  obtain r s11 where pl: "gamecardLoadInfo_partitions P root 0 s10 = (r, s11)"
    by (cases "gamecardLoadInfo_partitions P root 0 s10")
  from gamecardLoadInfo_partitions_dest [OF pl] obtain t where
    t: "cache_frame s10 t" "s11 = (if r = Load_Ok then t\<lparr>g_gameCardInfoLoaded := True\<rparr> else t)" by blast
  from t(1) have "cache_frame s t" by (simp add: cache_frame_def s10_def log_call_def)
  moreover have "load_partitions_part P root s = (r, s11)"
    using True pl by (simp add: load_partitions_part_def Let_def s10_def)
  ultimately show ?thesis
    using t(2) past_root_checks_partitions [OF pl]
    by (auto simp: load_post_def cache_frame_def)
qed

lemma load_post_mono:
  assumes "load_post Q s res" "\<And>t. Q t \<Longrightarrow> Q' t"
  shows "load_post Q' s res"
  using assms unfolding load_post_def by (auto split: if_splits)

lemma load_post_failure:
  assumes "g_gameCardInserted t = g_gameCardInserted s"
    "g_gameCardInfoLoaded t = g_gameCardInfoLoaded s"
    "g_gamecardInterfaceInit t = g_gamecardInterfaceInit s"
    "r \<noteq> Load_Ok" "\<not> past_root_checks r"
  shows "load_post Q s (r, t)"
  using assms unfolding load_post_def by auto

lemma load_post_from:
  assumes "load_post Q s' res"
    "g_gameCardInserted s' = g_gameCardInserted s"
    "g_gameCardInfoLoaded s' = g_gameCardInfoLoaded s"
    "g_gamecardInterfaceInit s' = g_gamecardInterfaceInit s"
  shows "load_post Q s res"
  using assms unfolding load_post_def by auto

lemma load_root_part_post:
  "load_post (\<lambda>t. g_gameCardHeader t = g_gameCardHeader s \<and> g_gameCardCapacity t = g_gameCardCapacity s \<and>
               root_valid t) s (load_root_part P s)"
proof -
  define root_size where "root_size = hdr_partition_fs_header_size (g_gameCardHeader s)"
  define s7 where "s7 = (log_call (Calloc root_size 1) s)\<lparr>g_gameCardHfsRootHeader := Some zero_buffer\<rparr>"
  obtain ok root s8' where r2:
    "gamecardReadStorageArea P s7 zero_buffer (Some 0) root_size
       (hdr_partition_fs_header_address (g_gameCardHeader s)) False = (ok, root, s8')"
    by (cases "gamecardReadStorageArea P s7 zero_buffer (Some 0) root_size
       (hdr_partition_fs_header_address (g_gameCardHeader s)) False") auto
  from gamecardReadStorageArea_dest [OF r2] have f8: "io_frame s7 s8'" .
  define s8 where "s8 = s8'\<lparr>g_gameCardHfsRootHeader := Some root\<rparr>"
  have fl: "g_gameCardInserted s8 = g_gameCardInserted s"
    "g_gameCardInfoLoaded s8 = g_gameCardInfoLoaded s"
    "g_gamecardInterfaceInit s8 = g_gamecardInterfaceInit s"
    "g_gameCardHeader s8 = g_gameCardHeader s"
    "g_gameCardCapacity s8 = g_gameCardCapacity s"
    "g_gameCardHfsRootHeader s8 = Some root"
    using f8 by (simp_all add: s8_def s7_def io_frame_def log_call_def)
  show ?thesis
  proof (cases "calloc P (calls s) root_size 1")
    case False
    then show ?thesis
      by (auto simp: load_root_part_def Let_def root_size_def log_call_def past_root_checks_def
          intro!: load_post_failure)
  next
    case al: True
    have e: "load_root_part P s =
      (if \<not> ok then (Failed_read_root_header, s8)
       else if bswap32 (hfs_magic root) \<noteq> GAMECARD_HFS0_MAGIC then (Invalid_root_magic, s8)
       else if hfs_entry_count root = 0 \<or> hfs_name_table_size root = 0 \<or>
               sizeof_GameCardHashFileSystemHeader +
               ucast (hfs_entry_count root) * sizeof_GameCardHashFileSystemEntry +
               ucast (hfs_name_table_size root) > hdr_partition_fs_header_size (g_gameCardHeader s)
       then (Invalid_root_counts, s8)
       else load_partitions_part P root s8)"
    proof -
      have h7: "g_gameCardHeader s7 = g_gameCardHeader s" by (simp add: s7_def log_call_def)
      have h8: "g_gameCardHeader (s8'\<lparr>g_gameCardHfsRootHeader := Some root\<rparr>) = g_gameCardHeader s"
        using fl(4) by (simp add: s8_def)
      show ?thesis
        using al
        apply (simp add: load_root_part_def Let_def root_size_def [symmetric] s7_def [symmetric] h7 split del: if_split)
        apply (simp add: r2 split del: if_split)
        apply (simp only: s8_def [symmetric] fl(4))
        done
    qed
    show ?thesis
    proof (cases "ok \<and> bswap32 (hfs_magic root) = GAMECARD_HFS0_MAGIC \<and>
        \<not> (hfs_entry_count root = 0 \<or> hfs_name_table_size root = 0 \<or>
               sizeof_GameCardHashFileSystemHeader +
               ucast (hfs_entry_count root) * sizeof_GameCardHashFileSystemEntry +
               ucast (hfs_name_table_size root) > hdr_partition_fs_header_size (g_gameCardHeader s))")
      case False
      then show ?thesis unfolding e using fl
        by (auto simp: past_root_checks_def intro!: load_post_failure)
    next
      case True
      then have e': "load_root_part P s = load_partitions_part P root s8" unfolding e by simp
      have "load_post (\<lambda>t. g_gameCardHeader t = g_gameCardHeader s8 \<and>
                           g_gameCardCapacity t = g_gameCardCapacity s8 \<and>
                           g_gameCardHfsRootHeader t = g_gameCardHfsRootHeader s8) s8
              (load_partitions_part P root s8)"
        by (rule load_partitions_part_post)
      then have "load_post (\<lambda>t. g_gameCardHeader t = g_gameCardHeader s \<and>
                 g_gameCardCapacity t = g_gameCardCapacity s \<and> root_valid t) s8
              (load_partitions_part P root s8)"
        by (rule load_post_mono) (use True fl in \<open>auto simp: root_valid_def not_less\<close>)
      then show ?thesis unfolding e' using fl(1-3) by (rule load_post_from)
    qed
  qed
qed

lemma load_capacity_part_post:
  "load_post (\<lambda>t. g_gameCardHeader t = g_gameCardHeader s \<and>
               g_gameCardCapacity t = gamecardGetCapacityFromRomSizeValue (hdr_rom_size (g_gameCardHeader s)) \<and>
               g_gameCardCapacity t \<noteq> 0 \<and> root_valid t) s (load_capacity_part sx P s)"
proof (cases "gamecardGetCapacityFromRomSizeValue (hdr_rom_size (g_gameCardHeader s)) = 0")
  case True
  then show ?thesis
    by (auto simp: load_capacity_part_def Let_def past_root_checks_def intro!: load_post_failure)
next
  case False
  define s3 where "s3 = s\<lparr>g_gameCardCapacity :=
                  gamecardGetCapacityFromRomSizeValue (hdr_rom_size (g_gameCardHeader s))\<rparr>"
  define s4 where "s4 = log_call UtilsGetCustomFirmwareType s3"
  define s5 where "s5 = (if utilsGetCustomFirmwareType P (calls s3) = sx
                  then s4\<lparr>g_gameCardStorageSecureAreaSize :=
                            (g_gameCardCapacity s4 -
                             (g_gameCardCapacity s4 div GAMECARD_ECC_BLOCK_SIZE) * GAMECARD_ECC_DATA_SIZE) -
                            g_gameCardStorageNormalAreaSize s4\<rparr>
                  else s4)"
  have fl: "g_gameCardInserted s5 = g_gameCardInserted s"
    "g_gameCardInfoLoaded s5 = g_gameCardInfoLoaded s"
    "g_gamecardInterfaceInit s5 = g_gamecardInterfaceInit s"
    "g_gameCardHeader s5 = g_gameCardHeader s"
    "g_gameCardCapacity s5 = gamecardGetCapacityFromRomSizeValue (hdr_rom_size (g_gameCardHeader s))"
    by (simp_all add: s5_def s4_def s3_def log_call_def)
  have e: "load_capacity_part sx P s = load_root_part P s5"
    unfolding load_capacity_part_def s5_def s4_def s3_def Let_def using False by simp
  have "load_post (\<lambda>t. g_gameCardHeader t = g_gameCardHeader s5 \<and> g_gameCardCapacity t = g_gameCardCapacity s5 \<and>
               root_valid t) s5 (load_root_part P s5)"
    by (rule load_root_part_post)
  then have "load_post (\<lambda>t. g_gameCardHeader t = g_gameCardHeader s \<and>
               g_gameCardCapacity t = gamecardGetCapacityFromRomSizeValue (hdr_rom_size (g_gameCardHeader s)) \<and>
               g_gameCardCapacity t \<noteq> 0 \<and> root_valid t) s5 (load_root_part P s5)"
    by (rule load_post_mono) (use False fl in auto)
  then show ?thesis unfolding e using fl(1-3) by (rule load_post_from)
qed

lemma gamecardLoadInfo_steps_post:
  "load_post info_valid s (gamecardLoadInfo_steps sx P s)"
proof -
  obtain ok0 s1 where g: "gamecardGetStorageAreasSizes P s = (ok0, s1)"
    by (cases "gamecardGetStorageAreasSizes P s")
  from gamecardGetStorageAreasSizes_dest [OF g] have f1: "flags_frame s s1" .
  obtain ok1 header s2' where r1:
    "gamecardReadStorageArea P s1 (g_gameCardHeader s1) (Some 0) sizeof_GameCardHeader 0 False = (ok1, header, s2')"
    by (cases "gamecardReadStorageArea P s1 (g_gameCardHeader s1) (Some 0) sizeof_GameCardHeader 0 False") auto
  from gamecardReadStorageArea_dest [OF r1] have f2: "io_frame s1 s2'" .
  define s2 where "s2 = s2'\<lparr>g_gameCardHeader := header\<rparr>"
  have fl: "g_gameCardInserted s2 = g_gameCardInserted s"
    "g_gameCardInfoLoaded s2 = g_gameCardInfoLoaded s"
    "g_gamecardInterfaceInit s2 = g_gamecardInterfaceInit s"
    "g_gameCardHeader s2 = header"
    using f1 f2 by (simp_all add: s2_def flags_frame_def io_frame_def)
  have e: "gamecardLoadInfo_steps sx P s =
    (if \<not> ok0 then (Failed_storage_area_sizes, s1)
     else if \<not> ok1 then (Failed_read_header, s2)
     else if bswap32 (hdr_magic header) \<noteq> GAMECARD_HEAD_MAGIC then (Invalid_header_magic, s2)
     else load_capacity_part sx P s2)"
    using g r1 by (simp add: gamecardLoadInfo_steps_parts Let_def s2_def)
  show ?thesis
  proof (cases "ok0 \<and> ok1 \<and> bswap32 (hdr_magic header) = GAMECARD_HEAD_MAGIC")
    case False
    then show ?thesis unfolding e using fl f1
      by (auto simp: past_root_checks_def flags_frame_def intro!: load_post_failure)
  next
    case True
    then have e': "gamecardLoadInfo_steps sx P s = load_capacity_part sx P s2" unfolding e by simp
    have "load_post (\<lambda>t. g_gameCardHeader t = g_gameCardHeader s2 \<and>
               g_gameCardCapacity t = gamecardGetCapacityFromRomSizeValue (hdr_rom_size (g_gameCardHeader s2)) \<and>
               g_gameCardCapacity t \<noteq> 0 \<and> root_valid t) s2 (load_capacity_part sx P s2)"
      by (rule load_capacity_part_post)
    then have "load_post info_valid s2 (load_capacity_part sx P s2)"
      by (rule load_post_mono) (use True fl in \<open>auto simp: info_valid_def root_valid_def split: option.splits\<close>)
    then show ?thesis unfolding e' using fl(1-3) by (rule load_post_from)
  qed
qed

subsection \<open>What \<open>gamecardLoadInfo\<close> leaves behind\<close>

lemma info_valid_loaded_update [simp]:
  "info_valid (t\<lparr>g_gameCardInfoLoaded := b\<rparr>) = info_valid t"
  by (simp add: info_valid_def split: option.splits)

lemma gamecardLoadInfo_steps_flags:
  "g_gameCardInserted (snd (gamecardLoadInfo_steps sx P s)) = g_gameCardInserted s"
  "\<not> g_gameCardInfoLoaded s \<Longrightarrow>
     g_gameCardInfoLoaded (snd (gamecardLoadInfo_steps sx P s)) = (fst (gamecardLoadInfo_steps sx P s) = Load_Ok)"
  "fst (gamecardLoadInfo_steps sx P s) = Load_Ok \<Longrightarrow> info_valid (snd (gamecardLoadInfo_steps sx P s))"
proof -
  from gamecardLoadInfo_steps_post [of s sx P] obtain t where
    t: "g_gameCardInserted t = g_gameCardInserted s" "g_gameCardInfoLoaded t = g_gameCardInfoLoaded s"
      "snd (gamecardLoadInfo_steps sx P s) =
         (if fst (gamecardLoadInfo_steps sx P s) = Load_Ok then t\<lparr>g_gameCardInfoLoaded := True\<rparr> else t)"
      "if past_root_checks (fst (gamecardLoadInfo_steps sx P s)) then info_valid t
       else fst (gamecardLoadInfo_steps sx P s) \<noteq> Load_Ok"
    unfolding load_post_def by blast
  show "g_gameCardInserted (snd (gamecardLoadInfo_steps sx P s)) = g_gameCardInserted s"
    using t(1,3) by simp
  show "g_gameCardInfoLoaded (snd (gamecardLoadInfo_steps sx P s)) = (fst (gamecardLoadInfo_steps sx P s) = Load_Ok)"
    if "\<not> g_gameCardInfoLoaded s"
    using that t(2,3) by simp
  show "info_valid (snd (gamecardLoadInfo_steps sx P s))" if "fst (gamecardLoadInfo_steps sx P s) = Load_Ok"
    using that t(3,4) by (simp add: past_root_checks_def)
qed

lemma gamecardLoadInfo_loaded:
  assumes "\<not> g_gameCardInfoLoaded s"
  shows "g_gameCardInfoLoaded (gamecardLoadInfo sx P s) = (fst (gamecardLoadInfo_steps sx P s) = Load_Ok)"
proof -
  obtain r s1 where e: "gamecardLoadInfo_steps sx P s = (r, s1)" by (cases "gamecardLoadInfo_steps sx P s")
  have "\<not> g_gameCardInfoLoaded (gamecardFreeInfo s1)"
    using gamecardFreeInfo_freed [of s1] by (simp add: info_freed_def)
  then show ?thesis
    using assms gamecardLoadInfo_steps_flags(2) [of s sx P] e by (auto simp: gamecardLoadInfo_def)
qed

lemma gamecardLoadInfo_failure:
  assumes "\<not> g_gameCardInfoLoaded s" "fst (gamecardLoadInfo_steps sx P s) \<noteq> Load_Ok"
  shows "gamecardLoadInfo sx P s = gamecardFreeInfo (snd (gamecardLoadInfo_steps sx P s))"
  using assms gamecardLoadInfo_steps_flags(2) [of s sx P]
  by (auto simp: gamecardLoadInfo_def split: prod.splits)

lemma gamecardLoadInfo_success:
  assumes "\<not> g_gameCardInfoLoaded s" "fst (gamecardLoadInfo_steps sx P s) = Load_Ok"
  shows "gamecardLoadInfo sx P s = snd (gamecardLoadInfo_steps sx P s)"
  using assms gamecardLoadInfo_steps_flags(2) [of s sx P]
  by (auto simp: gamecardLoadInfo_def split: prod.splits)

lemma gamecardLoadInfo_inserted:
  "g_gameCardInserted (gamecardLoadInfo sx P s) = g_gameCardInserted s"
  using gamecardLoadInfo_steps_flags(1) [of sx P s]
  by (auto simp: gamecardLoadInfo_def gamecardFreeInfo_inserted split: prod.splits)

subsection \<open>The detection thread after a load that failed\<close>

lemma gamecardDetectionThreadFunc_iteration_no_retry:
  "snd (gamecardDetectionThreadFunc_iteration sx P True s) =
     gamecardFreeInfo ((log_call FsDeviceOperatorIsGameCardInserted s)
       \<lparr>g_gameCardInserted := fst (gamecardIsInserted P s)\<rparr>)"
  "fst (gamecardDetectionThreadFunc_iteration sx P True s) = fst (gamecardIsInserted P s)"
  by (simp_all add: gamecardDetectionThreadFunc_iteration_def gamecardIsInserted_def Let_def
      gamecardFreeInfo_inserted split: prod.splits)

lemma gamecardDetectionThreadFunc_loop_no_retry:
  assumes ins: "\<And>h. fsDeviceOperatorIsGameCardInserted P h = (0, True)"
    and "info_freed s"
  shows "info_freed (fst (snd (gamecardDetectionThreadFunc_loop sx P ws True s)))"
  using assms(2)
proof (induction ws arbitrary: s)
  case Nil
  then show ?case by simp
next
  case (Cons w ws)
  show ?case
  proof (cases w)
    case Wait_failed
    with Cons show ?thesis by simp
  next
    case Exit_event
    with Cons show ?thesis by simp
  next
    case Card_event
    obtain p s' where it: "gamecardDetectionThreadFunc_iteration sx P True s = (p, s')"
      by (cases "gamecardDetectionThreadFunc_iteration sx P True s")
    from gamecardDetectionThreadFunc_iteration_no_retry [of sx P s] it
    have "p = True" "info_freed s'"
      by (simp_all add: gamecardIsInserted_def ins R_SUCCEEDED_def gamecardFreeInfo_freed)
    with Cons.IH [of s'] it Card_event show ?thesis by simp
  qed
qed

section \<open>Loading the information of the simulated card\<close>

text \<open>The session when the thread has just seen the card: nothing is cached yet.\<close>

definition sim_inserted_state :: gc_state where
  "sim_inserted_state =
     \<lparr> g_gamecardInterfaceInit = True,
       g_openDeviceOperator = True,
       g_openEventNotifier = True,
       g_loadKernelEvent = True,
       g_gameCardDetectionThreadCreated = True,
       g_gameCardInserted = True,
       g_gameCardInfoLoaded = False,
       g_gameCardHandle = 0,
       g_gameCardStorage = 0,
       g_gameCardStorageCurrentArea = GameCardStorageArea_None,
       g_gameCardReadBuf = Some zero_buffer,
       g_gameCardHeader = zero_buffer,
       g_gameCardStorageNormalAreaSize = 0,
       g_gameCardStorageSecureAreaSize = 0,
       g_gameCardCapacity = 0,
       g_gameCardHfsRootHeader = None,
       g_gameCardHfsPartitions = None,
       calls = [] \<rparr>"

definition sim_idle :: "gc_state \<Rightarrow> bool" where
  "sim_idle s = (g_gameCardInserted s \<and> g_gameCardHandle s = 0 \<and> g_gameCardStorage s = 0)"

lemma sim_gamecardGetStorageAreasSizes_area:
  assumes "sim_idle s"
    and "area = GameCardStorageArea_Normal \<or> area = GameCardStorageArea_Secure"
    and "normal_size c \<noteq> 0" "secure_size c \<noteq> 0"
  shows "fst (gamecardGetStorageAreasSizes_area (sim_platform c) s area)"
    "sim_idle (snd (gamecardGetStorageAreasSizes_area (sim_platform c) s area))"
    "g_gameCardStorageNormalAreaSize (snd (gamecardGetStorageAreasSizes_area (sim_platform c) s area)) =
       (if area = GameCardStorageArea_Normal then normal_size c else g_gameCardStorageNormalAreaSize s)"
    "g_gameCardStorageSecureAreaSize (snd (gamecardGetStorageAreasSizes_area (sim_platform c) s area)) =
       (if area = GameCardStorageArea_Normal then g_gameCardStorageSecureAreaSize s else secure_size c)"
    "g_gameCardReadBuf (snd (gamecardGetStorageAreasSizes_area (sim_platform c) s area)) = g_gameCardReadBuf s"
proof -
  have i: "g_gameCardInserted s" "g_gameCardHandle s = 0" "g_gameCardStorage s = 0"
    using assms(1) by (simp_all add: sim_idle_def)
  have sz: "fsStorageGetSize (sim_platform c) h st =
    (if st = 1 then (0, normal_size c) else if st = 2 then (0, secure_size c) else (0x2EE202, 0))" for h st
    by (simp add: sim_platform_def)
  define s2 where "s2 = s\<lparr>g_gameCardHandle := sim_handle,
              g_gameCardStorage := ucast area,
              g_gameCardStorageCurrentArea := area,
              calls := FsOpenGameCardStorage sim_handle (ucast (area - 1)) #
                       FsStorageClose 1 # FsOpenGameCardStorage sim_handle 0 #
                       FsDeviceOperatorGetGameCardHandle # SvcCloseHandle 0 #
                       FsOpenGameCardStorage 0 0 # SvcCloseHandle 0 # calls s\<rparr>"
  have o: "gamecardOpenStorageArea (sim_platform c) s area = (True, s2)"
    unfolding s2_def by (rule sim_gamecardOpenStorageArea_fresh [OF i assms(2)])
  have st: "g_gameCardStorage s2 = ucast area" "g_gameCardInserted s2"
    using i by (simp_all add: s2_def)
  define s3 where "s3 = gamecardCloseStorageArea (log_call (FsStorageGetSize (ucast area)) s2)"
  have f3: "sim_idle s3" "g_gameCardStorageNormalAreaSize s3 = g_gameCardStorageNormalAreaSize s"
    "g_gameCardStorageSecureAreaSize s3 = g_gameCardStorageSecureAreaSize s"
    "g_gameCardReadBuf s3 = g_gameCardReadBuf s"
    using i by (simp_all add: s3_def sim_idle_def gamecardCloseStorageArea_def Let_def
        gamecardCloseHandle_def log_call_def s2_def serviceIsActive_def)
  have e: "gamecardGetStorageAreasSizes_area (sim_platform c) s area =
    (if area = GameCardStorageArea_Normal
     then (True, s3\<lparr>g_gameCardStorageNormalAreaSize := normal_size c\<rparr>)
     else (True, s3\<lparr>g_gameCardStorageSecureAreaSize := secure_size c\<rparr>))"
  proof -
    have u: "(ucast area :: u32) = (if area = GameCardStorageArea_Normal then 1 else 2)"
      using assms(2) by (auto simp: GameCardStorageArea_Normal_def GameCardStorageArea_Secure_def)
    have g: "fsStorageGetSize (sim_platform c) h (ucast area) =
      (if area = GameCardStorageArea_Normal then (0, normal_size c) else (0, secure_size c))" for h
      unfolding sz u by simp
    show ?thesis
      unfolding gamecardGetStorageAreasSizes_area_def o
      using assms(3,4) by (simp add: st g Let_def s3_def R_FAILED_def)
  qed
  show "fst (gamecardGetStorageAreasSizes_area (sim_platform c) s area)"
    "sim_idle (snd (gamecardGetStorageAreasSizes_area (sim_platform c) s area))"
    "g_gameCardStorageNormalAreaSize (snd (gamecardGetStorageAreasSizes_area (sim_platform c) s area)) =
       (if area = GameCardStorageArea_Normal then normal_size c else g_gameCardStorageNormalAreaSize s)"
    "g_gameCardStorageSecureAreaSize (snd (gamecardGetStorageAreasSizes_area (sim_platform c) s area)) =
       (if area = GameCardStorageArea_Normal then g_gameCardStorageSecureAreaSize s else secure_size c)"
    "g_gameCardReadBuf (snd (gamecardGetStorageAreasSizes_area (sim_platform c) s area)) = g_gameCardReadBuf s"
    unfolding e using f3 by (simp_all add: sim_idle_def)
qed

lemma sim_gamecardGetStorageAreasSizes:
  assumes "sim_idle s" "normal_size c \<noteq> 0" "secure_size c \<noteq> 0"
  shows "fst (gamecardGetStorageAreasSizes (sim_platform c) s)"
    "sim_idle (snd (gamecardGetStorageAreasSizes (sim_platform c) s))"
    "g_gameCardStorageNormalAreaSize (snd (gamecardGetStorageAreasSizes (sim_platform c) s)) = normal_size c"
    "g_gameCardStorageSecureAreaSize (snd (gamecardGetStorageAreasSizes (sim_platform c) s)) = secure_size c"
    "g_gameCardReadBuf (snd (gamecardGetStorageAreasSizes (sim_platform c) s)) = g_gameCardReadBuf s"
proof -
  obtain ok s1 where a: "gamecardGetStorageAreasSizes_area (sim_platform c) s GameCardStorageArea_Normal = (ok, s1)"
    by (cases "gamecardGetStorageAreasSizes_area (sim_platform c) s GameCardStorageArea_Normal")
  from sim_gamecardGetStorageAreasSizes_area [OF assms(1) _ assms(2,3), of GameCardStorageArea_Normal] a
  have 1: "ok" "sim_idle s1" "g_gameCardStorageNormalAreaSize s1 = normal_size c"
    "g_gameCardReadBuf s1 = g_gameCardReadBuf s" by simp_all
  have ne: "GameCardStorageArea_Secure \<noteq> GameCardStorageArea_Normal"
    by (simp add: GameCardStorageArea_Normal_def GameCardStorageArea_Secure_def)
  have e: "gamecardGetStorageAreasSizes (sim_platform c) s =
           gamecardGetStorageAreasSizes_area (sim_platform c) s1 GameCardStorageArea_Secure"
    using assms(1) a 1(1) by (simp add: gamecardGetStorageAreasSizes_def sim_idle_def)
  show "fst (gamecardGetStorageAreasSizes (sim_platform c) s)"
    "sim_idle (snd (gamecardGetStorageAreasSizes (sim_platform c) s))"
    "g_gameCardStorageNormalAreaSize (snd (gamecardGetStorageAreasSizes (sim_platform c) s)) = normal_size c"
    "g_gameCardStorageSecureAreaSize (snd (gamecardGetStorageAreasSizes (sim_platform c) s)) = secure_size c"
    "g_gameCardReadBuf (snd (gamecardGetStorageAreasSizes (sim_platform c) s)) = g_gameCardReadBuf s"
    unfolding e
    using sim_gamecardGetStorageAreasSizes_area [OF 1(2) _ assms(2,3), of GameCardStorageArea_Secure] 1(3,4) ne
    by simp_all
qed

text \<open>The read of the card header: 0x200 bytes at offset 0, in the normal area.\<close>

lemma sim_read_header:
  assumes "sim_idle s" "g_gameCardStorageNormalAreaSize s = 0x1000"
    "g_gameCardStorageSecureAreaSize s = 0x2000000" "normal_size c = 0x1000"
  shows "fst (gamecardReadStorageArea (sim_platform c) s mem (Some 0) sizeof_GameCardHeader 0 False)"
    "fst (snd (gamecardReadStorageArea (sim_platform c) s mem (Some 0) sizeof_GameCardHeader 0 False)) =
       memcpy mem 0 (normal_data c) 0 0x200"
proof -
  have i: "g_gameCardInserted s" "g_gameCardHandle s = 0" "g_gameCardStorage s = 0"
    using assms(1) by (simp_all add: sim_idle_def)
  define s2 where "s2 = s\<lparr>g_gameCardHandle := sim_handle,
              g_gameCardStorage := ucast GameCardStorageArea_Normal,
              g_gameCardStorageCurrentArea := GameCardStorageArea_Normal,
              calls := FsOpenGameCardStorage sim_handle (ucast (GameCardStorageArea_Normal - 1)) #
                       FsStorageClose 1 # FsOpenGameCardStorage sim_handle 0 #
                       FsDeviceOperatorGetGameCardHandle # SvcCloseHandle 0 #
                       FsOpenGameCardStorage 0 0 # SvcCloseHandle 0 # calls s\<rparr>"
  have o: "gamecardOpenStorageArea (sim_platform c) s GameCardStorageArea_Normal = (True, s2)"
    unfolding s2_def by (rule sim_gamecardOpenStorageArea_fresh [OF i]) simp
  have st: "g_gameCardStorage s2 = 1"
    by (simp add: s2_def GameCardStorageArea_Normal_def)
  have nr: "\<not> read_refused s (Some 0) sizeof_GameCardHeader 0"
    using i assms(2,3) by (simp add: read_refused_def sizeof_GameCardHeader_def)
  have ns: "\<not> read_spans s sizeof_GameCardHeader 0"
    using assms(2) by (simp add: read_spans_def sizeof_GameCardHeader_def)
  have rd: "fsStorageRead (sim_platform c) h 1 0 sizeof_GameCardHeader = (0, \<lambda>i. normal_data c i)" for h
    using assms(4) by (simp add: sim_fsStorageRead sizeof_GameCardHeader_def)
  have e: "gamecardReadStorageArea (sim_platform c) s mem (Some 0) sizeof_GameCardHeader 0 False =
    (True, memcpy mem 0 (normal_data c) 0 0x200,
     log_call (FsStorageRead 1 0 sizeof_GameCardHeader) s2)"
    apply (subst gamecardReadStorageArea_unfold)
    apply (simp add: nr ns assms(2) read_area_def o read_aligned_def st rd)
    apply (simp add: sizeof_GameCardHeader_def GAMECARD_MEDIA_UNIT_SIZE_def R_FAILED_def)
    done
  show "fst (gamecardReadStorageArea (sim_platform c) s mem (Some 0) sizeof_GameCardHeader 0 False)"
    "fst (snd (gamecardReadStorageArea (sim_platform c) s mem (Some 0) sizeof_GameCardHeader 0 False)) =
       memcpy mem 0 (normal_data c) 0 0x200"
    unfolding e by simp_all
qed

text \<open>
  Where the loading of a card with these area sizes ends, according to the magic word and
  the size byte of its header.
\<close>

lemma sim_gamecardLoadInfo_steps:
  assumes "sim_idle s" "normal_size c = 0x1000" "secure_size c = 0x2000000"
  shows "bswap32 (read_le32 (normal_data c) 0x100) \<noteq> GAMECARD_HEAD_MAGIC \<Longrightarrow>
           fst (gamecardLoadInfo_steps sx (sim_platform c) s) = Invalid_header_magic"
    "bswap32 (read_le32 (normal_data c) 0x100) = GAMECARD_HEAD_MAGIC \<Longrightarrow>
     gamecardGetCapacityFromRomSizeValue (normal_data c 0x10D) = 0 \<Longrightarrow>
           fst (gamecardLoadInfo_steps sx (sim_platform c) s) = Invalid_capacity"
proof -
  obtain ok0 s1 where g: "gamecardGetStorageAreasSizes (sim_platform c) s = (ok0, s1)"
    by (cases "gamecardGetStorageAreasSizes (sim_platform c) s")
  from sim_gamecardGetStorageAreasSizes [of s c] g assms
  have 1: "ok0" "sim_idle s1" "g_gameCardStorageNormalAreaSize s1 = 0x1000"
    "g_gameCardStorageSecureAreaSize s1 = 0x2000000" by simp_all
  obtain ok1 header s2' where r1:
    "gamecardReadStorageArea (sim_platform c) s1 (g_gameCardHeader s1) (Some 0) sizeof_GameCardHeader 0 False = (ok1, header, s2')"
    by (cases "gamecardReadStorageArea (sim_platform c) s1 (g_gameCardHeader s1) (Some 0) sizeof_GameCardHeader 0 False") auto
  from sim_read_header [OF 1(2-4) assms(2), of "g_gameCardHeader s1"] r1
  have 2: "ok1" "header = memcpy (g_gameCardHeader s1) 0 (normal_data c) 0 0x200" by simp_all
  have m: "hdr_magic header = read_le32 (normal_data c) 0x100"
    by (simp add: 2(2) hdr_magic_def read_le32_def memcpy_def)
  have rs: "hdr_rom_size header = normal_data c 0x10D"
    by (simp add: 2(2) hdr_rom_size_def memcpy_def)
  have e: "gamecardLoadInfo_steps sx (sim_platform c) s =
    (if bswap32 (hdr_magic header) \<noteq> GAMECARD_HEAD_MAGIC
     then (Invalid_header_magic, s2'\<lparr>g_gameCardHeader := header\<rparr>)
     else load_capacity_part sx (sim_platform c) (s2'\<lparr>g_gameCardHeader := header\<rparr>))"
    using g r1 1(1) 2(1) by (simp add: gamecardLoadInfo_steps_parts Let_def)
  show "fst (gamecardLoadInfo_steps sx (sim_platform c) s) = Invalid_header_magic"
    if "bswap32 (read_le32 (normal_data c) 0x100) \<noteq> GAMECARD_HEAD_MAGIC"
    using that unfolding e m by simp
  show "fst (gamecardLoadInfo_steps sx (sim_platform c) s) = Invalid_capacity"
    if "bswap32 (read_le32 (normal_data c) 0x100) = GAMECARD_HEAD_MAGIC"
      "gamecardGetCapacityFromRomSizeValue (normal_data c 0x10D) = 0"
    using that unfolding e m by (simp add: load_capacity_part_def rs)
qed

lemma sim_inserted_state_simps:
  "sim_idle sim_inserted_state" "\<not> g_gameCardInfoLoaded sim_inserted_state"
  "g_gameCardInserted sim_inserted_state"
  by (simp_all add: sim_inserted_state_def sim_idle_def)

lemma sim_card_bad_magic:
  "bswap32 (read_le32 (normal_data sim_card) 0x100) \<noteq> GAMECARD_HEAD_MAGIC"
  by (simp add: sim_card_simps read_le32_def bswap32_def GAMECARD_HEAD_MAGIC_def)

section \<open>A card whose information loads\<close>

text \<open>The session while the normal area of the simulated card is open.\<close>

definition sim_open_normal :: "gc_state \<Rightarrow> bool" where
  "sim_open_normal s =
     (g_gameCardInserted s \<and> g_gameCardHandle s = sim_handle \<and> g_gameCardStorage s = 1 \<and>
      g_gameCardStorageCurrentArea s = GameCardStorageArea_Normal \<and>
      g_gameCardStorageNormalAreaSize s = 0x1000 \<and>
      g_gameCardStorageSecureAreaSize s = 0x2000000)"

lemma sim_open_normal_again:
  "sim_open_normal s \<Longrightarrow> gamecardOpenStorageArea P s GameCardStorageArea_Normal = (True, s)"
  by (simp add: sim_open_normal_def gamecardOpenStorageArea_def sim_handle_def serviceIsActive_def)

lemma sim_read_normal_aligned_from:
  assumes op: "gamecardOpenStorageArea (sim_platform c) s GameCardStorageArea_Normal = (True, s2)"
    and "g_gameCardStorage s2 = 1"
    and "g_gameCardInserted s" "g_gameCardStorageNormalAreaSize s = 0x1000"
      "g_gameCardStorageSecureAreaSize s = 0x2000000"
    and "normal_size c = 0x1000"
    and "off = 0 \<or> off = 0x200 \<or> off = 0x400" "sz = 0x200"
  shows "gamecardReadStorageArea (sim_platform c) s mem (Some out) sz off False =
    (True, memcpy mem out (\<lambda>i. normal_data c (unat off + i)) 0 (unat sz),
     log_call (FsStorageRead 1 off sz) s2)"
proof -
  note i = assms(3-5)
  have nr: "\<not> read_refused s (Some out) sz off"
    using i assms(7,8) by (auto simp: read_refused_def)
  have ns: "\<not> read_spans s sz off"
    using i assms(7,8) by (auto simp: read_spans_def)
  have lt: "off < 0x1000" using assms(7) by auto
  have al: "off mod GAMECARD_MEDIA_UNIT_SIZE = 0" "sz mod GAMECARD_MEDIA_UNIT_SIZE = 0"
    using assms(7,8) by (auto simp: GAMECARD_MEDIA_UNIT_SIZE_def)
  have rd: "fsStorageRead (sim_platform c) h 1 off sz = (0, \<lambda>i. normal_data c (unat off + i))" for h
    using assms(6,7,8) by (auto simp: sim_fsStorageRead)
  show ?thesis
    apply (subst gamecardReadStorageArea_unfold)
    apply (simp add: nr ns i(2) lt read_area_def op al
        read_aligned_def assms(2) rd R_FAILED_def)
    done
qed

lemma sim_read_normal_aligned:
  assumes "sim_open_normal s" "normal_size c = 0x1000"
    and "off = 0x200 \<or> off = 0x400" "sz = 0x200"
  shows "gamecardReadStorageArea (sim_platform c) s mem (Some out) sz off False =
    (True, memcpy mem out (\<lambda>i. normal_data c (unat off + i)) 0 (unat sz),
     log_call (FsStorageRead 1 off sz) s)"
  using assms
  by (intro sim_read_normal_aligned_from sim_open_normal_again) (auto simp: sim_open_normal_def)

text \<open>The read of the card header, with the session it leaves.\<close>

lemma sim_read_header_state:
  assumes "sim_idle s" "g_gameCardStorageNormalAreaSize s = 0x1000"
    "g_gameCardStorageSecureAreaSize s = 0x2000000" "normal_size c = 0x1000"
  shows "\<exists>s'. gamecardReadStorageArea (sim_platform c) s mem (Some 0) sizeof_GameCardHeader 0 False =
    (True, memcpy mem 0 (normal_data c) 0 0x200, s') \<and> sim_open_normal s' \<and>
    g_gameCardReadBuf s' = g_gameCardReadBuf s \<and> g_gameCardInfoLoaded s' = g_gameCardInfoLoaded s"
proof -
  have i: "g_gameCardInserted s" "g_gameCardHandle s = 0" "g_gameCardStorage s = 0"
    using assms(1) by (simp_all add: sim_idle_def)
  define s2 where "s2 = s\<lparr>g_gameCardHandle := sim_handle,
              g_gameCardStorage := ucast GameCardStorageArea_Normal,
              g_gameCardStorageCurrentArea := GameCardStorageArea_Normal,
              calls := FsOpenGameCardStorage sim_handle (ucast (GameCardStorageArea_Normal - 1)) #
                       FsStorageClose 1 # FsOpenGameCardStorage sim_handle 0 #
                       FsDeviceOperatorGetGameCardHandle # SvcCloseHandle 0 #
                       FsOpenGameCardStorage 0 0 # SvcCloseHandle 0 # calls s\<rparr>"
  have o: "gamecardOpenStorageArea (sim_platform c) s GameCardStorageArea_Normal = (True, s2)"
    unfolding s2_def by (rule sim_gamecardOpenStorageArea_fresh [OF i]) simp
  have st: "g_gameCardStorage s2 = 1" "sim_open_normal s2"
    "g_gameCardReadBuf s2 = g_gameCardReadBuf s" "g_gameCardInfoLoaded s2 = g_gameCardInfoLoaded s"
    using i assms(2,3)
    by (simp_all add: s2_def GameCardStorageArea_Normal_def sim_open_normal_def)
  have "gamecardReadStorageArea (sim_platform c) s mem (Some 0) 0x200 0 False =
    (True, memcpy mem 0 (\<lambda>i. normal_data c (unat (0 :: u64) + i)) 0 (unat (0x200 :: u64)),
     log_call (FsStorageRead 1 0 0x200) s2)"
    by (rule sim_read_normal_aligned_from [OF o st(1) i(1) assms(2,3,4)]) simp_all
  then show ?thesis
    using st by (simp add: sizeof_GameCardHeader_def log_call_def sim_open_normal_def)
qed

lemma sim_read_normal_unaligned:
  assumes "sim_open_normal s" "normal_size c = 0x1000" "g_gameCardReadBuf s = Some rb"
  shows "gamecardReadStorageArea (sim_platform c) s mem (Some out) 0x10 0x400 False =
    (True, memcpy mem out (memcpy rb 0 (\<lambda>i. normal_data c (0x400 + i)) 0 0x200) 0 0x10,
     (log_call (FsStorageRead 1 0x400 0x200) s)
       \<lparr>g_gameCardReadBuf := Some (memcpy rb 0 (\<lambda>i. normal_data c (0x400 + i)) 0 0x200)\<rparr>)"
proof -
  have i: "g_gameCardInserted s" "g_gameCardStorage s = 1"
    "g_gameCardStorageNormalAreaSize s = 0x1000" "g_gameCardStorageSecureAreaSize s = 0x2000000"
    using assms(1) by (simp_all add: sim_open_normal_def)
  have nr: "\<not> read_refused s (Some out) 0x10 0x400"
    using i by (auto simp: read_refused_def)
  have ns: "\<not> read_spans s 0x10 0x400"
    using i by (auto simp: read_spans_def)
  have al: "(0x10 :: u64) mod GAMECARD_MEDIA_UNIT_SIZE \<noteq> 0"
    by (simp add: GAMECARD_MEDIA_UNIT_SIZE_def)
  have b: "block_start (0x400 :: u64) = 0x400" "chunk_size_of (0x400 :: u64) 0x10 = 0x200"
    "out_chunk_size_of (0x400 :: u64) 0x10 = 0x10"
    "\<not> block_size_of (0x400 :: u64) 0x10 > GAMECARD_READ_BUFFER_SIZE"
    by (simp_all add: block_start_def chunk_size_of_def out_chunk_size_of_def block_size_of_def
        ROUND_UP_def GAMECARD_MEDIA_UNIT_SIZE_def GAMECARD_READ_BUFFER_SIZE_def)
  have rd: "fsStorageRead (sim_platform c) h 1 0x400 0x200 = (0, \<lambda>i. normal_data c (0x400 + i))" for h
    using assms(2) by (simp add: sim_fsStorageRead)
  show ?thesis
    apply (subst gamecardReadStorageArea_unfold)
    apply (simp add: nr ns i(3) read_area_def sim_open_normal_again [OF assms(1)] al
        read_unaligned_flat b i(2) rd R_FAILED_def g_gameCardReadBuf_log_call assms(3))
    apply (simp add: Let_def)
    done
qed

text \<open>
  A card with a header, a root header at 0x200 with one entry (\<open>update\<close>, 0x200 bytes at
  offset 0 of the data that follows the root header), and the header of that partition at
  0x400 with one entry (\<open>Game.nca\<close>). All other bytes are zero.
\<close>

definition good_card_bytes :: "(nat \<times> u8) list" where
  "good_card_bytes =
     [(0x100, 0x48), (0x101, 0x45), (0x102, 0x41), (0x103, 0x44),
      (0x10D, 0xFA), (0x131, 0x02), (0x139, 0x02),
      (0x200, 0x48), (0x201, 0x46), (0x202, 0x53), (0x203, 0x30),
      (0x204, 0x01), (0x208, 0x10), (0x219, 0x02),
      (0x250, 0x75), (0x251, 0x70), (0x252, 0x64), (0x253, 0x61), (0x254, 0x74), (0x255, 0x65),
      (0x400, 0x48), (0x401, 0x46), (0x402, 0x53), (0x403, 0x30),
      (0x404, 0x01), (0x408, 0x10), (0x418, 0x10),
      (0x450, 0x47), (0x451, 0x61), (0x452, 0x6D), (0x453, 0x65), (0x454, 0x2E),
      (0x455, 0x6E), (0x456, 0x63), (0x457, 0x61)]"

definition good_card :: card where
  "good_card =
     \<lparr> normal_size = 0x1000, secure_size = 0x2000000,
       normal_data = (\<lambda>i. case map_of good_card_bytes i of None \<Rightarrow> 0 | Some b \<Rightarrow> b),
       secure_data = (\<lambda>i. 0),
       firmware_type = 0 \<rparr>"

lemma good_card_simps:
  "normal_size good_card = 0x1000" "secure_size good_card = 0x2000000" "firmware_type good_card = 0"
  by (simp_all add: good_card_def)

lemma read_le32_memcpy:
  "a + 3 < n \<Longrightarrow> read_le32 (memcpy mem 0 src 0 n) a = read_le32 src a"
  by (simp add: read_le32_def memcpy_def)

lemma read_le64_memcpy:
  "a + 7 < n \<Longrightarrow> read_le64 (memcpy mem 0 src 0 n) a = read_le64 src a"
  by (simp add: read_le64_def memcpy_def)

lemma good_card_header:
  "bswap32 (read_le32 (normal_data good_card) 0x100) = GAMECARD_HEAD_MAGIC"
  "normal_data good_card 0x10D = 0xFA"
  "read_le64 (normal_data good_card) 0x130 = 0x200"
  "read_le64 (normal_data good_card) 0x138 = 0x200"
  by (simp_all add: good_card_def good_card_bytes_def read_le32_def read_le64_def bswap32_def
      GAMECARD_HEAD_MAGIC_def)

lemma good_card_root:
  "bswap32 (read_le32 (\<lambda>i. normal_data good_card (0x200 + i)) 0) = GAMECARD_HFS0_MAGIC"
  "read_le32 (\<lambda>i. normal_data good_card (0x200 + i)) 4 = 1"
  "read_le32 (\<lambda>i. normal_data good_card (0x200 + i)) 8 = 0x10"
  "read_le64 (\<lambda>i. normal_data good_card (0x200 + i)) 0x10 = 0"
  "read_le64 (\<lambda>i. normal_data good_card (0x200 + i)) 0x18 = 0x200"
  by (simp_all add: good_card_def good_card_bytes_def read_le32_def read_le64_def bswap32_def
      GAMECARD_HFS0_MAGIC_def)

lemma good_card_partition:
  "bswap32 (read_le32 (\<lambda>i. normal_data good_card (0x400 + i)) 0) = GAMECARD_HFS0_MAGIC"
  "read_le32 (\<lambda>i. normal_data good_card (0x400 + i)) 4 = 1"
  "read_le32 (\<lambda>i. normal_data good_card (0x400 + i)) 8 = 0x10"
  by (simp_all add: good_card_def good_card_bytes_def read_le32_def read_le64_def bswap32_def
      GAMECARD_HFS0_MAGIC_def)

lemma sim_open_normal_updates [simp]:
  "sim_open_normal (log_call c s) = sim_open_normal s"
  "sim_open_normal (set_partition i f s) = sim_open_normal s"
  "sim_open_normal (s\<lparr>g_gameCardReadBuf := b\<rparr>) = sim_open_normal s"
  "sim_open_normal (s\<lparr>g_gameCardHeader := h\<rparr>) = sim_open_normal s"
  "sim_open_normal (s\<lparr>g_gameCardCapacity := k\<rparr>) = sim_open_normal s"
  "sim_open_normal (s\<lparr>g_gameCardHfsRootHeader := r\<rparr>) = sim_open_normal s"
  "sim_open_normal (s\<lparr>g_gameCardHfsPartitions := p\<rparr>) = sim_open_normal s"
  "sim_open_normal (s\<lparr>calls := cs\<rparr>) = sim_open_normal s"
  by (simp_all add: sim_open_normal_def log_call_def set_partition_def)

lemma set_partition_fields [simp]:
  "g_gameCardReadBuf (set_partition i f s) = g_gameCardReadBuf s"
  "g_gameCardHeader (set_partition i f s) = g_gameCardHeader s"
  "calls (set_partition i f s) = calls s"
  "g_gameCardHfsPartitions (set_partition i f s) =
     map_option (\<lambda>ps. ps[i := f (ps ! i)]) (g_gameCardHfsPartitions s)"
  by (simp_all add: set_partition_def)

definition good_root :: buffer where
  "good_root = memcpy zero_buffer 0 (\<lambda>i. normal_data good_card (0x200 + i)) 0 0x200"

definition good_partition_header :: buffer where
  "good_partition_header = memcpy zero_buffer 0 (\<lambda>i. normal_data good_card (0x400 + i)) 0 0x200"

lemma good_root_fields:
  "bswap32 (hfs_magic good_root) = GAMECARD_HFS0_MAGIC"
  "hfs_entry_count good_root = 1" "hfs_name_table_size good_root = 0x10"
  "entry_offset good_root 0x10 = 0" "entry_size good_root 0x10 = 0x200"
  by (simp_all add: good_root_def hfs_magic_def hfs_entry_count_def hfs_name_table_size_def
      entry_offset_def entry_size_def read_le32_memcpy read_le64_memcpy good_card_root)

lemma good_partition_iteration:
  assumes o: "sim_open_normal s" and rb: "g_gameCardReadBuf s = Some rb"
    and h: "hdr_partition_fs_header_address (g_gameCardHeader s) = 0x200"
           "hdr_partition_fs_header_size (g_gameCardHeader s) = 0x200"
    and ps: "g_gameCardHfsPartitions s = Some [zero_partition]"
  shows "fst (gamecardLoadInfo_partition (sim_platform good_card) good_root 0 s) = Load_Ok"
    "g_gameCardHfsPartitions (snd (gamecardLoadInfo_partition (sim_platform good_card) good_root 0 s)) =
       Some [\<lparr>pi_offset = 0x400, pi_size = 0x200, pi_header_size = 0x200,
              pi_header = Some good_partition_header\<rparr>]"
proof -
  let ?P = "sim_platform good_card"
  have e0: "gamecardGetHashFileSystemEntryByIndex (Some good_root) (of_nat 0) = Some 0x10"
    by (simp add: gamecardGetHashFileSystemEntryByIndex_def good_root_fields
        sizeof_GameCardHashFileSystemHeader_def)
  define s1 where "s1 = set_partition 0 (\<lambda>p. p\<lparr>pi_offset := 0x400, pi_size := 0x200\<rparr>) s"
  define rb' where "rb' = memcpy rb 0 (\<lambda>i. normal_data good_card (0x400 + i)) 0 0x200"
  define ph where "ph = memcpy zero_buffer 0 rb' 0 0x10"
  define s2 where "s2 = (log_call (FsStorageRead 1 0x400 0x200) s1)\<lparr>g_gameCardReadBuf := Some rb'\<rparr>"
  have r1: "gamecardReadStorageArea ?P s1 zero_buffer (Some 0) 0x10 0x400 False = (True, ph, s2)"
    unfolding ph_def s2_def rb'_def
    by (rule sim_read_normal_unaligned) (simp_all add: s1_def o rb good_card_simps)
  have phf: "bswap32 (hfs_magic ph) = GAMECARD_HFS0_MAGIC"
    "hfs_entry_count ph = 1" "hfs_name_table_size ph = 0x10"
    by (simp_all add: ph_def rb'_def hfs_magic_def hfs_entry_count_def hfs_name_table_size_def
        read_le32_memcpy good_card_partition)
  have hs: "ROUND_UP (sizeof_GameCardHashFileSystemHeader +
              sizeof_GameCardHashFileSystemEntry + 16)
              GAMECARD_MEDIA_UNIT_SIZE = (0x200 :: u64)"
    by (simp add: ROUND_UP_def sizeof_GameCardHashFileSystemHeader_def
        sizeof_GameCardHashFileSystemEntry_def GAMECARD_MEDIA_UNIT_SIZE_def)
  define s5 where "s5 = set_partition 0 (\<lambda>p. p\<lparr>pi_header := Some zero_buffer\<rparr>)
      (log_call (Calloc 0x200 1) (set_partition 0 (\<lambda>p. p\<lparr>pi_header_size := 0x200\<rparr>) s2))"
  define s6 where "s6 = log_call (FsStorageRead 1 0x400 0x200) s5"
  have r2: "gamecardReadStorageArea ?P s5 zero_buffer (Some 0) 0x200 0x400 False =
            (True, good_partition_header, s6)"
  proof -
    have "gamecardReadStorageArea ?P s5 zero_buffer (Some 0) 0x200 0x400 False =
      (True, memcpy zero_buffer 0 (\<lambda>i. normal_data good_card (unat (0x400 :: u64) + i)) 0 (unat (0x200 :: u64)),
       log_call (FsStorageRead 1 0x400 0x200) s5)"
      by (rule sim_read_normal_aligned) (simp_all add: s5_def s2_def s1_def o good_card_simps)
    then show ?thesis by (simp add: good_partition_header_def s6_def)
  qed
  have cl: "calloc ?P hh n m" for hh n m by (simp add: sim_platform_def)
  have sz16: "sizeof_GameCardHashFileSystemHeader = 0x10"
    by (simp add: sizeof_GameCardHashFileSystemHeader_def)
  have e: "gamecardLoadInfo_partition ?P good_root 0 s =
           (Load_Ok, set_partition 0 (\<lambda>p. p\<lparr>pi_header := Some good_partition_header\<rparr>) s6)"
    unfolding gamecardLoadInfo_partition_def e0
    apply (simp add: good_root_fields h Let_def s1_def [symmetric])
    apply (simp add: r1 [folded sz16] phf hs cl Let_def)
    apply (simp add: s5_def [symmetric] r2)
    done
  show "fst (gamecardLoadInfo_partition ?P good_root 0 s) = Load_Ok" unfolding e by simp
  show "g_gameCardHfsPartitions (snd (gamecardLoadInfo_partition ?P good_root 0 s)) =
       Some [\<lparr>pi_offset = 0x400, pi_size = 0x200, pi_header_size = 0x200,
              pi_header = Some good_partition_header\<rparr>]"
    unfolding e
    by (simp add: s6_def s5_def s2_def s1_def ps log_call_def zero_partition_def)
qed

definition good_partitions :: "GameCardHashFileSystemPartitionInfo list" where
  "good_partitions = [\<lparr>pi_offset = 0x400, pi_size = 0x200, pi_header_size = 0x200,
                        pi_header = Some good_partition_header\<rparr>]"

lemma good_gamecardLoadInfo_partitions:
  assumes o: "sim_open_normal s" and rb: "g_gameCardReadBuf s = Some rb"
    and h: "hdr_partition_fs_header_address (g_gameCardHeader s) = 0x200"
           "hdr_partition_fs_header_size (g_gameCardHeader s) = 0x200"
    and ps: "g_gameCardHfsPartitions s = Some [zero_partition]"
  shows "fst (gamecardLoadInfo_partitions (sim_platform good_card) good_root 0 s) = Load_Ok"
    "g_gameCardHfsPartitions (snd (gamecardLoadInfo_partitions (sim_platform good_card) good_root 0 s)) =
       Some good_partitions"
proof -
  let ?P = "sim_platform good_card"
  obtain r s1 where p: "gamecardLoadInfo_partition ?P good_root 0 s = (r, s1)"
    by (cases "gamecardLoadInfo_partition ?P good_root 0 s")
  from good_partition_iteration [OF assms] p
  have 1: "r = Load_Ok" "g_gameCardHfsPartitions s1 = Some good_partitions"
    by (simp_all add: good_partitions_def)
  have e1: "gamecardLoadInfo_partitions ?P good_root (Suc 0) s1 = (Load_Ok, s1\<lparr>g_gameCardInfoLoaded := True\<rparr>)"
    by (subst gamecardLoadInfo_partitions.simps) (simp add: good_root_fields)
  have e: "gamecardLoadInfo_partitions ?P good_root 0 s = (Load_Ok, s1\<lparr>g_gameCardInfoLoaded := True\<rparr>)"
    by (subst gamecardLoadInfo_partitions.simps) (simp add: good_root_fields p 1(1) e1)
  show "fst (gamecardLoadInfo_partitions ?P good_root 0 s) = Load_Ok"
    "g_gameCardHfsPartitions (snd (gamecardLoadInfo_partitions ?P good_root 0 s)) = Some good_partitions"
    unfolding e using 1(2) by simp_all
qed

lemma good_load_partitions_part:
  assumes o: "sim_open_normal s" and rb: "g_gameCardReadBuf s = Some rb"
    and h: "hdr_partition_fs_header_address (g_gameCardHeader s) = 0x200"
           "hdr_partition_fs_header_size (g_gameCardHeader s) = 0x200"
  shows "fst (load_partitions_part (sim_platform good_card) good_root s) = Load_Ok"
    "g_gameCardHfsPartitions (snd (load_partitions_part (sim_platform good_card) good_root s)) =
       Some good_partitions"
proof -
  let ?P = "sim_platform good_card"
  define s10 where "s10 = (log_call (Calloc 1 sizeof_GameCardHashFileSystemEntry) s)
      \<lparr>g_gameCardHfsPartitions := Some [zero_partition]\<rparr>"
  have cl: "calloc ?P hh n m" for hh n m by (simp add: sim_platform_def)
  have e: "load_partitions_part ?P good_root s = gamecardLoadInfo_partitions ?P good_root 0 s10"
    by (simp add: load_partitions_part_def good_root_fields cl Let_def s10_def)
  have f: "sim_open_normal s10" "g_gameCardReadBuf s10 = Some rb"
    "hdr_partition_fs_header_address (g_gameCardHeader s10) = 0x200"
    "hdr_partition_fs_header_size (g_gameCardHeader s10) = 0x200"
    "g_gameCardHfsPartitions s10 = Some [zero_partition]"
    using o rb h by (simp_all add: s10_def log_call_def)
  show "fst (load_partitions_part ?P good_root s) = Load_Ok"
    "g_gameCardHfsPartitions (snd (load_partitions_part ?P good_root s)) = Some good_partitions"
    unfolding e by (rule good_gamecardLoadInfo_partitions [OF f])+
qed

lemma good_load_root_part:
  assumes o: "sim_open_normal s" and rb: "g_gameCardReadBuf s = Some rb"
    and h: "hdr_partition_fs_header_address (g_gameCardHeader s) = 0x200"
           "hdr_partition_fs_header_size (g_gameCardHeader s) = 0x200"
  shows "fst (load_root_part (sim_platform good_card) s) = Load_Ok"
    "g_gameCardHfsPartitions (snd (load_root_part (sim_platform good_card) s)) = Some good_partitions"
proof -
  let ?P = "sim_platform good_card"
  have cl: "calloc ?P hh n m" for hh n m by (simp add: sim_platform_def)
  define s7 where "s7 = (log_call (Calloc 0x200 1) s)\<lparr>g_gameCardHfsRootHeader := Some zero_buffer\<rparr>"
  define s8 where "s8 = (log_call (FsStorageRead 1 0x200 0x200) s7)\<lparr>g_gameCardHfsRootHeader := Some good_root\<rparr>"
  have r: "gamecardReadStorageArea ?P s7 zero_buffer (Some 0) 0x200 0x200 False =
           (True, good_root, log_call (FsStorageRead 1 0x200 0x200) s7)"
  proof -
    have "gamecardReadStorageArea ?P s7 zero_buffer (Some 0) 0x200 0x200 False =
      (True, memcpy zero_buffer 0 (\<lambda>i. normal_data good_card (unat (0x200 :: u64) + i)) 0 (unat (0x200 :: u64)),
       log_call (FsStorageRead 1 0x200 0x200) s7)"
      by (rule sim_read_normal_aligned) (simp_all add: s7_def o good_card_simps)
    then show ?thesis by (simp add: good_root_def)
  qed
  have h7: "g_gameCardHeader s7 = g_gameCardHeader s"
    "g_gameCardHeader (log_call c1 s) = g_gameCardHeader s"
    "g_gameCardHeader (log_call c1 s7) = g_gameCardHeader s" for c1
    by (simp_all add: s7_def log_call_def)
  have f: "sim_open_normal s8" "g_gameCardReadBuf s8 = Some rb"
    "hdr_partition_fs_header_address (g_gameCardHeader s8) = 0x200"
    "hdr_partition_fs_header_size (g_gameCardHeader s8) = 0x200"
    using o rb h by (simp_all add: s8_def s7_def log_call_def)
  have fits: "\<not> sizeof_GameCardHashFileSystemHeader + sizeof_GameCardHashFileSystemEntry + 16 > (0x200 :: u64)"
    by (simp add: sizeof_GameCardHashFileSystemHeader_def sizeof_GameCardHashFileSystemEntry_def)
  have e: "load_root_part ?P s = load_partitions_part ?P good_root s8"
    unfolding load_root_part_def
    apply (simp add: h cl Let_def s7_def [symmetric] h7)
    apply (simp add: r good_root_fields h7 h fits)
    apply (simp add: s8_def)
    done
  show "fst (load_root_part ?P s) = Load_Ok"
    "g_gameCardHfsPartitions (snd (load_root_part ?P s)) = Some good_partitions"
    unfolding e by (rule good_load_partitions_part [OF f])+
qed

lemma good_load_capacity_part:
  assumes o: "sim_open_normal s" and rb: "g_gameCardReadBuf s = Some rb"
    and h: "hdr_partition_fs_header_address (g_gameCardHeader s) = 0x200"
           "hdr_partition_fs_header_size (g_gameCardHeader s) = 0x200"
           "hdr_rom_size (g_gameCardHeader s) = 0xFA"
  shows "fst (load_capacity_part 2 (sim_platform good_card) s) = Load_Ok"
    "g_gameCardHfsPartitions (snd (load_capacity_part 2 (sim_platform good_card) s)) = Some good_partitions"
proof -
  let ?P = "sim_platform good_card"
  define s5 where "s5 = log_call UtilsGetCustomFirmwareType (s\<lparr>g_gameCardCapacity := GAMECARD_CAPACITY_1GiB\<rparr>)"
  have fw: "utilsGetCustomFirmwareType ?P hh = 0" for hh by (simp add: sim_platform_def good_card_simps)
  have cap: "gamecardGetCapacityFromRomSizeValue 0xFA = GAMECARD_CAPACITY_1GiB"
    "GAMECARD_CAPACITY_1GiB \<noteq> 0"
    by (simp_all add: gamecardGetCapacityFromRomSizeValue_def GameCardRomSize_1GiB_def
        GAMECARD_CAPACITY_1GiB_def)
  have e: "load_capacity_part 2 ?P s = load_root_part ?P s5"
    by (simp add: load_capacity_part_def h cap fw Let_def s5_def)
  have f: "sim_open_normal s5" "g_gameCardReadBuf s5 = Some rb"
    "hdr_partition_fs_header_address (g_gameCardHeader s5) = 0x200"
    "hdr_partition_fs_header_size (g_gameCardHeader s5) = 0x200"
    using o rb h by (simp_all add: s5_def log_call_def)
  show "fst (load_capacity_part 2 ?P s) = Load_Ok"
    "g_gameCardHfsPartitions (snd (load_capacity_part 2 ?P s)) = Some good_partitions"
    unfolding e by (rule good_load_root_part [OF f])+
qed

lemma good_gamecardLoadInfo_steps:
  assumes "sim_idle s" "g_gameCardReadBuf s = Some rb"
  shows "fst (gamecardLoadInfo_steps 2 (sim_platform good_card) s) = Load_Ok"
    "g_gameCardHfsPartitions (snd (gamecardLoadInfo_steps 2 (sim_platform good_card) s)) = Some good_partitions"
proof -
  let ?P = "sim_platform good_card"
  obtain ok0 s1 where g: "gamecardGetStorageAreasSizes ?P s = (ok0, s1)"
    by (cases "gamecardGetStorageAreasSizes ?P s")
  from sim_gamecardGetStorageAreasSizes [of s good_card] g assms
  have 1: "ok0" "sim_idle s1" "g_gameCardStorageNormalAreaSize s1 = 0x1000"
    "g_gameCardStorageSecureAreaSize s1 = 0x2000000" "g_gameCardReadBuf s1 = Some rb"
    by (simp_all add: good_card_simps)
  define header where "header = memcpy (g_gameCardHeader s1) 0 (normal_data good_card) 0 0x200"
  from sim_read_header_state [OF 1(2-4) good_card_simps(1), of "g_gameCardHeader s1"]
  obtain s2' where r1:
    "gamecardReadStorageArea ?P s1 (g_gameCardHeader s1) (Some 0) sizeof_GameCardHeader 0 False = (True, header, s2')"
    and 2: "sim_open_normal s2'" "g_gameCardReadBuf s2' = Some rb"
    unfolding header_def using 1(5) by auto
  have hf: "bswap32 (hdr_magic header) = GAMECARD_HEAD_MAGIC" "hdr_rom_size header = 0xFA"
    "hdr_partition_fs_header_address header = 0x200" "hdr_partition_fs_header_size header = 0x200"
    by (simp_all add: header_def hdr_magic_def hdr_partition_fs_header_address_def
        hdr_partition_fs_header_size_def read_le32_memcpy read_le64_memcpy good_card_header)
       (simp add: hdr_rom_size_def memcpy_def good_card_header)
  define s2 where "s2 = s2'\<lparr>g_gameCardHeader := header\<rparr>"
  have e: "gamecardLoadInfo_steps 2 ?P s = load_capacity_part 2 ?P s2"
    using g 1(1) r1 hf(1) by (simp add: gamecardLoadInfo_steps_parts Let_def s2_def)
  have f: "sim_open_normal s2" "g_gameCardReadBuf s2 = Some rb"
    "hdr_partition_fs_header_address (g_gameCardHeader s2) = 0x200"
    "hdr_partition_fs_header_size (g_gameCardHeader s2) = 0x200"
    "hdr_rom_size (g_gameCardHeader s2) = 0xFA"
    using 2 hf by (simp_all add: s2_def)
  show "fst (gamecardLoadInfo_steps 2 ?P s) = Load_Ok"
    "g_gameCardHfsPartitions (snd (gamecardLoadInfo_steps 2 ?P s)) = Some good_partitions"
    unfolding e by (rule good_load_capacity_part [OF f])+
qed

section \<open>What is allocated and what is released\<close>

text \<open>
  The record of calls tells how many heap buffers are live (allocated by a \<open>malloc\<close> or
  \<open>calloc\<close> that succeeded and not yet passed to \<open>free\<close>), and how many storages are open
  (opened by an \<open>fsOpenGameCardStorage\<close> that succeeded and not yet closed): each call
  counts for what the platform answered to it, from the calls made before it.
\<close>

definition heap_delta :: "platform \<Rightarrow> call list \<Rightarrow> call \<Rightarrow> int" where
  "heap_delta P h c =
     (case c of
        Calloc n m \<Rightarrow> if calloc P h n m then 1 else 0
      | Malloc n \<Rightarrow> if malloc P h n = None then 0 else 1
      | Free \<Rightarrow> - 1
      | _ \<Rightarrow> 0)"

primrec heap_live :: "platform \<Rightarrow> call list \<Rightarrow> int" where
  "heap_live P [] = 0"
| "heap_live P (c # h) = heap_live P h + heap_delta P h c"

definition storage_delta :: "platform \<Rightarrow> call list \<Rightarrow> call \<Rightarrow> int" where
  "storage_delta P h c =
     (case c of
        FsOpenGameCardStorage handle part \<Rightarrow>
          if R_SUCCEEDED (fst (fsOpenGameCardStorage P h handle part)) then 1 else 0
      | FsStorageClose storage \<Rightarrow> - 1
      | _ \<Rightarrow> 0)"

primrec storage_live :: "platform \<Rightarrow> call list \<Rightarrow> int" where
  "storage_live P [] = 0"
| "storage_live P (c # h) = storage_live P h + storage_delta P h c"

text \<open>
  The heap buffers the session holds: the root header, the array of partitions and the
  header of each partition. The storages it holds: \<open>g_gameCardStorage\<close> when active.
\<close>

definition cached_buffers :: "gc_state \<Rightarrow> int" where
  "cached_buffers s =
     (if g_gameCardHfsRootHeader s = None then 0 else 1) +
     (case g_gameCardHfsPartitions s of
        None \<Rightarrow> 0
      | Some ps \<Rightarrow> 1 + int (length (filter (\<lambda>p. pi_header p \<noteq> None) ps)))"

definition open_storages :: "gc_state \<Rightarrow> int" where
  "open_storages s = (if serviceIsActive (g_gameCardStorage s) then 1 else 0)"

text \<open>
  \<open>ledger P s s'\<close>: between \<open>s\<close> and \<open>s'\<close> the live heap buffers changed as the buffers the
  session holds, and the open storages as the storages it holds: nothing was allocated or
  opened and then forgotten, nothing held was forgotten without being released.
\<close>

definition ledger :: "platform \<Rightarrow> gc_state \<Rightarrow> gc_state \<Rightarrow> bool" where
  "ledger P s s' =
     (heap_live P (calls s') - cached_buffers s' = heap_live P (calls s) - cached_buffers s \<and>
      storage_live P (calls s') - open_storages s' = storage_live P (calls s) - open_storages s)"

text \<open>A storage that was opened with success is active.\<close>

definition storage_ok :: "platform \<Rightarrow> bool" where
  "storage_ok P =
     (\<forall>h handle part.
        R_SUCCEEDED (fst (fsOpenGameCardStorage P h handle part)) \<longrightarrow>
        serviceIsActive (snd (fsOpenGameCardStorage P h handle part)))"

lemma ledger_refl: "ledger P s s"
  by (simp add: ledger_def)

lemma ledger_trans: "ledger P s t \<Longrightarrow> ledger P t u \<Longrightarrow> ledger P s u"
  by (simp add: ledger_def)

lemma ledger_same:
  assumes "calls s' = calls s" "g_gameCardStorage s' = g_gameCardStorage s"
    "g_gameCardHfsRootHeader s' = g_gameCardHfsRootHeader s"
    "g_gameCardHfsPartitions s' = g_gameCardHfsPartitions s"
  shows "ledger P s s'"
  using assms by (simp add: ledger_def cached_buffers_def open_storages_def)

lemma ledger_log_call:
  assumes "heap_delta P (calls s) c = 0" "storage_delta P (calls s) c = 0"
  shows "ledger P s (log_call c s)"
  using assms by (simp add: ledger_def cached_buffers_def open_storages_def log_call_def)

lemma ledger_gamecardCloseHandle: "ledger P s (gamecardCloseHandle s)"
  by (simp add: ledger_def cached_buffers_def open_storages_def gamecardCloseHandle_def log_call_def
      heap_delta_def storage_delta_def)

lemma ledger_gamecardCloseStorageArea: "ledger P s (gamecardCloseStorageArea s)"
  by (simp add: ledger_def cached_buffers_def open_storages_def gamecardCloseStorageArea_def
      gamecardCloseHandle_def log_call_def heap_delta_def storage_delta_def Let_def serviceIsActive_def)

lemma ledger_gamecardGetHandle_loop:
  "ledger P s (snd (snd (gamecardGetHandle_loop P n rc1 rc2 s)))"
proof (induction n arbitrary: rc1 rc2 s)
  case 0
  show ?case by (simp add: ledger_refl)
next
  case (Suc n)
  obtain rc1' tmp where op: "fsOpenGameCardStorage P (calls s) (g_gameCardHandle s) 0 = (rc1', tmp)"
    by (cases "fsOpenGameCardStorage P (calls s) (g_gameCardHandle s) 0")
  show ?case
  proof (cases "R_SUCCEEDED rc1'")
    case True
    with op show ?thesis
      by (simp add: Let_def ledger_def cached_buffers_def open_storages_def log_call_def
          heap_delta_def storage_delta_def)
  next
    case False
    define s2 where "s2 = gamecardCloseHandle (log_call (FsOpenGameCardStorage (g_gameCardHandle s) 0) s)"
    obtain rc2' h where gh: "fsDeviceOperatorGetGameCardHandle P (calls s2) = (rc2', h)"
      by (cases "fsDeviceOperatorGetGameCardHandle P (calls s2)")
    define s4 where "s4 = (if R_SUCCEEDED rc2'
        then (log_call FsDeviceOperatorGetGameCardHandle s2)\<lparr>g_gameCardHandle := h\<rparr>
        else log_call FsDeviceOperatorGetGameCardHandle s2)"
    have f4: "ledger P s s4"
      using op False
      by (simp add: s4_def s2_def ledger_def cached_buffers_def open_storages_def
          gamecardCloseHandle_def log_call_def heap_delta_def storage_delta_def)
    from op False gh have "gamecardGetHandle_loop P (Suc n) rc1 rc2 s = gamecardGetHandle_loop P n rc1' rc2' s4"
      by (auto simp: Let_def s2_def s4_def split: if_splits)
    moreover have "ledger P s4 (snd (snd (gamecardGetHandle_loop P n rc1' rc2' s4)))" by (rule Suc.IH)
    ultimately show ?thesis using f4 by (auto intro: ledger_trans)
  qed
qed

lemma ledger_gamecardGetHandle: "ledger P s (snd (gamecardGetHandle P s))"
proof (cases "g_gameCardInserted s")
  case False
  then show ?thesis by (simp add: gamecardGetHandle_def ledger_refl)
next
  case True
  obtain rc1 rc2 s1 where loop: "gamecardGetHandle_loop P 10 0 0 s = (rc1, rc2, s1)"
    by (cases "gamecardGetHandle_loop P 10 0 0 s") auto
  from ledger_gamecardGetHandle_loop [of P s 10 0 0] loop have "ledger P s s1" by simp
  moreover have "ledger P s1 (gamecardCloseHandle s1)" by (rule ledger_gamecardCloseHandle)
  ultimately show ?thesis using True loop
    by (auto simp: gamecardGetHandle_def intro: ledger_trans)
qed

lemma g_gameCardStorage_gamecardGetHandle_loop:
  "g_gameCardStorage (snd (snd (gamecardGetHandle_loop P n rc1 rc2 s))) = g_gameCardStorage s"
proof (induction n arbitrary: rc1 rc2 s)
  case 0
  show ?case by simp
next
  case (Suc n)
  obtain rc1' tmp where op: "fsOpenGameCardStorage P (calls s) (g_gameCardHandle s) 0 = (rc1', tmp)"
    by (cases "fsOpenGameCardStorage P (calls s) (g_gameCardHandle s) 0")
  show ?case
  proof (cases "R_SUCCEEDED rc1'")
    case True
    with op show ?thesis by (simp add: Let_def log_call_def)
  next
    case False
    define s2 where "s2 = gamecardCloseHandle (log_call (FsOpenGameCardStorage (g_gameCardHandle s) 0) s)"
    obtain rc2' h where gh: "fsDeviceOperatorGetGameCardHandle P (calls s2) = (rc2', h)"
      by (cases "fsDeviceOperatorGetGameCardHandle P (calls s2)")
    define s4 where "s4 = (if R_SUCCEEDED rc2'
        then (log_call FsDeviceOperatorGetGameCardHandle s2)\<lparr>g_gameCardHandle := h\<rparr>
        else log_call FsDeviceOperatorGetGameCardHandle s2)"
    have f4: "g_gameCardStorage s4 = g_gameCardStorage s"
      by (simp add: s4_def s2_def gamecardCloseHandle_def log_call_def)
    from op False gh have "gamecardGetHandle_loop P (Suc n) rc1 rc2 s = gamecardGetHandle_loop P n rc1' rc2' s4"
      by (auto simp: Let_def s2_def s4_def split: if_splits)
    with Suc.IH [of rc1' rc2' s4] f4 show ?thesis by simp
  qed
qed

lemma g_gameCardStorage_gamecardGetHandle:
  "g_gameCardStorage (snd (gamecardGetHandle P s)) = g_gameCardStorage s"
  using g_gameCardStorage_gamecardGetHandle_loop [of P 10 0 0 s]
  by (auto simp: gamecardGetHandle_def gamecardCloseHandle_def log_call_def split: prod.splits)

lemma ledger_gamecardOpenStorageArea:
  assumes ok: "storage_ok P"
  shows "ledger P s (snd (gamecardOpenStorageArea P s area))"
proof -
  define s1 where "s1 = gamecardCloseStorageArea s"
  have a: "ledger P s s1" unfolding s1_def by (rule ledger_gamecardCloseStorageArea)
  have z1: "g_gameCardStorage s1 = 0" by (simp add: s1_def gamecardCloseStorageArea_fields)
  obtain okh s2 where gh: "gamecardGetHandle P s1 = (okh, s2)" by (cases "gamecardGetHandle P s1")
  from ledger_gamecardGetHandle [of P s1] gh have b: "ledger P s1 s2" by simp
  from a b have c: "ledger P s s2" by (rule ledger_trans)
  from g_gameCardStorage_gamecardGetHandle [of P s1] gh z1 have z2: "g_gameCardStorage s2 = 0" by simp
  obtain rc storage where op: "fsOpenGameCardStorage P (calls s2) (g_gameCardHandle s2) (ucast (area - 1)) = (rc, storage)"
    by (cases "fsOpenGameCardStorage P (calls s2) (g_gameCardHandle s2) (ucast (area - 1))")
  define s3 where "s3 = log_call (FsOpenGameCardStorage (g_gameCardHandle s2) (ucast (area - 1))) s2"
  have d: "ledger P s2 (gamecardCloseHandle s3)" if "R_FAILED rc"
    using that op z2
    by (simp add: ledger_def cached_buffers_def open_storages_def gamecardCloseHandle_def s3_def
        log_call_def heap_delta_def storage_delta_def R_FAILED_def R_SUCCEEDED_def serviceIsActive_def)
  have e: "ledger P s2 (s3\<lparr>g_gameCardStorage := storage, g_gameCardStorageCurrentArea := area\<rparr>)"
    if "\<not> R_FAILED rc"
  proof -
    from that op ok have "serviceIsActive storage"
      unfolding storage_ok_def R_FAILED_def R_SUCCEEDED_def
      by (metis fst_conv snd_conv)
    with that op z2 show ?thesis
      by (simp add: ledger_def cached_buffers_def open_storages_def s3_def
          log_call_def heap_delta_def storage_delta_def R_FAILED_def R_SUCCEEDED_def serviceIsActive_def)
  qed
  show ?thesis
  proof (cases "\<not> g_gameCardInserted s \<or>
         (area \<noteq> GameCardStorageArea_Normal \<and> area \<noteq> GameCardStorageArea_Secure)")
    case True
    then have "gamecardOpenStorageArea P s area = (False, s)"
      unfolding gamecardOpenStorageArea_def by (rule if_P)
    then show ?thesis by (simp add: ledger_refl)
  next
    case c1: False
    show ?thesis
    proof (cases "g_gameCardHandle s \<noteq> 0 \<and> serviceIsActive (g_gameCardStorage s) \<and>
              g_gameCardStorageCurrentArea s = area")
      case True
      then have "gamecardOpenStorageArea P s area = (True, s)"
        unfolding gamecardOpenStorageArea_def if_not_P [OF c1] by (rule if_P)
      then show ?thesis by (simp add: ledger_refl)
    next
      case c2: False
      have r: "gamecardOpenStorageArea P s area =
        (if \<not> okh then (False, s2)
         else if R_FAILED rc then (False, gamecardCloseHandle s3)
         else (True, s3\<lparr>g_gameCardStorage := storage, g_gameCardStorageCurrentArea := area\<rparr>))"
        apply (simp only: gamecardOpenStorageArea_def if_not_P [OF c1] if_not_P [OF c2])
        apply (simp add: Let_def s1_def [symmetric] gh op s3_def)
        done
      show ?thesis
        unfolding r using c d e by (auto intro: ledger_trans)
    qed
  qed
qed

lemma ledger_gamecardReadStorageArea:
  assumes ok: "storage_ok P"
  shows "ledger P s (snd (snd (gamecardReadStorageArea P s mem out read_size offset lock)))"
proof (rule gamecardReadStorageArea_rel [where R = "ledger P"])
  show "ledger P s s" for s by (rule ledger_refl)
  show "ledger P s t \<Longrightarrow> ledger P t u \<Longrightarrow> ledger P s u" for s t u by (rule ledger_trans)
  show "ledger P s (snd (gamecardOpenStorageArea P s a))" for s a
    by (rule ledger_gamecardOpenStorageArea [OF ok])
  show "ledger P s (log_call (FsStorageRead st off sz) s)" for s st off sz
    by (rule ledger_log_call) (simp_all add: heap_delta_def storage_delta_def)
  show "ledger P s (s\<lparr>g_gameCardReadBuf := b\<rparr>)" for s b by (rule ledger_same) simp_all
qed

subsection \<open>What \<open>gamecardFreeInfo\<close> releases\<close>

text \<open>
  The array of partitions, when there is one, has as many elements as the root header has
  entries: this is how \<open>gamecardLoadInfo\<close> allocates it, and what the loop of
  \<open>gamecardFreeInfo\<close> relies on.
\<close>

definition cache_wf :: "gc_state \<Rightarrow> bool" where
  "cache_wf s =
     (case g_gameCardHfsPartitions s of
        None \<Rightarrow> True
      | Some ps \<Rightarrow>
          (case g_gameCardHfsRootHeader s of
             None \<Rightarrow> False
           | Some root \<Rightarrow> length ps = unat (hfs_entry_count root)))"

lemma heap_live_gamecardFreeInfo_headers:
  "heap_live P (calls (gamecardFreeInfo_headers ps n s)) =
     heap_live P (calls s) - int (length (filter (\<lambda>p. pi_header p \<noteq> None) (take n ps)))"
  "storage_live P (calls (gamecardFreeInfo_headers ps n s)) = storage_live P (calls s)"
proof (induction n)
  case 0
  show "heap_live P (calls (gamecardFreeInfo_headers ps 0 s)) =
     heap_live P (calls s) - int (length (filter (\<lambda>p. pi_header p \<noteq> None) (take 0 ps)))"
    "storage_live P (calls (gamecardFreeInfo_headers ps 0 s)) = storage_live P (calls s)"
    by (simp_all add: gamecardFreeInfo_headers_def)
next
  case (Suc n)
  have e: "gamecardFreeInfo_headers ps (Suc n) s =
    (if n < length ps \<and> pi_header (ps ! n) \<noteq> None
     then log_call Free (gamecardFreeInfo_headers ps n s) else gamecardFreeInfo_headers ps n s)"
    by (auto simp: gamecardFreeInfo_headers_def)
  show "heap_live P (calls (gamecardFreeInfo_headers ps (Suc n) s)) =
     heap_live P (calls s) - int (length (filter (\<lambda>p. pi_header p \<noteq> None) (take (Suc n) ps)))"
  proof (cases "n < length ps")
    case True
    then show ?thesis
      unfolding e using Suc(1)
      by (simp add: log_call_def heap_delta_def take_Suc_conv_app_nth)
  next
    case False
    then show ?thesis
      unfolding e using Suc(1) by simp
  qed
  show "storage_live P (calls (gamecardFreeInfo_headers ps (Suc n) s)) = storage_live P (calls s)"
    unfolding e using Suc(2) by (simp add: log_call_def storage_delta_def)
qed

lemma ledger_gamecardFreeInfo:
  assumes "cache_wf s"
  shows "heap_live P (calls (gamecardFreeInfo s)) = heap_live P (calls s) - cached_buffers s"
    "storage_live P (calls (gamecardFreeInfo s)) = storage_live P (calls s) - open_storages s"
proof -
  define s1 where "s1 = s\<lparr>g_gameCardHeader := memset (g_gameCardHeader s) 0 0 (unat sizeof_GameCardHeader),
                  g_gameCardStorageNormalAreaSize := 0,
                  g_gameCardStorageSecureAreaSize := 0,
                  g_gameCardCapacity := 0\<rparr>"
  define s2 where "s2 = (case g_gameCardHfsRootHeader s1 of
                  None \<Rightarrow> s1
                | Some fs_header \<Rightarrow>
                    let t = (case g_gameCardHfsPartitions s1 of
                               None \<Rightarrow> s1
                             | Some ps \<Rightarrow> gamecardFreeInfo_headers ps (unat (hfs_entry_count fs_header)) s1)
                    in (log_call Free t)\<lparr>g_gameCardHfsRootHeader := None\<rparr>)"
  define s3 where "s3 = (case g_gameCardHfsPartitions s2 of
                  None \<Rightarrow> s2
                | Some ps \<Rightarrow> (log_call Free s2)\<lparr>g_gameCardHfsPartitions := None\<rparr>)"
  have e: "gamecardFreeInfo s = (gamecardCloseStorageArea s3)\<lparr>g_gameCardInfoLoaded := False\<rparr>"
    unfolding gamecardFreeInfo_def s3_def s2_def s1_def Let_def by (rule refl)
  have c1: "calls s1 = calls s" "g_gameCardStorage s1 = g_gameCardStorage s"
    "g_gameCardHfsRootHeader s1 = g_gameCardHfsRootHeader s"
    "g_gameCardHfsPartitions s1 = g_gameCardHfsPartitions s"
    by (simp_all add: s1_def)
  have h3: "heap_live P (calls s3) = heap_live P (calls s) - cached_buffers s"
    using assms
    by (auto simp: s3_def s2_def c1 cache_wf_def cached_buffers_def Let_def log_call_def
        heap_delta_def heap_live_gamecardFreeInfo_headers split: option.splits)
  have g3: "storage_live P (calls s3) = storage_live P (calls s)"
    "g_gameCardStorage s3 = g_gameCardStorage s"
    by (auto simp: s3_def s2_def c1 Let_def log_call_def storage_delta_def
        heap_live_gamecardFreeInfo_headers split: option.splits)
  have cl: "heap_live P (calls (gamecardCloseStorageArea t)) = heap_live P (calls t)"
    "storage_live P (calls (gamecardCloseStorageArea t)) = storage_live P (calls t) - open_storages t" for t
    by (simp_all add: gamecardCloseStorageArea_def gamecardCloseHandle_def log_call_def Let_def
        heap_delta_def storage_delta_def open_storages_def)
  show "heap_live P (calls (gamecardFreeInfo s)) = heap_live P (calls s) - cached_buffers s"
    unfolding e using h3 by (simp add: cl)
  show "storage_live P (calls (gamecardFreeInfo s)) = storage_live P (calls s) - open_storages s"
    unfolding e using g3 by (simp add: cl open_storages_def)
qed

subsection \<open>What \<open>gamecardLoadInfo\<close> allocates\<close>

lemma filter_count_update:
  "i < length xs \<Longrightarrow>
   int (length (filter Q (xs[i := y]))) =
   int (length (filter Q xs)) + (if Q y then 1 else 0) - (if Q (xs ! i) then 1 else 0)"
proof (induction xs arbitrary: i)
  case Nil
  then show ?case by simp
next
  case (Cons x xs)
  show ?case
  proof (cases i)
    case 0
    then show ?thesis by simp
  next
    case (Suc j)
    with Cons.prems have "j < length xs" by simp
    from Cons.IH [OF this] Suc show ?thesis by (auto split: if_splits)
  qed
qed

lemma cached_buffers_set_partition:
  assumes "g_gameCardHfsPartitions s = Some ps" "i < length ps"
  shows "cached_buffers (set_partition i f s) =
         cached_buffers s + (if pi_header (f (ps ! i)) \<noteq> None then 1 else 0) -
         (if pi_header (ps ! i) \<noteq> None then 1 else 0)"
  using assms filter_count_update [of i ps "\<lambda>p. pi_header p \<noteq> None" "f (ps ! i)"]
  by (simp add: cached_buffers_def set_partition_def del: not_None_eq)

lemma ledger_set_partition:
  assumes "g_gameCardHfsPartitions s = Some ps" "i < length ps"
    "(pi_header (f (ps ! i)) = None) = (pi_header (ps ! i) = None)"
  shows "ledger P s (set_partition i f s)"
  using assms(3) cached_buffers_set_partition [OF assms(1,2), of f]
  by (simp add: ledger_def open_storages_def set_partition_def del: not_None_eq)

lemma ledger_alloc_partition_header:
  assumes "g_gameCardHfsPartitions s = Some ps" "i < length ps" "pi_header (ps ! i) = None"
    "calloc P (calls s) n m"
  shows "ledger P s (set_partition i (\<lambda>p. p\<lparr>pi_header := Some b\<rparr>) (log_call (Calloc n m) s))"
proof -
  have "g_gameCardHfsPartitions (log_call (Calloc n m) s) = Some ps"
    using assms(1) by (simp add: log_call_def)
  from cached_buffers_set_partition [OF this assms(2), of "\<lambda>p. p\<lparr>pi_header := Some b\<rparr>"] assms(3,4)
  have "cached_buffers (set_partition i (\<lambda>p. p\<lparr>pi_header := Some b\<rparr>) (log_call (Calloc n m) s)) =
        cached_buffers (log_call (Calloc n m) s) + 1" by simp
  moreover have "cached_buffers (log_call (Calloc n m) s) = cached_buffers s"
    by (simp add: cached_buffers_def log_call_def)
  ultimately show ?thesis
    using assms(4)
    by (simp add: ledger_def open_storages_def set_partition_def log_call_def heap_delta_def
        storage_delta_def)
qed

lemma ledger_failed_calloc:
  assumes "\<not> calloc P (calls s) n m"
  shows "ledger P s (log_call (Calloc n m) s)"
  using assms by (intro ledger_log_call) (simp_all add: heap_delta_def storage_delta_def)

lemma ledger_read:
  assumes "storage_ok P" "gamecardReadStorageArea P s mem out n off l = (ok, m, s')"
  shows "ledger P s s'"
  using ledger_gamecardReadStorageArea [OF assms(1), of s mem out n off l] assms(2) by simp

lemma partitions_read:
  assumes "gamecardReadStorageArea P s mem out n off l = (ok, m, s')"
  shows "g_gameCardHfsPartitions s' = g_gameCardHfsPartitions s"
  using io_frame_gamecardReadStorageArea [of s P mem out n off l] assms by (simp add: io_frame_def)

lemma ledger_gamecardLoadInfo_partition:
  assumes ok: "storage_ok P" and ps: "g_gameCardHfsPartitions s = Some ps"
    and i: "i < length ps" and un: "pi_header (ps ! i) = None"
  shows "ledger P s (snd (gamecardLoadInfo_partition P fs_header i s)) \<and>
    (\<exists>ps'. g_gameCardHfsPartitions (snd (gamecardLoadInfo_partition P fs_header i s)) = Some ps' \<and>
           length ps' = length ps \<and> drop (Suc i) ps' = drop (Suc i) ps)"
proof -
  define Q where "Q = (\<lambda>t. ledger P s t \<and>
    (\<exists>ps'. g_gameCardHfsPartitions t = Some ps' \<and>
           length ps' = length ps \<and> drop (Suc i) ps' = drop (Suc i) ps))"
  have Q_intro: "Q t" if "ledger P s t" "g_gameCardHfsPartitions t = Some ps'"
      "length ps' = length ps" "drop (Suc i) ps' = drop (Suc i) ps" for t ps'
    using that unfolding Q_def by blast
  have q0: "Q s" using ledger_refl ps by (rule Q_intro) simp_all
  have "Q (snd (gamecardLoadInfo_partition P fs_header i s))"
  proof (cases "gamecardGetHashFileSystemEntryByIndex (Some fs_header) (of_nat i)")
  case None
  then show ?thesis using q0 by (simp add: gamecardLoadInfo_partition_def)
next
  case (Some fs_entry)
  show ?thesis
  proof (cases "entry_size fs_header fs_entry = 0")
    case True
    with Some show ?thesis using q0 by (simp add: gamecardLoadInfo_partition_def)
  next
    case False
    define part_offset where "part_offset = hdr_partition_fs_header_address (g_gameCardHeader s) +
                              hdr_partition_fs_header_size (g_gameCardHeader s) +
                              entry_offset fs_header fs_entry"
    define s1 where "s1 = set_partition i (\<lambda>p. p\<lparr>pi_offset := part_offset,
                                                pi_size := entry_size fs_header fs_entry\<rparr>) s"
    define ps1 where "ps1 = ps[i := (ps ! i)\<lparr>pi_offset := part_offset,
                                              pi_size := entry_size fs_header fs_entry\<rparr>]"
    obtain okr ph s2 where r1: "gamecardReadStorageArea P s1 zero_buffer (Some 0)
                    sizeof_GameCardHashFileSystemHeader part_offset False = (okr, ph, s2)"
      by (cases "gamecardReadStorageArea P s1 zero_buffer (Some 0)
                    sizeof_GameCardHashFileSystemHeader part_offset False") auto
    have p1: "g_gameCardHfsPartitions s1 = Some ps1" by (simp add: s1_def ps1_def set_partition_def ps)
    have l1: "ledger P s s1" unfolding s1_def by (rule ledger_set_partition [OF ps i]) simp
    have p2: "g_gameCardHfsPartitions s2 = Some ps1" using partitions_read [OF r1] p1 by simp
    have l2: "ledger P s s2" using l1 ledger_read [OF ok r1] by (rule ledger_trans)
    have n1: "length ps1 = length ps" "pi_header (ps1 ! i) = None" "drop (Suc i) ps1 = drop (Suc i) ps"
      using i un by (simp_all add: ps1_def)
    have q2: "Q s2" using l2 p2 n1(1,3) by (rule Q_intro)
    define header_size where "header_size = ROUND_UP
                         (sizeof_GameCardHashFileSystemHeader +
                          ucast (hfs_entry_count ph) * sizeof_GameCardHashFileSystemEntry +
                          ucast (hfs_name_table_size ph))
                         GAMECARD_MEDIA_UNIT_SIZE"
    define s3 where "s3 = set_partition i (\<lambda>p. p\<lparr>pi_header_size := header_size\<rparr>) s2"
    define ps3 where "ps3 = ps1[i := (ps1 ! i)\<lparr>pi_header_size := header_size\<rparr>]"
    have p3: "g_gameCardHfsPartitions s3 = Some ps3" by (simp add: s3_def ps3_def set_partition_def p2)
    have n3: "length ps3 = length ps" "pi_header (ps3 ! i) = None" "drop (Suc i) ps3 = drop (Suc i) ps"
      using i n1 by (simp_all add: ps3_def)
    have i3: "i < length ps3" using i n3 by simp
    have l3: "ledger P s s3"
      unfolding s3_def using l2
      by (rule ledger_trans) (rule ledger_set_partition [OF p2], use i n1 in simp_all)
    define s4 where "s4 = log_call (Calloc header_size 1) s3"
    have c3: "calls s3 = calls s2" by (simp add: s3_def set_partition_def)
    have q4: "Q s4" if "\<not> calloc P (calls s2) header_size 1"
    proof -
      from that have "ledger P s3 s4" unfolding s4_def by (intro ledger_failed_calloc) (simp add: c3)
      with l3 have "ledger P s s4" by (rule ledger_trans)
      moreover have "g_gameCardHfsPartitions s4 = Some ps3" by (simp add: s4_def log_call_def p3)
      ultimately show ?thesis using n3(1,3) by (rule Q_intro)
    qed
    define s5 where "s5 = set_partition i (\<lambda>p. p\<lparr>pi_header := Some zero_buffer\<rparr>) s4"
    define ps5 where "ps5 = ps3[i := (ps3 ! i)\<lparr>pi_header := Some zero_buffer\<rparr>]"
    have p5: "g_gameCardHfsPartitions s5 = Some ps5"
      by (simp add: s5_def s4_def ps5_def set_partition_def log_call_def p3)
    have n5: "length ps5 = length ps" "drop (Suc i) ps5 = drop (Suc i) ps" "i < length ps5"
      using i n3 by (simp_all add: ps5_def)
    obtain ok2 hd2 s6 where r2: "gamecardReadStorageArea P s5 zero_buffer (Some 0) header_size part_offset False = (ok2, hd2, s6)"
      by (cases "gamecardReadStorageArea P s5 zero_buffer (Some 0) header_size part_offset False") auto
    have p6: "g_gameCardHfsPartitions s6 = Some ps5" using partitions_read [OF r2] p5 by simp
    have q7: "Q (set_partition i (\<lambda>p. p\<lparr>pi_header := Some hd2\<rparr>) s6)"
      if al: "calloc P (calls s2) header_size 1"
    proof -
      have "ledger P s3 s5"
        unfolding s5_def s4_def
        by (rule ledger_alloc_partition_header [OF p3 i3 n3(2)]) (simp add: c3 al)
      with l3 have "ledger P s s5" by (rule ledger_trans)
      then have "ledger P s s6" using ledger_read [OF ok r2] by (rule ledger_trans)
      moreover have "ledger P s6 (set_partition i (\<lambda>p. p\<lparr>pi_header := Some hd2\<rparr>) s6)"
        by (rule ledger_set_partition [OF p6 n5(3)]) (use n5(3) in \<open>simp add: ps5_def\<close>)
      ultimately have "ledger P s (set_partition i (\<lambda>p. p\<lparr>pi_header := Some hd2\<rparr>) s6)"
        by (rule ledger_trans)
      moreover have "g_gameCardHfsPartitions (set_partition i (\<lambda>p. p\<lparr>pi_header := Some hd2\<rparr>) s6) =
                     Some (ps5[i := (ps5 ! i)\<lparr>pi_header := Some hd2\<rparr>])"
        by (simp add: set_partition_def p6)
      ultimately show ?thesis by (rule Q_intro) (use n5 in simp_all)
    qed
    have c3': "calls (set_partition i f t) = calls t" for f t by (simp add: set_partition_def)
    from Some False r1 r2 show ?thesis
      unfolding gamecardLoadInfo_partition_def
      apply (simp add: Let_def part_offset_def [symmetric] s1_def [symmetric])
      apply (simp add: header_size_def [symmetric] c3' q2)
      apply (simp add: s3_def [symmetric] s4_def [symmetric] s5_def [symmetric] q4 q7)
      done
  qed
qed
  then show ?thesis unfolding Q_def .
qed

lemma ledger_fields:
  assumes "ledger P s t" "calls t' = calls t" "g_gameCardStorage t' = g_gameCardStorage t"
    "g_gameCardHfsRootHeader t' = g_gameCardHfsRootHeader t"
    "g_gameCardHfsPartitions t' = g_gameCardHfsPartitions t"
  shows "ledger P s t'"
  using assms(1) ledger_same [OF assms(2-5), of P] by (rule ledger_trans)

lemma ledger_gamecardLoadInfo_partitions:
  assumes ok: "storage_ok P" and ps: "g_gameCardHfsPartitions s = Some ps"
    and len: "length ps = unat (hfs_entry_count fs_header)"
    and un: "list_all (\<lambda>p. pi_header p = None) (drop i ps)"
  shows "ledger P s (snd (gamecardLoadInfo_partitions P fs_header i s)) \<and>
    (\<exists>ps'. g_gameCardHfsPartitions (snd (gamecardLoadInfo_partitions P fs_header i s)) = Some ps' \<and>
           length ps' = length ps)"
  using ok ps len un
proof (induction P fs_header i s arbitrary: ps rule: gamecardLoadInfo_partitions.induct)
  case (1 P fs_header i s)
  note ok = "1.prems"(1) and ps = "1.prems"(2) and len = "1.prems"(3) and un = "1.prems"(4)
  show ?case
  proof (cases "i < unat (hfs_entry_count fs_header)")
    case False
    then have e: "gamecardLoadInfo_partitions P fs_header i s = (Load_Ok, s\<lparr>g_gameCardInfoLoaded := True\<rparr>)"
      by (subst gamecardLoadInfo_partitions.simps) simp
    show ?thesis unfolding e using ps by (simp add: ledger_same)
  next
    case True
    with len have i: "i < length ps" by simp
    from un i have uni: "pi_header (ps ! i) = None"
      by (simp add: Cons_nth_drop_Suc [symmetric])
    obtain r s1 where p: "gamecardLoadInfo_partition P fs_header i s = (r, s1)"
      by (cases "gamecardLoadInfo_partition P fs_header i s")
    from ledger_gamecardLoadInfo_partition [OF ok ps i uni, of fs_header] p
    obtain ps' where 2: "ledger P s s1" "g_gameCardHfsPartitions s1 = Some ps'"
      "length ps' = length ps" "drop (Suc i) ps' = drop (Suc i) ps" by auto
    show ?thesis
    proof (cases "r = Load_Ok")
      case False
      with True p have e: "gamecardLoadInfo_partitions P fs_header i s = (r, s1)"
        by (subst gamecardLoadInfo_partitions.simps) simp
      show ?thesis unfolding e using 2 by simp
    next
      case rok: True
      with True p have e: "gamecardLoadInfo_partitions P fs_header i s =
                           gamecardLoadInfo_partitions P fs_header (i + 1) s1"
        by (subst gamecardLoadInfo_partitions.simps) simp
      have un': "list_all (\<lambda>p. pi_header p = None) (drop (i + 1) ps')"
        using un i 2(4) by (simp add: Cons_nth_drop_Suc [symmetric])
      have len': "length ps' = unat (hfs_entry_count fs_header)" using 2(3) len by simp
      from "1.IH" [OF True p [symmetric] rok ok 2(2) len' un'] 2(1,3)
      show ?thesis unfolding e by (auto intro: ledger_trans)
    qed
  qed
qed

text \<open>\<open>ledger_post P s t\<close>: what a part of the loading started in \<open>s\<close> leaves in \<open>t\<close>.\<close>

definition ledger_post :: "platform \<Rightarrow> gc_state \<Rightarrow> gc_state \<Rightarrow> bool" where
  "ledger_post P s t = (ledger P s t \<and> cache_wf t)"

lemma ledger_load_partitions_part:
  assumes ok: "storage_ok P" and "g_gameCardHfsPartitions s = None"
    "g_gameCardHfsRootHeader s = Some root"
  shows "ledger_post P s (snd (load_partitions_part P root s))"
proof (cases "calloc P (calls s) (ucast (hfs_entry_count root)) sizeof_GameCardHashFileSystemEntry")
  case False
  then have "ledger P s (log_call (Calloc (ucast (hfs_entry_count root)) sizeof_GameCardHashFileSystemEntry) s)"
    by (rule ledger_failed_calloc)
  with False assms(2) show ?thesis
    by (simp add: load_partitions_part_def Let_def ledger_post_def cache_wf_def log_call_def)
next
  case True
  define s10 where "s10 = (log_call (Calloc (ucast (hfs_entry_count root)) sizeof_GameCardHashFileSystemEntry) s)
     \<lparr>g_gameCardHfsPartitions := Some (replicate (unat (hfs_entry_count root)) zero_partition)\<rparr>"
  have e: "load_partitions_part P root s = gamecardLoadInfo_partitions P root 0 s10"
    using True by (simp add: load_partitions_part_def Let_def s10_def)
  have l10: "ledger P s s10"
    using True assms(2)
    by (simp add: ledger_def s10_def cached_buffers_def open_storages_def log_call_def
        heap_delta_def storage_delta_def zero_partition_def)
  have p10: "g_gameCardHfsPartitions s10 = Some (replicate (unat (hfs_entry_count root)) zero_partition)"
    by (simp add: s10_def)
  have r10: "g_gameCardHfsRootHeader s10 = Some root" using assms(3) by (simp add: s10_def log_call_def)
  from ledger_gamecardLoadInfo_partitions [OF ok p10, of root 0]
  obtain ps' where 1: "ledger P s10 (snd (gamecardLoadInfo_partitions P root 0 s10))"
    "g_gameCardHfsPartitions (snd (gamecardLoadInfo_partitions P root 0 s10)) = Some ps'"
    "length ps' = unat (hfs_entry_count root)"
    by (auto simp: zero_partition_def list_all_iff)
  from gamecardLoadInfo_partitions_result [of s10 P root 0] r10
  have 2: "g_gameCardHfsRootHeader (snd (gamecardLoadInfo_partitions P root 0 s10)) = Some root"
    by (auto simp: cache_frame_def split: if_splits)
  show ?thesis
    unfolding e ledger_post_def using l10 1 2
    by (auto simp: cache_wf_def intro: ledger_trans)
qed

lemma ledger_post_failure:
  assumes "ledger P s t" "g_gameCardHfsPartitions t = None"
  shows "ledger_post P s t"
  using assms by (simp add: ledger_post_def cache_wf_def)

lemma ledger_post_from:
  assumes "ledger_post P s' t" "ledger P s s'"
  shows "ledger_post P s t"
  using assms by (auto simp: ledger_post_def intro: ledger_trans)

lemma ledger_load_root_part:
  assumes ok: "storage_ok P" and "g_gameCardHfsPartitions s = None" "g_gameCardHfsRootHeader s = None"
  shows "ledger_post P s (snd (load_root_part P s))"
proof -
  define root_size where "root_size = hdr_partition_fs_header_size (g_gameCardHeader s)"
  show ?thesis
  proof (cases "calloc P (calls s) root_size 1")
    case False
    then have "ledger P s (log_call (Calloc root_size 1) s)" by (rule ledger_failed_calloc)
    with False assms(2) show ?thesis
      by (auto simp: load_root_part_def Let_def root_size_def log_call_def intro!: ledger_post_failure)
  next
    case al: True
    define s7 where "s7 = (log_call (Calloc root_size 1) s)\<lparr>g_gameCardHfsRootHeader := Some zero_buffer\<rparr>"
    obtain okr root s8' where r2:
      "gamecardReadStorageArea P s7 zero_buffer (Some 0) root_size
         (hdr_partition_fs_header_address (g_gameCardHeader s)) False = (okr, root, s8')"
      by (cases "gamecardReadStorageArea P s7 zero_buffer (Some 0) root_size
         (hdr_partition_fs_header_address (g_gameCardHeader s)) False") auto
    from gamecardReadStorageArea_dest [OF r2] have f8: "io_frame s7 s8'" .
    define s8 where "s8 = s8'\<lparr>g_gameCardHfsRootHeader := Some root\<rparr>"
    have l7: "ledger P s s7"
      using al assms(2,3)
      by (simp add: ledger_def s7_def cached_buffers_def open_storages_def log_call_def
          heap_delta_def storage_delta_def)
    have l8': "ledger P s s8'" using l7 ledger_read [OF ok r2] by (rule ledger_trans)
    have r8': "g_gameCardHfsRootHeader s8' = Some zero_buffer" "g_gameCardHfsPartitions s8' = None"
      using f8 assms(2) by (simp_all add: io_frame_def s7_def log_call_def)
    have "ledger P s8' s8"
      using r8' by (simp add: ledger_def s8_def cached_buffers_def open_storages_def)
    with l8' have l8: "ledger P s s8" by (rule ledger_trans)
    have p8: "g_gameCardHfsPartitions s8 = None" "g_gameCardHfsRootHeader s8 = Some root"
      "g_gameCardHeader s8 = g_gameCardHeader s"
      using r8' f8 by (simp_all add: s8_def io_frame_def s7_def log_call_def)
    have e: "load_root_part P s =
      (if \<not> okr then (Failed_read_root_header, s8)
       else if bswap32 (hfs_magic root) \<noteq> GAMECARD_HFS0_MAGIC then (Invalid_root_magic, s8)
       else if hfs_entry_count root = 0 \<or> hfs_name_table_size root = 0 \<or>
               sizeof_GameCardHashFileSystemHeader +
               ucast (hfs_entry_count root) * sizeof_GameCardHashFileSystemEntry +
               ucast (hfs_name_table_size root) > hdr_partition_fs_header_size (g_gameCardHeader s)
       then (Invalid_root_counts, s8)
       else load_partitions_part P root s8)"
    proof -
      have h7: "g_gameCardHeader s7 = g_gameCardHeader s" by (simp add: s7_def log_call_def)
      show ?thesis
        using al
        apply (simp add: load_root_part_def Let_def root_size_def [symmetric] s7_def [symmetric] h7 split del: if_split)
        apply (simp add: r2 split del: if_split)
        apply (simp only: s8_def [symmetric] p8(3))
        done
    qed
    have f: "ledger_post P s s8" using l8 p8(1) by (rule ledger_post_failure)
    have g: "ledger_post P s (snd (load_partitions_part P root s8))"
      using ledger_load_partitions_part [OF ok p8(1,2)] l8 by (rule ledger_post_from)
    show ?thesis unfolding e using f g by simp
  qed
qed

lemma ledger_load_capacity_part:
  assumes ok: "storage_ok P" and "g_gameCardHfsPartitions s = None" "g_gameCardHfsRootHeader s = None"
  shows "ledger_post P s (snd (load_capacity_part sx P s))"
proof (cases "gamecardGetCapacityFromRomSizeValue (hdr_rom_size (g_gameCardHeader s)) = 0")
  case True
  then show ?thesis
    using assms(2)
    by (auto simp: load_capacity_part_def Let_def intro!: ledger_post_failure ledger_same)
next
  case False
  define s3 where "s3 = s\<lparr>g_gameCardCapacity :=
                  gamecardGetCapacityFromRomSizeValue (hdr_rom_size (g_gameCardHeader s))\<rparr>"
  define s4 where "s4 = log_call UtilsGetCustomFirmwareType s3"
  define s5 where "s5 = (if utilsGetCustomFirmwareType P (calls s3) = sx
                  then s4\<lparr>g_gameCardStorageSecureAreaSize :=
                            (g_gameCardCapacity s4 -
                             (g_gameCardCapacity s4 div GAMECARD_ECC_BLOCK_SIZE) * GAMECARD_ECC_DATA_SIZE) -
                            g_gameCardStorageNormalAreaSize s4\<rparr>
                  else s4)"
  have e: "load_capacity_part sx P s = load_root_part P s5"
    unfolding load_capacity_part_def s5_def s4_def s3_def Let_def using False by simp
  have l5: "ledger P s s5"
    by (simp add: ledger_def s5_def s4_def s3_def cached_buffers_def open_storages_def log_call_def
        heap_delta_def storage_delta_def)
  have p5: "g_gameCardHfsPartitions s5 = None" "g_gameCardHfsRootHeader s5 = None"
    using assms(2,3) by (simp_all add: s5_def s4_def s3_def log_call_def)
  show ?thesis
    unfolding e using ledger_load_root_part [OF ok p5] l5 by (rule ledger_post_from)
qed

lemma ledger_gamecardGetStorageAreasSizes_area:
  assumes ok: "storage_ok P"
  shows "ledger P s (snd (gamecardGetStorageAreasSizes_area P s area))"
proof -
  obtain oko s1 where o: "gamecardOpenStorageArea P s area = (oko, s1)"
    by (cases "gamecardOpenStorageArea P s area")
  from ledger_gamecardOpenStorageArea [OF ok, of s area] o have l1: "ledger P s s1" by simp
  define s3 where "s3 = gamecardCloseStorageArea (log_call (FsStorageGetSize (g_gameCardStorage s1)) s1)"
  have "ledger P s1 (log_call (FsStorageGetSize (g_gameCardStorage s1)) s1)"
    by (rule ledger_log_call) (simp_all add: heap_delta_def storage_delta_def)
  then have "ledger P s1 s3"
    unfolding s3_def using ledger_gamecardCloseStorageArea by (rule ledger_trans)
  with l1 have l3: "ledger P s s3" by (rule ledger_trans)
  have l3': "ledger P s (s3\<lparr>g_gameCardStorageNormalAreaSize := a\<rparr>)"
    "ledger P s (s3\<lparr>g_gameCardStorageSecureAreaSize := b\<rparr>)"
    "ledger P s (s3\<lparr>g_gameCardStorageNormalAreaSize := a, g_gameCardStorageSecureAreaSize := b\<rparr>)" for a b
    by (rule ledger_fields [OF l3]; simp)+
  show ?thesis
    using o l1 l3'
    by (auto simp: gamecardGetStorageAreasSizes_area_def Let_def s3_def [symmetric]
        split: prod.splits bool.splits)
qed

lemma ledger_gamecardGetStorageAreasSizes:
  assumes ok: "storage_ok P"
  shows "ledger P s (snd (gamecardGetStorageAreasSizes P s))"
proof -
  obtain oka s1 where a: "gamecardGetStorageAreasSizes_area P s GameCardStorageArea_Normal = (oka, s1)"
    by (cases "gamecardGetStorageAreasSizes_area P s GameCardStorageArea_Normal")
  from ledger_gamecardGetStorageAreasSizes_area [OF ok, of s GameCardStorageArea_Normal] a
  have l1: "ledger P s s1" by simp
  with ledger_gamecardGetStorageAreasSizes_area [OF ok, of s1 GameCardStorageArea_Secure]
  have l2: "ledger P s (snd (gamecardGetStorageAreasSizes_area P s1 GameCardStorageArea_Secure))"
    by (blast intro: ledger_trans)
  show ?thesis
    using a l1 l2
    by (auto simp: gamecardGetStorageAreasSizes_def ledger_refl split: prod.splits bool.splits)
qed

lemma ledger_gamecardLoadInfo_steps:
  assumes ok: "storage_ok P" and "g_gameCardHfsPartitions s = None" "g_gameCardHfsRootHeader s = None"
  shows "ledger_post P s (snd (gamecardLoadInfo_steps sx P s))"
proof -
  obtain ok0 s1 where g: "gamecardGetStorageAreasSizes P s = (ok0, s1)"
    by (cases "gamecardGetStorageAreasSizes P s")
  from gamecardGetStorageAreasSizes_dest [OF g] have f1: "flags_frame s s1" .
  from ledger_gamecardGetStorageAreasSizes [OF ok, of s] g have l1: "ledger P s s1" by simp
  obtain ok1 header s2' where r1:
    "gamecardReadStorageArea P s1 (g_gameCardHeader s1) (Some 0) sizeof_GameCardHeader 0 False = (ok1, header, s2')"
    by (cases "gamecardReadStorageArea P s1 (g_gameCardHeader s1) (Some 0) sizeof_GameCardHeader 0 False") auto
  from gamecardReadStorageArea_dest [OF r1] have f2: "io_frame s1 s2'" .
  define s2 where "s2 = s2'\<lparr>g_gameCardHeader := header\<rparr>"
  have p1: "g_gameCardHfsPartitions s1 = None" "g_gameCardHfsRootHeader s1 = None"
    using f1 assms(2,3) by (simp_all add: flags_frame_def)
  have p2: "g_gameCardHfsPartitions s2 = None" "g_gameCardHfsRootHeader s2 = None"
    "g_gameCardHeader s2 = header"
    using p1 f2 by (simp_all add: s2_def io_frame_def)
  have "ledger P s s2'" using l1 ledger_read [OF ok r1] by (rule ledger_trans)
  then have l2: "ledger P s s2" by (rule ledger_fields) (simp_all add: s2_def)
  have e: "gamecardLoadInfo_steps sx P s =
    (if \<not> ok0 then (Failed_storage_area_sizes, s1)
     else if \<not> ok1 then (Failed_read_header, s2)
     else if bswap32 (hdr_magic header) \<noteq> GAMECARD_HEAD_MAGIC then (Invalid_header_magic, s2)
     else load_capacity_part sx P s2)"
    using g r1 by (simp add: gamecardLoadInfo_steps_parts Let_def s2_def)
  have a: "ledger_post P s s1" using l1 p1(1) by (rule ledger_post_failure)
  have b: "ledger_post P s s2" using l2 p2(1) by (rule ledger_post_failure)
  have c: "ledger_post P s (snd (load_capacity_part sx P s2))"
    using ledger_load_capacity_part [OF ok p2(1,2)] l2 by (rule ledger_post_from)
  show ?thesis unfolding e using a b c by simp
qed

text \<open>
  A loading that fails, started with nothing cached, ends with as many live heap buffers
  as it started with, and with the storage closed.
\<close>

lemma gamecardLoadInfo_failure_releases:
  assumes ok: "storage_ok P" and "\<not> g_gameCardInfoLoaded s"
    and "g_gameCardHfsPartitions s = None" "g_gameCardHfsRootHeader s = None"
    and f: "fst (gamecardLoadInfo_steps sx P s) \<noteq> Load_Ok"
  shows "heap_live P (calls (gamecardLoadInfo sx P s)) = heap_live P (calls s)"
    "storage_live P (calls (gamecardLoadInfo sx P s)) = storage_live P (calls s) - open_storages s"
proof -
  define t where "t = snd (gamecardLoadInfo_steps sx P s)"
  from ledger_gamecardLoadInfo_steps [OF ok assms(3,4), of sx]
  have l: "ledger P s t" and wf: "cache_wf t" by (simp_all add: ledger_post_def t_def)
  have e: "gamecardLoadInfo sx P s = gamecardFreeInfo t"
    unfolding t_def by (rule gamecardLoadInfo_failure [OF assms(2) f])
  have c0: "cached_buffers s = 0" using assms(3,4) by (simp add: cached_buffers_def)
  show "heap_live P (calls (gamecardLoadInfo sx P s)) = heap_live P (calls s)"
    unfolding e ledger_gamecardFreeInfo(1) [OF wf] using l c0 by (simp add: ledger_def)
  show "storage_live P (calls (gamecardLoadInfo sx P s)) = storage_live P (calls s) - open_storages s"
    unfolding e ledger_gamecardFreeInfo(2) [OF wf] using l by (simp add: ledger_def)
qed

subsection \<open>The detection thread after a load that failed\<close>

text \<open>The calls that do not touch the card: asking whether it is inserted, closing no handle.\<close>

definition quiet_call :: "call \<Rightarrow> bool" where
  "quiet_call c = (c = FsDeviceOperatorIsGameCardInserted \<or> c = SvcCloseHandle 0)"

lemma calls_gamecardFreeInfo_freed:
  assumes "info_freed s"
  shows "calls (gamecardFreeInfo s) = SvcCloseHandle 0 # calls s"
  using assms
  by (simp add: info_freed_def gamecardFreeInfo_def Let_def gamecardCloseStorageArea_def
      gamecardCloseHandle_def log_call_def serviceIsActive_def)

lemma info_freed_updates:
  "info_freed (log_call c s) = info_freed s"
  "info_freed (s\<lparr>g_gameCardInserted := b\<rparr>) = info_freed s"
  by (simp_all add: info_freed_def log_call_def)

lemma gamecardDetectionThreadFunc_loop_quiet:
  assumes ins: "\<And>h. fsDeviceOperatorIsGameCardInserted P h = (0, True)"
    and "info_freed s"
  shows "info_freed (fst (snd (gamecardDetectionThreadFunc_loop sx P ws True s))) \<and>
         (\<exists>cs. calls (fst (snd (gamecardDetectionThreadFunc_loop sx P ws True s))) = cs @ calls s \<and>
               list_all quiet_call cs)"
  using assms(2)
proof (induction ws arbitrary: s)
  case Nil
  then show ?case by simp
next
  case (Cons w ws)
  show ?case
  proof (cases w)
    case Wait_failed
    with Cons show ?thesis by simp
  next
    case Exit_event
    with Cons show ?thesis by simp
  next
    case Card_event
    define s2 where "s2 = (log_call FsDeviceOperatorIsGameCardInserted s)\<lparr>g_gameCardInserted := True\<rparr>"
    have f2: "info_freed s2" using Cons.prems by (simp add: s2_def info_freed_updates)
    have it: "gamecardDetectionThreadFunc_iteration sx P True s = (True, gamecardFreeInfo s2)"
      by (simp add: gamecardDetectionThreadFunc_iteration_def gamecardIsInserted_def ins Let_def
          R_SUCCEEDED_def s2_def gamecardFreeInfo_inserted)
    have c: "calls (gamecardFreeInfo s2) = [SvcCloseHandle 0, FsDeviceOperatorIsGameCardInserted] @ calls s"
      using calls_gamecardFreeInfo_freed [OF f2] by (simp add: s2_def log_call_def)
    from Cons.IH [OF gamecardFreeInfo_freed, of s2] obtain cs where
      1: "info_freed (fst (snd (gamecardDetectionThreadFunc_loop sx P ws True (gamecardFreeInfo s2))))"
         "calls (fst (snd (gamecardDetectionThreadFunc_loop sx P ws True (gamecardFreeInfo s2)))) =
            cs @ calls (gamecardFreeInfo s2)"
         "list_all quiet_call cs" by blast
    have "calls (fst (snd (gamecardDetectionThreadFunc_loop sx P ws True (gamecardFreeInfo s2)))) =
          (cs @ [SvcCloseHandle 0, FsDeviceOperatorIsGameCardInserted]) @ calls s"
      using 1(2) c by simp
    moreover have "list_all quiet_call (cs @ [SvcCloseHandle 0, FsDeviceOperatorIsGameCardInserted])"
      using 1(3) by (simp add: quiet_call_def)
    ultimately show ?thesis using 1(1) Card_event it by (simp del: append.simps)
  qed
qed

text \<open>
  The whole thread, when the platform reports a card at every call and the load the thread
  makes when it starts does not succeed.
\<close>

lemma gamecardDetectionThreadFunc_no_retry:
  assumes ins: "\<And>h. fsDeviceOperatorIsGameCardInserted P h = (0, True)"
    and nl: "\<not> g_gameCardInfoLoaded (snd (gamecardDetectionThreadFunc_init sx P s))"
  shows "fst (gamecardDetectionThreadFunc_init sx P s)"
    "info_freed (gamecardDetectionThreadFunc sx P ws s)"
    "\<exists>cs. calls (gamecardDetectionThreadFunc sx P ws s) =
            cs @ calls (snd (gamecardDetectionThreadFunc_init sx P s)) \<and> list_all quiet_call cs"
proof -
  define s2 where "s2 = (log_call FsDeviceOperatorIsGameCardInserted s)\<lparr>g_gameCardInserted := True\<rparr>"
  have init: "gamecardDetectionThreadFunc_init sx P s = (True, gamecardLoadInfo sx P s2)"
    by (simp add: gamecardDetectionThreadFunc_init_def gamecardIsInserted_def ins Let_def
        R_SUCCEEDED_def s2_def)
  show "fst (gamecardDetectionThreadFunc_init sx P s)" unfolding init by simp
  from nl have n1: "\<not> g_gameCardInfoLoaded (gamecardLoadInfo sx P s2)" unfolding init by simp
  then have n2: "\<not> g_gameCardInfoLoaded s2" by (auto simp: gamecardLoadInfo_def)
  from n1 have f: "fst (gamecardLoadInfo_steps sx P s2) \<noteq> Load_Ok"
    by (simp add: gamecardLoadInfo_loaded [OF n2])
  have fr: "info_freed (gamecardLoadInfo sx P s2)"
    unfolding gamecardLoadInfo_failure [OF n2 f] by (rule gamecardFreeInfo_freed)
  obtain p' t e where l: "gamecardDetectionThreadFunc_loop sx P ws True (gamecardLoadInfo sx P s2) = (p', t, e)"
    by (cases "gamecardDetectionThreadFunc_loop sx P ws True (gamecardLoadInfo sx P s2)") auto
  from gamecardDetectionThreadFunc_loop_quiet [of P "gamecardLoadInfo sx P s2" sx ws, OF ins fr] l
  obtain cs where 1: "info_freed t" "calls t = cs @ calls (gamecardLoadInfo sx P s2)" "list_all quiet_call cs"
    by auto
  have th: "gamecardDetectionThreadFunc sx P ws s = (if e then gamecardDetectionThreadFunc_exit t else t)"
    by (simp add: gamecardDetectionThreadFunc_def init l)
  have ex: "info_freed (gamecardDetectionThreadFunc_exit t)"
    "calls (gamecardDetectionThreadFunc_exit t) = (SvcCloseHandle 0 # cs) @ calls (gamecardLoadInfo sx P s2)"
    using gamecardFreeInfo_freed [of t] calls_gamecardFreeInfo_freed [OF 1(1)] 1(2)
    by (simp_all add: gamecardDetectionThreadFunc_exit_def info_freed_updates)
  show "info_freed (gamecardDetectionThreadFunc sx P ws s)"
    unfolding th using 1(1) ex(1) by simp
  have q: "list_all quiet_call (SvcCloseHandle 0 # cs)" using 1(3) by (simp add: quiet_call_def)
  show "\<exists>cs. calls (gamecardDetectionThreadFunc sx P ws s) =
            cs @ calls (snd (gamecardDetectionThreadFunc_init sx P s)) \<and> list_all quiet_call cs"
  proof (cases e)
    case True
    then show ?thesis unfolding th init using ex(2) q by (simp del: append.simps)
  next
    case False
    then show ?thesis unfolding th init using 1(2,3) by simp
  qed
qed

section \<open>A card whose root header fails its check\<close>

text \<open>The card of the previous section with the first byte of the root header's magic word erased.\<close>

definition bad_root_card :: card where
  "bad_root_card = good_card\<lparr>normal_data := (normal_data good_card)(0x200 := 0)\<rparr>"

lemma bad_root_card_simps:
  "normal_size bad_root_card = 0x1000" "secure_size bad_root_card = 0x2000000"
  "firmware_type bad_root_card = 0"
  by (simp_all add: bad_root_card_def good_card_def)

lemma bad_root_card_header:
  "bswap32 (read_le32 (normal_data bad_root_card) 0x100) = GAMECARD_HEAD_MAGIC"
  "normal_data bad_root_card 0x10D = 0xFA"
  "read_le64 (normal_data bad_root_card) 0x130 = 0x200"
  "read_le64 (normal_data bad_root_card) 0x138 = 0x200"
  using good_card_header
  by (simp_all add: bad_root_card_def read_le32_def read_le64_def)

lemma bad_root_card_root:
  "bswap32 (read_le32 (\<lambda>i. normal_data bad_root_card (0x200 + i)) 0) \<noteq> GAMECARD_HFS0_MAGIC"
  by (simp add: bad_root_card_def good_card_def good_card_bytes_def read_le32_def bswap32_def
      GAMECARD_HFS0_MAGIC_def)

lemma sim_storage_ok: "storage_ok (sim_platform c)"
proof -
  have "(part :: u32) + 1 \<noteq> 0" if "part \<le> 1" for part
    using that by (auto simp: word_le_nat_alt unat_eq_zero [symmetric] unat_word_ariths
        simp del: unat_eq_zero)
  then show ?thesis
    by (simp add: storage_ok_def sim_platform_def R_SUCCEEDED_def serviceIsActive_def)
qed

lemma bad_root_load_root_part:
  assumes o: "sim_open_normal s"
    and h: "hdr_partition_fs_header_address (g_gameCardHeader s) = 0x200"
           "hdr_partition_fs_header_size (g_gameCardHeader s) = 0x200"
    and p: "g_gameCardHfsPartitions s = None"
  shows "fst (load_root_part (sim_platform bad_root_card) s) = Invalid_root_magic"
    "g_gameCardHfsRootHeader (snd (load_root_part (sim_platform bad_root_card) s)) \<noteq> None"
    "g_gameCardHfsPartitions (snd (load_root_part (sim_platform bad_root_card) s)) = None"
proof -
  let ?P = "sim_platform bad_root_card"
  have cl: "calloc ?P hh n m" for hh n m by (simp add: sim_platform_def)
  define s7 where "s7 = (log_call (Calloc 0x200 1) s)\<lparr>g_gameCardHfsRootHeader := Some zero_buffer\<rparr>"
  define root where "root = memcpy zero_buffer 0 (\<lambda>i. normal_data bad_root_card (0x200 + i)) 0 0x200"
  define s8 where "s8 = (log_call (FsStorageRead 1 0x200 0x200) s7)\<lparr>g_gameCardHfsRootHeader := Some root\<rparr>"
  have r: "gamecardReadStorageArea ?P s7 zero_buffer (Some 0) 0x200 0x200 False =
           (True, root, log_call (FsStorageRead 1 0x200 0x200) s7)"
  proof -
    have "gamecardReadStorageArea ?P s7 zero_buffer (Some 0) 0x200 0x200 False =
      (True, memcpy zero_buffer 0 (\<lambda>i. normal_data bad_root_card (unat (0x200 :: u64) + i)) 0 (unat (0x200 :: u64)),
       log_call (FsStorageRead 1 0x200 0x200) s7)"
      by (rule sim_read_normal_aligned) (simp_all add: s7_def o bad_root_card_simps)
    then show ?thesis by (simp add: root_def)
  qed
  have h7: "g_gameCardHeader s7 = g_gameCardHeader s"
    "g_gameCardHeader (log_call c1 s) = g_gameCardHeader s"
    "g_gameCardHeader (log_call c1 s7) = g_gameCardHeader s" for c1
    by (simp_all add: s7_def log_call_def)
  have m: "bswap32 (hfs_magic root) \<noteq> GAMECARD_HFS0_MAGIC"
    by (simp add: root_def hfs_magic_def read_le32_memcpy bad_root_card_root)
  have e: "load_root_part ?P s = (Invalid_root_magic, s8)"
    unfolding load_root_part_def
    apply (simp add: h cl Let_def s7_def [symmetric] h7)
    apply (simp add: r m h7 h)
    apply (simp add: s8_def)
    done
  show "fst (load_root_part ?P s) = Invalid_root_magic"
    "g_gameCardHfsRootHeader (snd (load_root_part ?P s)) \<noteq> None"
    "g_gameCardHfsPartitions (snd (load_root_part ?P s)) = None"
    unfolding e using p by (simp_all add: s8_def s7_def log_call_def)
qed

lemma bad_root_gamecardLoadInfo_steps:
  assumes "sim_idle s" "g_gameCardReadBuf s = Some rb"
    "g_gameCardHfsPartitions s = None"
  shows "fst (gamecardLoadInfo_steps 2 (sim_platform bad_root_card) s) = Invalid_root_magic"
    "g_gameCardHfsRootHeader (snd (gamecardLoadInfo_steps 2 (sim_platform bad_root_card) s)) \<noteq> None"
    "g_gameCardHfsPartitions (snd (gamecardLoadInfo_steps 2 (sim_platform bad_root_card) s)) = None"
proof -
  let ?P = "sim_platform bad_root_card"
  obtain ok0 s1 where g: "gamecardGetStorageAreasSizes ?P s = (ok0, s1)"
    by (cases "gamecardGetStorageAreasSizes ?P s")
  from sim_gamecardGetStorageAreasSizes [of s bad_root_card] g assms
  have 1: "ok0" "sim_idle s1" "g_gameCardStorageNormalAreaSize s1 = 0x1000"
    "g_gameCardStorageSecureAreaSize s1 = 0x2000000" "g_gameCardReadBuf s1 = Some rb"
    by (simp_all add: bad_root_card_simps)
  from gamecardGetStorageAreasSizes_dest [OF g] assms(3)
  have p1: "g_gameCardHfsPartitions s1 = None" by (simp add: flags_frame_def)
  define header where "header = memcpy (g_gameCardHeader s1) 0 (normal_data bad_root_card) 0 0x200"
  from sim_read_header_state [OF 1(2-4) bad_root_card_simps(1), of "g_gameCardHeader s1"]
  obtain s2' where r1:
    "gamecardReadStorageArea ?P s1 (g_gameCardHeader s1) (Some 0) sizeof_GameCardHeader 0 False = (True, header, s2')"
    and 2: "sim_open_normal s2'"
    unfolding header_def by auto
  from gamecardReadStorageArea_dest [OF r1] p1
  have p2': "g_gameCardHfsPartitions s2' = None" by (simp add: io_frame_def)
  have hf: "bswap32 (hdr_magic header) = GAMECARD_HEAD_MAGIC" "hdr_rom_size header = 0xFA"
    "hdr_partition_fs_header_address header = 0x200" "hdr_partition_fs_header_size header = 0x200"
    by (simp_all add: header_def hdr_magic_def hdr_partition_fs_header_address_def
        hdr_partition_fs_header_size_def read_le32_memcpy read_le64_memcpy bad_root_card_header)
       (simp add: hdr_rom_size_def memcpy_def bad_root_card_header)
  define s5 where "s5 = log_call UtilsGetCustomFirmwareType
      (s2'\<lparr>g_gameCardHeader := header, g_gameCardCapacity := GAMECARD_CAPACITY_1GiB\<rparr>)"
  have fw: "utilsGetCustomFirmwareType ?P hh = 0" for hh
    by (simp add: sim_platform_def bad_root_card_simps)
  have cap: "gamecardGetCapacityFromRomSizeValue 0xFA = GAMECARD_CAPACITY_1GiB"
    "GAMECARD_CAPACITY_1GiB \<noteq> 0"
    by (simp_all add: gamecardGetCapacityFromRomSizeValue_def GameCardRomSize_1GiB_def
        GAMECARD_CAPACITY_1GiB_def)
  have e: "gamecardLoadInfo_steps 2 ?P s = load_root_part ?P s5"
    using g 1(1) r1 hf(1,2)
    by (simp add: gamecardLoadInfo_steps_parts Let_def load_capacity_part_def cap fw s5_def)
  have f: "sim_open_normal s5"
    "hdr_partition_fs_header_address (g_gameCardHeader s5) = 0x200"
    "hdr_partition_fs_header_size (g_gameCardHeader s5) = 0x200"
    "g_gameCardHfsPartitions s5 = None"
    using 2 hf p2' by (simp_all add: s5_def log_call_def)
  show "fst (gamecardLoadInfo_steps 2 ?P s) = Invalid_root_magic"
    "g_gameCardHfsRootHeader (snd (gamecardLoadInfo_steps 2 ?P s)) \<noteq> None"
    "g_gameCardHfsPartitions (snd (gamecardLoadInfo_steps 2 ?P s)) = None"
    unfolding e by (rule bad_root_load_root_part [OF f])+
qed

section \<open>A card whose information fails a check\<close>

text \<open>
  C5: \<open>gamecardLoadInfo\<close> called while no information is loaded. \<open>gamecardLoadInfo_steps\<close> is
  its body up to the label \<open>out\<close>, and its first component tells where the body left:
  \<open>Invalid_header_magic\<close>, \<open>Invalid_capacity\<close>, \<open>Invalid_root_magic\<close> and
  \<open>Invalid_root_counts\<close> are the checks of the header magic, of the capacity, of the root
  magic and of the entry count, name table size and header size; the others are failures of
  the platform.

  \<^item> Whenever the body does not reach its end, the session is left as \<open>gamecardFreeInfo\<close>
    leaves it (\<open>info_freed\<close>): not loaded, the header zeroed, both area sizes and the
    capacity zero, the pointers to the root header and to the partitions NULL, no handle
    and no storage.
  \<^item> When the information is loaded after the call, the body reached its end and the cached
    header and root header pass all the checks (\<open>info_valid\<close>).
  \<^item> What is released, read from the record of calls, for a platform whose opened storages
    are active and a session that holds no buffer when the call is made. At the label
    \<open>out\<close> the heap buffers that are live are those live before plus those the session
    holds (root header, array of partitions, partition headers), and the open storages are
    those open before plus the one the session holds: nothing was allocated or opened and
    then forgotten. When the body did not reach its end, after the call the live heap
    buffers are those live before the call: every \<open>calloc\<close> that succeeded during the call
    was followed by its \<open>free\<close>, and every storage opened, the one the session held
    included, by its \<open>fsStorageClose\<close>. \<open>gamecardFreeInfo\<close> itself, in any session whose
    array of partitions has as many elements as the root header has entries (\<open>cache_wf\<close>,
    which holds at the label \<open>out\<close>), makes one \<open>free\<close> for each buffer the session holds
    and closes the storage it holds.
  \<^item> No retry. \<open>gamecardDetectionThreadFunc\<close> run from any state on any sequence of events,
    with a platform that reports a card at every call, whose load at the start does not
    succeed: the thread holds \<open>prev_status = true\<close>, its final state is \<open>info_freed\<close>, and
    every call recorded after that first load is \<open>fsDeviceOperatorIsGameCardInserted\<close> or
    the \<open>svcCloseHandle\<close> of \<open>gamecardFreeInfo\<close> on no handle: the card is not accessed again.
    The same holds of the loop alone, started with \<open>prev_status = true\<close> after the failed
    load.
\<close>

theorem gamecardLoadInfo_failed_check_frees:
  assumes "\<not> g_gameCardInfoLoaded s"
  shows "(fst (gamecardLoadInfo_steps sx P s) \<noteq> Load_Ok \<longrightarrow>
            info_freed (gamecardLoadInfo sx P s) \<and>
            ((\<forall>h. fsDeviceOperatorIsGameCardInserted P h = (0, True)) \<longrightarrow>
             (\<forall>ws. info_freed (fst (snd (gamecardDetectionThreadFunc_loop sx P ws True
                                            (gamecardLoadInfo sx P s))))))) \<and>
         (g_gameCardInfoLoaded (gamecardLoadInfo sx P s) \<longrightarrow>
            fst (gamecardLoadInfo_steps sx P s) = Load_Ok \<and> info_valid (gamecardLoadInfo sx P s)) \<and>
         (storage_ok P \<and> g_gameCardHfsRootHeader s = None \<and> g_gameCardHfsPartitions s = None \<longrightarrow>
            heap_live P (calls (snd (gamecardLoadInfo_steps sx P s))) =
              heap_live P (calls s) + cached_buffers (snd (gamecardLoadInfo_steps sx P s)) \<and>
            storage_live P (calls (snd (gamecardLoadInfo_steps sx P s))) =
              storage_live P (calls s) - open_storages s +
              open_storages (snd (gamecardLoadInfo_steps sx P s)) \<and>
            cache_wf (snd (gamecardLoadInfo_steps sx P s)) \<and>
            (fst (gamecardLoadInfo_steps sx P s) \<noteq> Load_Ok \<longrightarrow>
               heap_live P (calls (gamecardLoadInfo sx P s)) = heap_live P (calls s) \<and>
               storage_live P (calls (gamecardLoadInfo sx P s)) =
                 storage_live P (calls s) - open_storages s)) \<and>
         (cache_wf t \<longrightarrow>
            heap_live P (calls (gamecardFreeInfo t)) = heap_live P (calls t) - cached_buffers t \<and>
            storage_live P (calls (gamecardFreeInfo t)) = storage_live P (calls t) - open_storages t) \<and>
         ((\<forall>h. fsDeviceOperatorIsGameCardInserted P h = (0, True)) \<and>
          \<not> g_gameCardInfoLoaded (snd (gamecardDetectionThreadFunc_init sx P s0)) \<longrightarrow>
            fst (gamecardDetectionThreadFunc_init sx P s0) \<and>
            info_freed (gamecardDetectionThreadFunc sx P ws s0) \<and>
            (\<exists>cs. calls (gamecardDetectionThreadFunc sx P ws s0) =
                     cs @ calls (snd (gamecardDetectionThreadFunc_init sx P s0)) \<and>
                   list_all quiet_call cs))"
proof -
  have a: "info_freed (gamecardLoadInfo sx P s)" if "fst (gamecardLoadInfo_steps sx P s) \<noteq> Load_Ok"
    unfolding gamecardLoadInfo_failure [OF assms that] by (rule gamecardFreeInfo_freed)
  have b: "info_freed (fst (snd (gamecardDetectionThreadFunc_loop sx P ws True (gamecardLoadInfo sx P s))))"
    if "fst (gamecardLoadInfo_steps sx P s) \<noteq> Load_Ok"
      "\<forall>h. fsDeviceOperatorIsGameCardInserted P h = (0, True)" for ws
    using that(2) a [OF that(1)] by (intro gamecardDetectionThreadFunc_loop_no_retry) simp_all
  have c: "fst (gamecardLoadInfo_steps sx P s) = Load_Ok \<and> info_valid (gamecardLoadInfo sx P s)"
    if l: "g_gameCardInfoLoaded (gamecardLoadInfo sx P s)"
  proof -
    from l have ok: "fst (gamecardLoadInfo_steps sx P s) = Load_Ok"
      by (simp add: gamecardLoadInfo_loaded [OF assms])
    have "info_valid (gamecardLoadInfo sx P s)"
      unfolding gamecardLoadInfo_success [OF assms ok]
      by (rule gamecardLoadInfo_steps_flags(3) [OF ok])
    with ok show ?thesis by simp
  qed
  have d: "heap_live P (calls (snd (gamecardLoadInfo_steps sx P s))) =
              heap_live P (calls s) + cached_buffers (snd (gamecardLoadInfo_steps sx P s)) \<and>
            storage_live P (calls (snd (gamecardLoadInfo_steps sx P s))) =
              storage_live P (calls s) - open_storages s +
              open_storages (snd (gamecardLoadInfo_steps sx P s)) \<and>
            cache_wf (snd (gamecardLoadInfo_steps sx P s))"
    if "storage_ok P" "g_gameCardHfsRootHeader s = None" "g_gameCardHfsPartitions s = None"
  proof -
    from ledger_gamecardLoadInfo_steps [OF that(1,3,2), of sx]
    have "ledger P s (snd (gamecardLoadInfo_steps sx P s))"
      "cache_wf (snd (gamecardLoadInfo_steps sx P s))" by (simp_all add: ledger_post_def)
    moreover have "cached_buffers s = 0" using that(2,3) by (simp add: cached_buffers_def)
    ultimately show ?thesis by (simp add: ledger_def)
  qed
  have g: "heap_live P (calls (gamecardFreeInfo t)) = heap_live P (calls t) - cached_buffers t \<and>
            storage_live P (calls (gamecardFreeInfo t)) = storage_live P (calls t) - open_storages t"
    if "cache_wf t"
    using ledger_gamecardFreeInfo [OF that, of P] by simp
  have e: "heap_live P (calls (gamecardLoadInfo sx P s)) = heap_live P (calls s) \<and>
           storage_live P (calls (gamecardLoadInfo sx P s)) = storage_live P (calls s) - open_storages s"
    if "storage_ok P" "g_gameCardHfsRootHeader s = None" "g_gameCardHfsPartitions s = None"
      "fst (gamecardLoadInfo_steps sx P s) \<noteq> Load_Ok"
    using gamecardLoadInfo_failure_releases [OF that(1) assms that(3,2,4)] by simp
  have f: "fst (gamecardDetectionThreadFunc_init sx P s0) \<and>
            info_freed (gamecardDetectionThreadFunc sx P ws s0) \<and>
            (\<exists>cs. calls (gamecardDetectionThreadFunc sx P ws s0) =
                     cs @ calls (snd (gamecardDetectionThreadFunc_init sx P s0)) \<and>
                   list_all quiet_call cs)"
    if "\<forall>h. fsDeviceOperatorIsGameCardInserted P h = (0, True)"
      "\<not> g_gameCardInfoLoaded (snd (gamecardDetectionThreadFunc_init sx P s0))"
  proof -
    have ins: "\<And>h. fsDeviceOperatorIsGameCardInserted P h = (0, True)" using that(1) by simp
    show ?thesis
      by (intro conjI gamecardDetectionThreadFunc_no_retry [OF ins that(2)])
  qed
  from a b c d e f g show ?thesis by blast
qed

theorem gamecardLoadInfo_failed_check_frees_witness:
  "fst (gamecardLoadInfo_steps 2 (sim_platform sim_card) sim_inserted_state) = Invalid_header_magic \<and>
   info_freed (gamecardLoadInfo 2 (sim_platform sim_card) sim_inserted_state) \<and>
   heap_live (sim_platform sim_card) (calls (gamecardLoadInfo 2 (sim_platform sim_card) sim_inserted_state)) = 0 \<and>
   storage_live (sim_platform sim_card) (calls (gamecardLoadInfo 2 (sim_platform sim_card) sim_inserted_state)) = 0 \<and>
   fst (gamecardLoadInfo_steps 2 (sim_platform bad_root_card) sim_inserted_state) = Invalid_root_magic \<and>
   heap_live (sim_platform bad_root_card)
     (calls (snd (gamecardLoadInfo_steps 2 (sim_platform bad_root_card) sim_inserted_state))) = 1 \<and>
   heap_live (sim_platform bad_root_card)
     (calls (gamecardLoadInfo 2 (sim_platform bad_root_card) sim_inserted_state)) = 0 \<and>
   info_freed (gamecardLoadInfo 2 (sim_platform bad_root_card) sim_inserted_state) \<and>
   g_gameCardInfoLoaded (gamecardLoadInfo 2 (sim_platform good_card) sim_inserted_state) \<and>
   info_valid (gamecardLoadInfo 2 (sim_platform good_card) sim_inserted_state) \<and>
   heap_live (sim_platform good_card)
     (calls (gamecardLoadInfo 2 (sim_platform good_card) sim_inserted_state)) = 3 \<and>
   heap_live (sim_platform good_card)
     (calls (gamecardFreeInfo (gamecardLoadInfo 2 (sim_platform good_card) sim_inserted_state))) = 0 \<and>
   storage_live (sim_platform good_card)
     (calls (gamecardFreeInfo (gamecardLoadInfo 2 (sim_platform good_card) sim_inserted_state))) = 0 \<and>
   info_freed (gamecardDetectionThreadFunc 2 (sim_platform sim_card)
                 [Card_event, Wait_failed, Card_event, Exit_event] sim_inserted_state) \<and>
   (\<exists>cs. calls (gamecardDetectionThreadFunc 2 (sim_platform sim_card)
                 [Card_event, Wait_failed, Card_event, Exit_event] sim_inserted_state) =
           cs @ calls (snd (gamecardDetectionThreadFunc_init 2 (sim_platform sim_card) sim_inserted_state)) \<and>
         list_all quiet_call cs)"
proof -
  let ?s = sim_inserted_state
  have st: "\<not> g_gameCardInfoLoaded ?s" "g_gameCardHfsRootHeader ?s = None"
    "g_gameCardHfsPartitions ?s = None" "calls ?s = []" "open_storages ?s = 0"
    "sim_idle ?s" "g_gameCardReadBuf ?s = Some zero_buffer"
    by (simp_all add: sim_inserted_state_def open_storages_def serviceIsActive_def sim_idle_def)
  have ins: "fsDeviceOperatorIsGameCardInserted (sim_platform c) h = (0, True)" for c h
    by (simp add: sim_platform_def)
  \<comment> \<open>the card with a bad header magic\<close>
  have m1: "fst (gamecardLoadInfo_steps 2 (sim_platform sim_card) ?s) = Invalid_header_magic"
    by (rule sim_gamecardLoadInfo_steps(1))
       (simp_all add: st sim_card_simps sim_card_bad_magic)
  from gamecardLoadInfo_failed_check_frees
         [where s = ?s and sx = 2 and P = "sim_platform sim_card", OF st(1)]
  have w1: "info_freed (gamecardLoadInfo 2 (sim_platform sim_card) ?s)"
    "heap_live (sim_platform sim_card) (calls (gamecardLoadInfo 2 (sim_platform sim_card) ?s)) = 0"
    "storage_live (sim_platform sim_card) (calls (gamecardLoadInfo 2 (sim_platform sim_card) ?s)) = 0"
    by (simp_all add: m1 sim_storage_ok st)
  \<comment> \<open>the card with a bad root magic\<close>
  note br = bad_root_gamecardLoadInfo_steps [OF st(6,7,3)]
  have cb: "cached_buffers (snd (gamecardLoadInfo_steps 2 (sim_platform bad_root_card) ?s)) = 1"
    using br(2,3) by (simp add: cached_buffers_def)
  from gamecardLoadInfo_failed_check_frees
         [where s = ?s and sx = 2 and P = "sim_platform bad_root_card", OF st(1)]
  have w2: "heap_live (sim_platform bad_root_card)
              (calls (snd (gamecardLoadInfo_steps 2 (sim_platform bad_root_card) ?s))) = 1"
    "heap_live (sim_platform bad_root_card) (calls (gamecardLoadInfo 2 (sim_platform bad_root_card) ?s)) = 0"
    "info_freed (gamecardLoadInfo 2 (sim_platform bad_root_card) ?s)"
    by (simp_all add: br(1) cb sim_storage_ok st)
  \<comment> \<open>the card that loads\<close>
  note gd = good_gamecardLoadInfo_steps [OF st(6,7)]
  have l3: "g_gameCardInfoLoaded (gamecardLoadInfo 2 (sim_platform good_card) ?s)"
    by (simp add: gamecardLoadInfo_loaded [OF st(1)] gd(1))
  from gamecardLoadInfo_failed_check_frees
         [where s = ?s and sx = 2 and P = "sim_platform good_card", OF st(1)] l3
  have w3: "info_valid (gamecardLoadInfo 2 (sim_platform good_card) ?s)" by simp
  have e3: "gamecardLoadInfo 2 (sim_platform good_card) ?s =
            snd (gamecardLoadInfo_steps 2 (sim_platform good_card) ?s)"
    by (rule gamecardLoadInfo_success [OF st(1) gd(1)])
  from gamecardLoadInfo_failed_check_frees
         [where s = ?s and sx = 2 and P = "sim_platform good_card", OF st(1)]
  have wf3: "cache_wf (gamecardLoadInfo 2 (sim_platform good_card) ?s)"
    and h3: "heap_live (sim_platform good_card) (calls (gamecardLoadInfo 2 (sim_platform good_card) ?s)) =
             cached_buffers (gamecardLoadInfo 2 (sim_platform good_card) ?s)"
    and s3: "storage_live (sim_platform good_card) (calls (gamecardLoadInfo 2 (sim_platform good_card) ?s)) =
             open_storages (gamecardLoadInfo 2 (sim_platform good_card) ?s)"
    by (simp_all add: e3 sim_storage_ok st)
  have c3: "cached_buffers (gamecardLoadInfo 2 (sim_platform good_card) ?s) = 3"
    using wf3 gd(2)
    by (auto simp: e3 cached_buffers_def cache_wf_def good_partitions_def split: option.splits)
  from gamecardLoadInfo_failed_check_frees
         [where s = ?s and sx = 2 and P = "sim_platform good_card"
            and t = "gamecardLoadInfo 2 (sim_platform good_card) ?s", OF st(1)] wf3
  have w5: "heap_live (sim_platform good_card)
              (calls (gamecardLoadInfo 2 (sim_platform good_card) ?s)) = 3"
    "heap_live (sim_platform good_card)
       (calls (gamecardFreeInfo (gamecardLoadInfo 2 (sim_platform good_card) ?s))) = 0"
    "storage_live (sim_platform good_card)
       (calls (gamecardFreeInfo (gamecardLoadInfo 2 (sim_platform good_card) ?s))) = 0"
    using h3 s3 c3 by simp_all
  \<comment> \<open>the thread\<close>
  define s2 where "s2 = (log_call FsDeviceOperatorIsGameCardInserted ?s)\<lparr>g_gameCardInserted := True\<rparr>"
  have s2: "sim_idle s2" "\<not> g_gameCardInfoLoaded s2"
    by (simp_all add: s2_def sim_inserted_state_def sim_idle_def log_call_def)
  have init: "gamecardDetectionThreadFunc_init 2 (sim_platform sim_card) ?s =
              (True, gamecardLoadInfo 2 (sim_platform sim_card) s2)"
    by (simp add: gamecardDetectionThreadFunc_init_def gamecardIsInserted_def ins Let_def
        R_SUCCEEDED_def s2_def)
  have m4: "fst (gamecardLoadInfo_steps 2 (sim_platform sim_card) s2) = Invalid_header_magic"
    by (rule sim_gamecardLoadInfo_steps(1))
       (simp_all add: s2 sim_card_simps sim_card_bad_magic)
  have nl: "\<not> g_gameCardInfoLoaded (snd (gamecardDetectionThreadFunc_init 2 (sim_platform sim_card) ?s))"
    unfolding init by (simp add: gamecardLoadInfo_loaded [OF s2(2)] m4)
  from gamecardLoadInfo_failed_check_frees
         [where s = ?s and sx = 2 and P = "sim_platform sim_card" and ?s0.0 = ?s
            and ws = "[Card_event, Wait_failed, Card_event, Exit_event]", OF st(1)] nl
  have w4: "info_freed (gamecardDetectionThreadFunc 2 (sim_platform sim_card)
                 [Card_event, Wait_failed, Card_event, Exit_event] ?s)"
    "\<exists>cs. calls (gamecardDetectionThreadFunc 2 (sim_platform sim_card)
                 [Card_event, Wait_failed, Card_event, Exit_event] ?s) =
           cs @ calls (snd (gamecardDetectionThreadFunc_init 2 (sim_platform sim_card) ?s)) \<and>
         list_all quiet_call cs"
    by (simp_all add: ins)
  from m1 w1 br(1) w2 l3 w3 w5 w4 show ?thesis by blast
qed

section \<open>The capacity of a card\<close>

text \<open>The card that loads, with the size byte of its header replaced by 0x0D.\<close>

definition bad_size_card :: card where
  "bad_size_card = good_card\<lparr>normal_data := (normal_data good_card)(0x10D := 0x0D)\<rparr>"

lemma bad_size_card_simps:
  "normal_size bad_size_card = 0x1000" "secure_size bad_size_card = 0x2000000"
  "bswap32 (read_le32 (normal_data bad_size_card) 0x100) = GAMECARD_HEAD_MAGIC"
  "normal_data bad_size_card 0x10D = 0x0D"
  using good_card_header(1)
  by (simp_all add: bad_size_card_def good_card_simps read_le32_def)

lemma load_capacity_part_zero:
  assumes "gamecardGetCapacityFromRomSizeValue (hdr_rom_size (g_gameCardHeader s2)) = 0"
  shows "load_capacity_part sx P s2 = (Invalid_capacity, s2\<lparr>g_gameCardCapacity := 0\<rparr>)"
  using assms by (simp add: load_capacity_part_def)

lemma gamecardGetCapacityFromRomSizeValue_values:
  "gamecardGetCapacityFromRomSizeValue 0xFA = 0x40000000"
  "gamecardGetCapacityFromRomSizeValue 0xF8 = 0x80000000"
  "gamecardGetCapacityFromRomSizeValue 0xF0 = 0x100000000"
  "gamecardGetCapacityFromRomSizeValue 0xE0 = 0x200000000"
  "gamecardGetCapacityFromRomSizeValue 0xE1 = 0x400000000"
  "gamecardGetCapacityFromRomSizeValue 0xE2 = 0x800000000"
  by (simp_all add: gamecardGetCapacityFromRomSizeValue_def
      GameCardRomSize_1GiB_def GameCardRomSize_2GiB_def GameCardRomSize_4GiB_def
      GameCardRomSize_8GiB_def GameCardRomSize_16GiB_def GameCardRomSize_32GiB_def
      GAMECARD_CAPACITY_1GiB_def GAMECARD_CAPACITY_2GiB_def GAMECARD_CAPACITY_4GiB_def
      GAMECARD_CAPACITY_8GiB_def GAMECARD_CAPACITY_16GiB_def GAMECARD_CAPACITY_32GiB_def)

lemma gamecardGetCapacityFromRomSizeValue_zero_iff:
  "(gamecardGetCapacityFromRomSizeValue b = 0) =
   (b \<noteq> 0xFA \<and> b \<noteq> 0xF8 \<and> b \<noteq> 0xF0 \<and> b \<noteq> 0xE0 \<and> b \<noteq> 0xE1 \<and> b \<noteq> 0xE2)"
  by (simp add: gamecardGetCapacityFromRomSizeValue_def
      GameCardRomSize_1GiB_def GameCardRomSize_2GiB_def GameCardRomSize_4GiB_def
      GameCardRomSize_8GiB_def GameCardRomSize_16GiB_def GameCardRomSize_32GiB_def
      GAMECARD_CAPACITY_1GiB_def GAMECARD_CAPACITY_2GiB_def GAMECARD_CAPACITY_4GiB_def
      GAMECARD_CAPACITY_8GiB_def GAMECARD_CAPACITY_16GiB_def GAMECARD_CAPACITY_32GiB_def)

text \<open>
  C2: the value of \<open>gamecardGetCapacityFromRomSizeValue\<close> at each of the six size bytes, in
  bytes (1 GiB is 0x40000000), and zero at every other byte. In \<open>gamecardLoadInfo\<close>:
  \<open>load_capacity_part\<close> is the part of its body that follows the check of the header magic,
  and with a header whose size byte gives zero it leaves at once as \<open>Invalid_capacity\<close>;
  a load that leaves as \<open>Invalid_capacity\<close> ends with the card not ready and the cached
  information freed; and whenever the information is loaded after a call made while it was
  not, the size byte of the cached header is one of the six and the cached capacity is its
  value.
\<close>

theorem gamecardGetCapacityFromRomSizeValue_table:
  "gamecardGetCapacityFromRomSizeValue 0xFA = 0x40000000 \<and>
   gamecardGetCapacityFromRomSizeValue 0xF8 = 0x80000000 \<and>
   gamecardGetCapacityFromRomSizeValue 0xF0 = 0x100000000 \<and>
   gamecardGetCapacityFromRomSizeValue 0xE0 = 0x200000000 \<and>
   gamecardGetCapacityFromRomSizeValue 0xE1 = 0x400000000 \<and>
   gamecardGetCapacityFromRomSizeValue 0xE2 = 0x800000000 \<and>
   (rom_size \<noteq> 0xFA \<and> rom_size \<noteq> 0xF8 \<and> rom_size \<noteq> 0xF0 \<and>
    rom_size \<noteq> 0xE0 \<and> rom_size \<noteq> 0xE1 \<and> rom_size \<noteq> 0xE2 \<longrightarrow>
      gamecardGetCapacityFromRomSizeValue rom_size = 0) \<and>
   (gamecardGetCapacityFromRomSizeValue (hdr_rom_size (g_gameCardHeader s2)) = 0 \<longrightarrow>
      fst (load_capacity_part sx P s2) = Invalid_capacity) \<and>
   (\<not> g_gameCardInfoLoaded s \<and> fst (gamecardLoadInfo_steps sx P s) = Invalid_capacity \<longrightarrow>
      \<not> gamecardIsReady (gamecardLoadInfo sx P s) \<and> info_freed (gamecardLoadInfo sx P s)) \<and>
   (\<not> g_gameCardInfoLoaded s \<and> g_gameCardInfoLoaded (gamecardLoadInfo sx P s) \<longrightarrow>
      gamecardGetCapacityFromRomSizeValue (hdr_rom_size (g_gameCardHeader (gamecardLoadInfo sx P s))) \<noteq> 0 \<and>
      g_gameCardCapacity (gamecardLoadInfo sx P s) =
        gamecardGetCapacityFromRomSizeValue (hdr_rom_size (g_gameCardHeader (gamecardLoadInfo sx P s))))"
proof -
  have a: "gamecardGetCapacityFromRomSizeValue rom_size = 0"
    if "rom_size \<noteq> 0xFA \<and> rom_size \<noteq> 0xF8 \<and> rom_size \<noteq> 0xF0 \<and>
        rom_size \<noteq> 0xE0 \<and> rom_size \<noteq> 0xE1 \<and> rom_size \<noteq> 0xE2"
    using that by (simp add: gamecardGetCapacityFromRomSizeValue_zero_iff)
  have b: "fst (load_capacity_part sx P s2) = Invalid_capacity"
    if "gamecardGetCapacityFromRomSizeValue (hdr_rom_size (g_gameCardHeader s2)) = 0"
    using that by (simp add: load_capacity_part_zero)
  have c: "\<not> gamecardIsReady (gamecardLoadInfo sx P s) \<and> info_freed (gamecardLoadInfo sx P s)"
    if "\<not> g_gameCardInfoLoaded s" "fst (gamecardLoadInfo_steps sx P s) = Invalid_capacity"
  proof -
    from that(2) have f: "fst (gamecardLoadInfo_steps sx P s) \<noteq> Load_Ok" by simp
    have "info_freed (gamecardLoadInfo sx P s)"
      unfolding gamecardLoadInfo_failure [OF that(1) f] by (rule gamecardFreeInfo_freed)
    then show ?thesis by (simp add: gamecardIsReady_def info_freed_def)
  qed
  have d: "gamecardGetCapacityFromRomSizeValue (hdr_rom_size (g_gameCardHeader (gamecardLoadInfo sx P s))) \<noteq> 0 \<and>
      g_gameCardCapacity (gamecardLoadInfo sx P s) =
        gamecardGetCapacityFromRomSizeValue (hdr_rom_size (g_gameCardHeader (gamecardLoadInfo sx P s)))"
    if "\<not> g_gameCardInfoLoaded s" "g_gameCardInfoLoaded (gamecardLoadInfo sx P s)"
  proof -
    from that have ok: "fst (gamecardLoadInfo_steps sx P s) = Load_Ok"
      by (simp add: gamecardLoadInfo_loaded)
    have "info_valid (gamecardLoadInfo sx P s)"
      unfolding gamecardLoadInfo_success [OF that(1) ok]
      by (rule gamecardLoadInfo_steps_flags(3) [OF ok])
    then show ?thesis by (auto simp: info_valid_def)
  qed
  from a b c d gamecardGetCapacityFromRomSizeValue_values show ?thesis by blast
qed

theorem gamecardGetCapacityFromRomSizeValue_table_witness:
  "gamecardGetCapacityFromRomSizeValue 0x0D = 0 \<and>
   fst (gamecardLoadInfo_steps 2 (sim_platform bad_size_card) sim_inserted_state) = Invalid_capacity \<and>
   \<not> gamecardIsReady (gamecardLoadInfo 2 (sim_platform bad_size_card) sim_inserted_state) \<and>
   info_freed (gamecardLoadInfo 2 (sim_platform bad_size_card) sim_inserted_state) \<and>
   g_gameCardInfoLoaded (gamecardLoadInfo 2 (sim_platform good_card) sim_inserted_state) \<and>
   gamecardGetCapacityFromRomSizeValue
     (hdr_rom_size (g_gameCardHeader (gamecardLoadInfo 2 (sim_platform good_card) sim_inserted_state))) \<noteq> 0 \<and>
   g_gameCardCapacity (gamecardLoadInfo 2 (sim_platform good_card) sim_inserted_state) =
     gamecardGetCapacityFromRomSizeValue
       (hdr_rom_size (g_gameCardHeader (gamecardLoadInfo 2 (sim_platform good_card) sim_inserted_state)))"
proof -
  let ?s = sim_inserted_state
  have st: "\<not> g_gameCardInfoLoaded ?s" "sim_idle ?s" "g_gameCardReadBuf ?s = Some zero_buffer"
    by (simp_all add: sim_inserted_state_def sim_idle_def)
  have z: "gamecardGetCapacityFromRomSizeValue 0x0D = 0"
    using gamecardGetCapacityFromRomSizeValue_table [where rom_size = "0x0D"] by simp
  have m: "fst (gamecardLoadInfo_steps 2 (sim_platform bad_size_card) ?s) = Invalid_capacity"
    by (rule sim_gamecardLoadInfo_steps(2)) (simp_all add: st bad_size_card_simps z)
  from gamecardGetCapacityFromRomSizeValue_table
         [where s = ?s and sx = 2 and P = "sim_platform bad_size_card"] st(1) m
  have w1: "\<not> gamecardIsReady (gamecardLoadInfo 2 (sim_platform bad_size_card) ?s)"
    "info_freed (gamecardLoadInfo 2 (sim_platform bad_size_card) ?s)" by simp_all
  note gd = good_gamecardLoadInfo_steps [OF st(2,3)]
  have l: "g_gameCardInfoLoaded (gamecardLoadInfo 2 (sim_platform good_card) ?s)"
    by (simp add: gamecardLoadInfo_loaded [OF st(1)] gd(1))
  from gamecardGetCapacityFromRomSizeValue_table
         [where s = ?s and sx = 2 and P = "sim_platform good_card"] st(1) l
  have w2: "gamecardGetCapacityFromRomSizeValue
              (hdr_rom_size (g_gameCardHeader (gamecardLoadInfo 2 (sim_platform good_card) ?s))) \<noteq> 0"
    "g_gameCardCapacity (gamecardLoadInfo 2 (sim_platform good_card) ?s) =
       gamecardGetCapacityFromRomSizeValue
         (hdr_rom_size (g_gameCardHeader (gamecardLoadInfo 2 (sim_platform good_card) ?s)))"
    by simp_all
  from z m w1 l w2 show ?thesis by blast
qed

section \<open>Names of the entries of a Partition FS (pfs.h)\<close>

text \<open>
  \<open>PartitionFileSystemHeader\<close> (0x10 bytes: magic, entry count, name table size, reserved)
  and \<open>PartitionFileSystemEntry\<close> (0x18 bytes). Of \<open>PartitionFileSystemContext\<close> the
  accessors read \<open>header_size\<close> and \<open>header\<close> only; the header is the memory \<open>header\<close>
  points to, \<open>None\<close> when it is NULL, and a pointer into it is its offset from the start.
\<close>

definition sizeof_PartitionFileSystemHeader :: nat where
  "sizeof_PartitionFileSystemHeader = 0x10"

definition sizeof_PartitionFileSystemEntry :: nat where
  "sizeof_PartitionFileSystemEntry = 0x18"

definition pfs_entry_count :: "buffer \<Rightarrow> u32" where
  "pfs_entry_count h = read_le32 h 4"

definition pfs_name_table_size :: "buffer \<Rightarrow> u32" where
  "pfs_name_table_size h = read_le32 h 8"

record PartitionFileSystemEntry =
  pe_offset :: u64
  pe_size :: u64
  pe_name_offset :: u32

record PartitionFileSystemContext =
  pfs_offset :: u64
  pfs_size :: u64
  pfs_is_exefs :: bool
  pfs_header_size :: u64
  pfs_header :: "buffer option"

text \<open>What dereferencing a NULL pointer gives.\<close>

datatype fault = Null_dereference

definition pfsGetEntryCount :: "PartitionFileSystemContext option \<Rightarrow> u32" where
  "pfsGetEntryCount ctx =
     (case ctx of
        None \<Rightarrow> 0
      | Some c \<Rightarrow>
          if pfs_header_size c = 0 then 0
          else (case pfs_header c of None \<Rightarrow> 0 | Some h \<Rightarrow> pfs_entry_count h))"

definition pfsGetNameTable :: "PartitionFileSystemContext option \<Rightarrow> fault + nat option" where
  "pfsGetNameTable ctx =
     (let entry_count = pfsGetEntryCount ctx in
      if entry_count = 0 then Inr None
      else
        (case ctx of
           None \<Rightarrow> Inl Null_dereference
         | Some c \<Rightarrow>
             (case pfs_header c of
                None \<Rightarrow> Inl Null_dereference
              | Some h \<Rightarrow>
                  Inr (Some (sizeof_PartitionFileSystemHeader +
                             unat entry_count * sizeof_PartitionFileSystemEntry)))))"

definition pfsGetEntryName ::
  "PartitionFileSystemContext option \<Rightarrow> PartitionFileSystemEntry option \<Rightarrow> fault + nat option"
where
  "pfsGetEntryName ctx fs_entry =
     (case pfsGetNameTable ctx of
        Inl f \<Rightarrow> Inl f
      | Inr None \<Rightarrow> Inr None
      | Inr (Some name_table) \<Rightarrow>
          (case fs_entry of
             None \<Rightarrow> Inr None
           | Some e \<Rightarrow>
               (case ctx of
                  None \<Rightarrow> Inl Null_dereference
                | Some c \<Rightarrow>
                    (case pfs_header c of
                       None \<Rightarrow> Inl Null_dereference
                     | Some h \<Rightarrow>
                         if pe_name_offset e \<ge> pfs_name_table_size h then Inr None
                         else if h (name_table + unat (pe_name_offset e)) = 0 then Inr None
                         else Inr (Some (name_table + unat (pe_name_offset e)))))))"

text \<open>Where the name table of a header starts.\<close>

definition name_table_start :: "buffer \<Rightarrow> nat" where
  "name_table_start h =
     sizeof_PartitionFileSystemHeader + unat (pfs_entry_count h) * sizeof_PartitionFileSystemEntry"

lemma pfsGetEntryName_cases:
  "pfsGetEntryName ctx fs_entry =
     (case ctx of
        None \<Rightarrow> Inr None
      | Some c \<Rightarrow>
          (case pfs_header c of
             None \<Rightarrow> Inr None
           | Some h \<Rightarrow>
               (case fs_entry of
                  None \<Rightarrow> Inr None
                | Some e \<Rightarrow>
                    if pfs_header_size c = 0 \<or> pfs_entry_count h = 0 \<or>
                       pe_name_offset e \<ge> pfs_name_table_size h \<or>
                       h (name_table_start h + unat (pe_name_offset e)) = 0
                    then Inr None
                    else Inr (Some (name_table_start h + unat (pe_name_offset e))))))"
  by (auto simp: pfsGetEntryName_def pfsGetNameTable_def pfsGetEntryCount_def Let_def
      name_table_start_def split: option.splits)

text \<open>
  C10: \<open>pfsGetEntryName\<close> never dereferences a NULL pointer, whatever its arguments. It
  returns NULL when the context is NULL, when its header size is zero, when its header is
  NULL, when the header has no entry (there is no name table then), when the entry is NULL,
  when the entry's \<open>name_offset\<close> is not below the header's \<open>name_table_size\<close>, and when the
  byte of the name table at \<open>name_offset\<close> is zero (the name is empty). A pointer it
  returns is the start of the name table plus \<open>name_offset\<close>, with \<open>name_offset\<close> below
  \<open>name_table_size\<close>: it points inside the name table, at a byte that is not zero.
\<close>

theorem pfsGetEntryName_bounds_checked:
  "(\<exists>r. pfsGetEntryName ctx fs_entry = Inr r) \<and>
   (ctx = None \<or> fs_entry = None \<or> pfsGetEntryCount ctx = 0 \<longrightarrow>
      pfsGetEntryName ctx fs_entry = Inr None) \<and>
   (ctx = Some c \<and> (pfs_header_size c = 0 \<or> pfs_header c = None) \<longrightarrow>
      pfsGetEntryName ctx fs_entry = Inr None) \<and>
   (ctx = Some c \<and> pfs_header c = Some h \<and> fs_entry = Some e \<and>
    (pfs_entry_count h = 0 \<or> pe_name_offset e \<ge> pfs_name_table_size h \<or>
     h (name_table_start h + unat (pe_name_offset e)) = 0) \<longrightarrow>
      pfsGetEntryName ctx fs_entry = Inr None) \<and>
   (pfsGetEntryName ctx fs_entry = Inr (Some p) \<longrightarrow>
      (\<exists>c h e. ctx = Some c \<and> pfs_header_size c \<noteq> 0 \<and> pfs_header c = Some h \<and>
               fs_entry = Some e \<and> pfs_entry_count h \<noteq> 0 \<and>
               pe_name_offset e < pfs_name_table_size h \<and>
               p = name_table_start h + unat (pe_name_offset e) \<and>
               name_table_start h \<le> p \<and>
               p < name_table_start h + unat (pfs_name_table_size h) \<and>
               h p \<noteq> 0))"
  unfolding pfsGetEntryName_cases
  by (auto simp: pfsGetEntryCount_def word_less_nat_alt word_le_nat_alt split: option.splits if_splits)

text \<open>
  A header with one entry and the name table \<open>a.nca\<close> (8 bytes), and three entries for it:
  the name at offset 0, the empty name at offset 5, an offset beyond the table.
\<close>

definition pfs_example_header :: buffer where
  "pfs_example_header =
     (\<lambda>i. case map_of [(0 :: nat, 0x50 :: u8), (1, 0x46), (2, 0x53), (3, 0x30), (4, 0x01), (8, 0x08),
                       (0x28, 0x61), (0x29, 0x2E), (0x2A, 0x6E), (0x2B, 0x63), (0x2C, 0x61)] i of
            None \<Rightarrow> 0 | Some b \<Rightarrow> b)"

definition pfs_example_ctx :: PartitionFileSystemContext where
  "pfs_example_ctx =
     \<lparr>pfs_offset = 0, pfs_size = 0x1000, pfs_is_exefs = False, pfs_header_size = 0x30,
      pfs_header = Some pfs_example_header\<rparr>"

definition pfs_example_entry :: "u32 \<Rightarrow> PartitionFileSystemEntry" where
  "pfs_example_entry name_offset = \<lparr>pe_offset = 0, pe_size = 0x100, pe_name_offset = name_offset\<rparr>"

theorem pfsGetEntryName_bounds_checked_witness:
  "pfsGetEntryName (Some pfs_example_ctx) (Some (pfs_example_entry 0)) = Inr (Some 0x28) \<and>
   pfsGetEntryName (Some pfs_example_ctx) (Some (pfs_example_entry 5)) = Inr None \<and>
   pfsGetEntryName (Some pfs_example_ctx) (Some (pfs_example_entry 8)) = Inr None \<and>
   pfsGetEntryName None (Some (pfs_example_entry 0)) = Inr None \<and>
   pfsGetEntryName (Some pfs_example_ctx) None = Inr None \<and>
   pfsGetEntryName (Some (pfs_example_ctx\<lparr>pfs_header := None\<rparr>)) (Some (pfs_example_entry 0)) = Inr None"
proof -
  have h: "pfs_entry_count pfs_example_header = 1" "pfs_name_table_size pfs_example_header = 8"
    "name_table_start pfs_example_header = 0x28"
    "pfs_example_header 0x28 = 0x61" "pfs_example_header 0x2D = 0"
    by (simp_all add: pfs_entry_count_def pfs_name_table_size_def name_table_start_def
        pfs_example_header_def read_le32_def sizeof_PartitionFileSystemHeader_def
        sizeof_PartitionFileSystemEntry_def)
  have c: "pfs_header pfs_example_ctx = Some pfs_example_header" "pfs_header_size pfs_example_ctx = 0x30"
    by (simp_all add: pfs_example_ctx_def)
  have 1: "pfsGetEntryName (Some pfs_example_ctx) (Some (pfs_example_entry 0)) = Inr (Some 0x28)"
    by (simp add: pfsGetEntryName_cases c h pfs_example_entry_def)
  from pfsGetEntryName_bounds_checked
    [where ctx = "Some pfs_example_ctx" and fs_entry = "Some (pfs_example_entry 5)"
       and c = pfs_example_ctx and h = pfs_example_header and e = "pfs_example_entry 5"]
  have 2: "pfsGetEntryName (Some pfs_example_ctx) (Some (pfs_example_entry 5)) = Inr None"
    by (simp add: c h pfs_example_entry_def)
  from pfsGetEntryName_bounds_checked
    [where ctx = "Some pfs_example_ctx" and fs_entry = "Some (pfs_example_entry 8)"
       and c = pfs_example_ctx and h = pfs_example_header and e = "pfs_example_entry 8"]
  have 3: "pfsGetEntryName (Some pfs_example_ctx) (Some (pfs_example_entry 8)) = Inr None"
    by (simp add: c h pfs_example_entry_def)
  from pfsGetEntryName_bounds_checked [where ctx = None and fs_entry = "Some (pfs_example_entry 0)"]
  have 4: "pfsGetEntryName None (Some (pfs_example_entry 0)) = Inr None" by simp
  from pfsGetEntryName_bounds_checked [where ctx = "Some pfs_example_ctx" and fs_entry = None]
  have 5: "pfsGetEntryName (Some pfs_example_ctx) None = Inr None" by simp
  from pfsGetEntryName_bounds_checked
    [where ctx = "Some (pfs_example_ctx\<lparr>pfs_header := None\<rparr>)" and fs_entry = "Some (pfs_example_entry 0)"
       and c = "pfs_example_ctx\<lparr>pfs_header := None\<rparr>"]
  have 6: "pfsGetEntryName (Some (pfs_example_ctx\<lparr>pfs_header := None\<rparr>)) (Some (pfs_example_entry 0)) = Inr None"
    by simp
  from 1 2 3 4 5 6 show ?thesis by blast
qed

section \<open>When the accessors answer\<close>

text \<open>
  The session while \<open>gamecardLoadInfo\<close> is at work on the simulated card: its first step,
  \<open>gamecardGetStorageAreasSizes\<close>, has opened the normal area. The card is inserted, its
  information is not loaded yet, and the session holds a gamecard handle.
\<close>

definition sim_loading_state :: gc_state where
  "sim_loading_state =
     snd (gamecardOpenStorageArea (sim_platform sim_card) sim_inserted_state GameCardStorageArea_Normal)"

lemma sim_loading_state_simps:
  "g_gameCardInserted sim_loading_state" "\<not> g_gameCardInfoLoaded sim_loading_state"
  "g_gameCardHandle sim_loading_state = sim_handle"
proof -
  have i: "g_gameCardInserted sim_inserted_state" "g_gameCardHandle sim_inserted_state = 0"
    "g_gameCardStorage sim_inserted_state = 0"
    by (simp_all add: sim_inserted_state_def)
  have e: "sim_loading_state = sim_inserted_state\<lparr>g_gameCardHandle := sim_handle,
              g_gameCardStorage := ucast GameCardStorageArea_Normal,
              g_gameCardStorageCurrentArea := GameCardStorageArea_Normal,
              calls := FsOpenGameCardStorage sim_handle (ucast (GameCardStorageArea_Normal - 1)) #
                       FsStorageClose 1 # FsOpenGameCardStorage sim_handle 0 #
                       FsDeviceOperatorGetGameCardHandle # SvcCloseHandle 0 #
                       FsOpenGameCardStorage 0 0 # SvcCloseHandle 0 # calls sim_inserted_state\<rparr>"
    unfolding sim_loading_state_def
    by (subst sim_gamecardOpenStorageArea_fresh [OF i]) simp_all
  show "g_gameCardInserted sim_loading_state" "\<not> g_gameCardInfoLoaded sim_loading_state"
    "g_gameCardHandle sim_loading_state = sim_handle"
    unfolding e by (simp_all add: sim_inserted_state_def)
qed

text \<open>
  C6, as stated, at this state: \<open>gamecardIsReady\<close> is false, and
  \<open>gamecardGetCertificate\<close> and \<open>gamecardGetBundledFirmwareUpdateVersion\<close> return true.
\<close>

theorem accessors_answer_while_loading:
  "\<not> gamecardIsReady sim_loading_state \<and>
   fst (gamecardGetCertificate (sim_platform sim_card) sim_loading_state (Some zero_buffer)) \<and>
   fst (gamecardGetBundledFirmwareUpdateVersion (sim_platform sim_card) sim_loading_state (Some 0))"
  by (simp add: gamecardIsReady_def gamecardGetCertificate_def
      gamecardGetBundledFirmwareUpdateVersion_def sim_loading_state_simps sim_platform_def
      sim_handle_def R_SUCCEEDED_def Let_def)

text \<open>
  What the detection thread leaves, after \<open>gamecardLoadInfo\<close>, after \<open>gamecardFreeInfo\<close>
  and when it has processed any sequence of events: a card that is inserted and whose
  information is not loaded has no handle.
\<close>

definition no_stray_handle :: "gc_state \<Rightarrow> bool" where
  "no_stray_handle s = (g_gameCardInfoLoaded s \<or> \<not> g_gameCardInserted s \<or> g_gameCardHandle s = 0)"

lemma no_stray_handle_gamecardFreeInfo: "no_stray_handle (gamecardFreeInfo s)"
  using gamecardFreeInfo_freed [of s] by (simp add: no_stray_handle_def info_freed_def)

lemma no_stray_handle_gamecardLoadInfo: "no_stray_handle (gamecardLoadInfo sx P s)"
proof (cases "g_gameCardInfoLoaded s")
  case True
  then show ?thesis by (simp add: gamecardLoadInfo_def no_stray_handle_def)
next
  case False
  show ?thesis
  proof (cases "fst (gamecardLoadInfo_steps sx P s) = Load_Ok")
    case True
    with gamecardLoadInfo_loaded [OF False, of sx P] show ?thesis by (simp add: no_stray_handle_def)
  next
    case f: False
    show ?thesis
      unfolding gamecardLoadInfo_failure [OF False f] by (rule no_stray_handle_gamecardFreeInfo)
  qed
qed

lemma no_stray_handle_iteration:
  "no_stray_handle (snd (gamecardDetectionThreadFunc_iteration sx P prev_status s))"
  by (simp add: gamecardDetectionThreadFunc_iteration_def Let_def no_stray_handle_gamecardLoadInfo
      no_stray_handle_gamecardFreeInfo split: prod.splits)

lemma no_stray_handle_loop:
  "no_stray_handle s \<Longrightarrow>
   no_stray_handle (fst (snd (gamecardDetectionThreadFunc_loop sx P ws prev_status s)))"
proof (induction ws arbitrary: prev_status s)
  case Nil
  then show ?case by simp
next
  case (Cons w ws)
  show ?case
  proof (cases w)
    case Wait_failed
    with Cons show ?thesis by simp
  next
    case Exit_event
    with Cons show ?thesis by simp
  next
    case Card_event
    obtain p s' where it: "gamecardDetectionThreadFunc_iteration sx P prev_status s = (p, s')"
      by (cases "gamecardDetectionThreadFunc_iteration sx P prev_status s")
    from no_stray_handle_iteration [of sx P prev_status s] it have "no_stray_handle s'" by simp
    from Cons.IH [OF this] it Card_event show ?thesis by simp
  qed
qed

lemma no_stray_handle_gamecardDetectionThreadFunc:
  "no_stray_handle (gamecardDetectionThreadFunc sx P ws s)"
proof -
  obtain p s1 where i: "gamecardDetectionThreadFunc_init sx P s = (p, s1)"
    by (cases "gamecardDetectionThreadFunc_init sx P s")
  obtain ins s0 where g: "gamecardIsInserted P s = (ins, s0)" by (cases "gamecardIsInserted P s")
  have 1: "no_stray_handle s1"
  proof (cases ins)
    case True
    with i g have "s1 = gamecardLoadInfo sx P (s0\<lparr>g_gameCardInserted := True\<rparr>)"
      by (simp add: gamecardDetectionThreadFunc_init_def Let_def)
    then show ?thesis by (simp add: no_stray_handle_gamecardLoadInfo)
  next
    case False
    with i g have "s1 = s0\<lparr>g_gameCardInserted := False\<rparr>"
      by (simp add: gamecardDetectionThreadFunc_init_def Let_def)
    then show ?thesis by (simp add: no_stray_handle_def)
  qed
  obtain p' s2 e where l: "gamecardDetectionThreadFunc_loop sx P ws p s1 = (p', s2, e)"
    by (cases "gamecardDetectionThreadFunc_loop sx P ws p s1") auto
  from no_stray_handle_loop [OF 1, of sx P ws p] l have 2: "no_stray_handle s2" by simp
  have 3: "no_stray_handle (gamecardDetectionThreadFunc_exit s2)"
    by (simp add: gamecardDetectionThreadFunc_exit_def no_stray_handle_def)
  show ?thesis
    using 2 3 by (simp add: gamecardDetectionThreadFunc_def i l)
qed

text \<open>
  C6, amended. \<open>gamecardIsReady\<close> is true exactly when a card is inserted and its
  information is loaded. \<open>gamecardGetHeader\<close>, \<open>gamecardGetTotalSize\<close>,
  \<open>gamecardGetTrimmedSize\<close> and \<open>gamecardGetRomCapacity\<close> return true exactly when the
  session is ready and the output pointer is not NULL. \<open>gamecardGetCertificate\<close> and
  \<open>gamecardGetBundledFirmwareUpdateVersion\<close> do not test whether the information is
  loaded: they return false when no card is inserted, when the session holds no gamecard
  handle and when the output pointer is NULL, and otherwise ask the platform. In the states
  the detection thread leaves (after \<open>gamecardLoadInfo\<close>, after \<open>gamecardFreeInfo\<close>, after
  the thread has processed any sequence of events) a session that is not ready holds no
  handle or no card, so that there these two return false as well.
\<close>

theorem accessors_refuse_when_not_ready:
  "gamecardIsReady s = (g_gameCardInserted s \<and> g_gameCardInfoLoaded s) \<and>
   fst (gamecardGetHeader s out_header) = (gamecardIsReady s \<and> out_header \<noteq> None) \<and>
   fst (gamecardGetTotalSize s out_size) = (gamecardIsReady s \<and> out_size \<noteq> None) \<and>
   fst (gamecardGetTrimmedSize s out_size) = (gamecardIsReady s \<and> out_size \<noteq> None) \<and>
   fst (gamecardGetRomCapacity s out_size) = (gamecardIsReady s \<and> out_size \<noteq> None) \<and>
   (\<not> g_gameCardInserted s \<or> g_gameCardHandle s = 0 \<or> out_cert = None \<longrightarrow>
      \<not> fst (gamecardGetCertificate P s out_cert)) \<and>
   (\<not> g_gameCardInserted s \<or> g_gameCardHandle s = 0 \<or> out_version = None \<longrightarrow>
      \<not> fst (gamecardGetBundledFirmwareUpdateVersion P s out_version)) \<and>
   (t = gamecardLoadInfo sx P' s0 \<or> t = gamecardFreeInfo s0 \<or>
    t = gamecardDetectionThreadFunc sx P' ws s0 \<longrightarrow>
      \<not> gamecardIsReady t \<longrightarrow>
      \<not> fst (gamecardGetCertificate P t out_cert) \<and>
      \<not> fst (gamecardGetBundledFirmwareUpdateVersion P t out_version))"
proof -
  have a1: "\<not> fst (gamecardGetCertificate P u out_cert)"
    if "\<not> g_gameCardInserted u \<or> g_gameCardHandle u = 0 \<or> out_cert = None" for u
    using that by (auto simp: gamecardGetCertificate_def)
  have a2: "\<not> fst (gamecardGetBundledFirmwareUpdateVersion P u out_version)"
    if "\<not> g_gameCardInserted u \<or> g_gameCardHandle u = 0 \<or> out_version = None" for u
    using that by (auto simp: gamecardGetBundledFirmwareUpdateVersion_def)
  have b: "\<not> fst (gamecardGetCertificate P t out_cert) \<and>
           \<not> fst (gamecardGetBundledFirmwareUpdateVersion P t out_version)"
    if "t = gamecardLoadInfo sx P' s0 \<or> t = gamecardFreeInfo s0 \<or>
        t = gamecardDetectionThreadFunc sx P' ws s0" "\<not> gamecardIsReady t"
  proof -
    from that(1) have "no_stray_handle t"
      by (auto simp: no_stray_handle_gamecardLoadInfo no_stray_handle_gamecardFreeInfo
          no_stray_handle_gamecardDetectionThreadFunc)
    with that(2) have "\<not> g_gameCardInserted t \<or> g_gameCardHandle t = 0"
      by (auto simp: no_stray_handle_def gamecardIsReady_def)
    then show ?thesis using a1 [of t] a2 [of t] by blast
  qed
  have c: "gamecardIsReady s = (g_gameCardInserted s \<and> g_gameCardInfoLoaded s)"
    "fst (gamecardGetHeader s out_header) = (gamecardIsReady s \<and> out_header \<noteq> None)"
    "fst (gamecardGetTotalSize s out_size) = (gamecardIsReady s \<and> out_size \<noteq> None)"
    "fst (gamecardGetTrimmedSize s out_size) = (gamecardIsReady s \<and> out_size \<noteq> None)"
    "fst (gamecardGetRomCapacity s out_size) = (gamecardIsReady s \<and> out_size \<noteq> None)"
    by (simp_all add: gamecardIsReady_def gamecardGetHeader_def gamecardGetTotalSize_def
        gamecardGetTrimmedSize_def gamecardGetRomCapacity_def)
  from a1 [of s] a2 [of s] b c show ?thesis by blast
qed

theorem accessors_refuse_when_not_ready_witness:
  "\<not> gamecardIsReady sim_loading_state \<and>
   \<not> fst (gamecardGetHeader sim_loading_state (Some zero_buffer)) \<and>
   \<not> fst (gamecardGetTotalSize sim_loading_state (Some 0)) \<and>
   \<not> fst (gamecardGetTrimmedSize sim_loading_state (Some 0)) \<and>
   \<not> fst (gamecardGetRomCapacity sim_loading_state (Some 0)) \<and>
   \<not> gamecardIsReady (gamecardFreeInfo sim_loading_state) \<and>
   \<not> fst (gamecardGetCertificate (sim_platform sim_card) (gamecardFreeInfo sim_loading_state)
            (Some zero_buffer)) \<and>
   \<not> fst (gamecardGetBundledFirmwareUpdateVersion (sim_platform sim_card)
            (gamecardFreeInfo sim_loading_state) (Some 0)) \<and>
   \<not> gamecardIsReady (gamecardLoadInfo 2 (sim_platform sim_card) sim_inserted_state) \<and>
   \<not> fst (gamecardGetCertificate (sim_platform sim_card)
            (gamecardLoadInfo 2 (sim_platform sim_card) sim_inserted_state) (Some zero_buffer)) \<and>
   gamecardIsReady (gamecardLoadInfo 2 (sim_platform good_card) sim_inserted_state) \<and>
   fst (gamecardGetRomCapacity (gamecardLoadInfo 2 (sim_platform good_card) sim_inserted_state) (Some 0))"
proof -
  let ?s = sim_inserted_state
  have st: "\<not> g_gameCardInfoLoaded ?s" "sim_idle ?s" "g_gameCardReadBuf ?s = Some zero_buffer"
    "g_gameCardInserted ?s"
    by (simp_all add: sim_inserted_state_def sim_idle_def)
  have n1: "\<not> gamecardIsReady sim_loading_state"
    using accessors_refuse_when_not_ready [where s = sim_loading_state]
    by (simp add: sim_loading_state_simps)
  from accessors_refuse_when_not_ready
         [where s = sim_loading_state and out_header = "Some zero_buffer" and out_size = "Some 0"] n1
  have w1: "\<not> fst (gamecardGetHeader sim_loading_state (Some zero_buffer))"
    "\<not> fst (gamecardGetTotalSize sim_loading_state (Some 0))"
    "\<not> fst (gamecardGetTrimmedSize sim_loading_state (Some 0))"
    "\<not> fst (gamecardGetRomCapacity sim_loading_state (Some 0))"
    by simp_all
  have n2: "\<not> gamecardIsReady (gamecardFreeInfo sim_loading_state)"
    using gamecardFreeInfo_freed [of sim_loading_state]
    by (simp add: gamecardIsReady_def info_freed_def)
  from accessors_refuse_when_not_ready
         [where t = "gamecardFreeInfo sim_loading_state" and ?s0.0 = sim_loading_state
            and P = "sim_platform sim_card" and out_cert = "Some zero_buffer"
            and out_version = "Some 0"] n2
  have w2: "\<not> fst (gamecardGetCertificate (sim_platform sim_card) (gamecardFreeInfo sim_loading_state)
            (Some zero_buffer))"
    "\<not> fst (gamecardGetBundledFirmwareUpdateVersion (sim_platform sim_card)
            (gamecardFreeInfo sim_loading_state) (Some 0))"
    by simp_all
  have m1: "fst (gamecardLoadInfo_steps 2 (sim_platform sim_card) ?s) = Invalid_header_magic"
    by (rule sim_gamecardLoadInfo_steps(1))
       (simp_all add: st sim_card_simps sim_card_bad_magic)
  have n3: "\<not> gamecardIsReady (gamecardLoadInfo 2 (sim_platform sim_card) ?s)"
    by (simp add: gamecardIsReady_def gamecardLoadInfo_loaded [OF st(1)] m1)
  from accessors_refuse_when_not_ready
         [where t = "gamecardLoadInfo 2 (sim_platform sim_card) ?s" and ?s0.0 = ?s and sx = 2
            and P' = "sim_platform sim_card"
            and P = "sim_platform sim_card" and out_cert = "Some zero_buffer"] n3
  have w3: "\<not> fst (gamecardGetCertificate (sim_platform sim_card)
            (gamecardLoadInfo 2 (sim_platform sim_card) ?s) (Some zero_buffer))"
    by simp
  note gd = good_gamecardLoadInfo_steps [OF st(2,3)]
  have r4: "gamecardIsReady (gamecardLoadInfo 2 (sim_platform good_card) ?s)"
    by (simp add: gamecardIsReady_def gamecardLoadInfo_loaded [OF st(1)] gd(1)
        gamecardLoadInfo_inserted st(4))
  from accessors_refuse_when_not_ready
         [where s = "gamecardLoadInfo 2 (sim_platform good_card) ?s" and out_size = "Some 0"] r4
  have w4: "fst (gamecardGetRomCapacity (gamecardLoadInfo 2 (sim_platform good_card) ?s) (Some 0))"
    by simp
  from n1 w1 n2 w2 n3 w3 r4 w4 show ?thesis by blast
qed

section \<open>Looking an entry up by its name\<close>

subsection \<open>C strings\<close>

text \<open>
  A string argument is the list of its bytes before the terminating NUL (\<open>None\<close> for a NULL
  pointer), so that \<open>strlen\<close> is its length; \<open>cstr\<close> reads it as memory. A string in a
  header is read where it is, from its first byte.
\<close>

definition cstr :: "u8 list \<Rightarrow> nat \<Rightarrow> u8" where
  "cstr xs i = (if i < length xs then xs ! i else 0)"

definition tolower :: "u8 \<Rightarrow> u8" where
  \<comment> \<open>in the C locale\<close>
  "tolower c = (if 0x41 \<le> c \<and> c \<le> 0x5A then c + 0x20 else c)"

text \<open>Whether \<open>strncmp(a, b, n)\<close> and \<open>strncasecmp(a, b, n)\<close> are zero.\<close>

fun strncmp_zero :: "(nat \<Rightarrow> u8) \<Rightarrow> (nat \<Rightarrow> u8) \<Rightarrow> nat \<Rightarrow> bool" where
  "strncmp_zero a b 0 = True"
| "strncmp_zero a b (Suc n) =
     (if a 0 \<noteq> b 0 then False
      else if a 0 = 0 then True
      else strncmp_zero (\<lambda>i. a (Suc i)) (\<lambda>i. b (Suc i)) n)"

fun strncasecmp_zero :: "(nat \<Rightarrow> u8) \<Rightarrow> (nat \<Rightarrow> u8) \<Rightarrow> nat \<Rightarrow> bool" where
  "strncasecmp_zero a b 0 = True"
| "strncasecmp_zero a b (Suc n) =
     (if tolower (a 0) \<noteq> tolower (b 0) then False
      else if a 0 = 0 then True
      else strncasecmp_zero (\<lambda>i. a (Suc i)) (\<lambda>i. b (Suc i)) n)"

text \<open>
  \<open>strcasecmp(a, b)\<close> against a string \<open>b\<close> of known length compares at most its bytes
  and its terminator.
\<close>

definition strcasecmp_zero :: "(nat \<Rightarrow> u8) \<Rightarrow> u8 list \<Rightarrow> bool" where
  "strcasecmp_zero a b = strncasecmp_zero a (cstr b) (length b + 1)"

subsection \<open>\<open>gamecardGetHashFileSystemEntryIndexByName\<close> (the later revision of gamecard.c)\<close>

definition gamecardGetHashFileSystemNameTable :: "buffer option \<Rightarrow> nat option" where
  "gamecardGetHashFileSystemNameTable header =
     (case header of
        None \<Rightarrow> None
      | Some h \<Rightarrow>
          if hfs_entry_count h = 0 then None
          else Some (unat sizeof_GameCardHashFileSystemHeader +
                     unat (hfs_entry_count h) * unat sizeof_GameCardHashFileSystemEntry))"

text \<open>The loop of \<open>gamecardGetHashFileSystemEntryIndexByName\<close>, from index \<open>i\<close> on.\<close>

function gamecardGetHashFileSystemEntryIndexByName_loop ::
  "buffer \<Rightarrow> nat \<Rightarrow> u8 list \<Rightarrow> nat \<Rightarrow> nat option"
where
  "gamecardGetHashFileSystemEntryIndexByName_loop h name_table name i =
     (if i < unat (hfs_entry_count h) then
        (case gamecardGetHashFileSystemEntryByIndex (Some h) (of_nat i) of
           None \<Rightarrow> None
         | Some fs_entry \<Rightarrow>
             if strncmp_zero (\<lambda>k. h (name_table + unat (entry_name_offset h fs_entry) + k))
                  (cstr name) (length name)
             then Some i
             else gamecardGetHashFileSystemEntryIndexByName_loop h name_table name (i + 1))
      else None)"
  by pat_completeness auto
termination
  by (relation "measure (\<lambda>(h, name_table, name, i). unat (hfs_entry_count h) - i)") auto

declare gamecardGetHashFileSystemEntryIndexByName_loop.simps [simp del]

definition gamecardGetHashFileSystemEntryIndexByName ::
  "buffer option \<Rightarrow> u8 list option \<Rightarrow> u32 option \<Rightarrow> bool \<times> u32 option"
where
  "gamecardGetHashFileSystemEntryIndexByName header name out_idx =
     (case header of
        None \<Rightarrow> (False, out_idx)
      | Some h \<Rightarrow>
          if hfs_entry_count h = 0 then (False, out_idx)
          else
            (case gamecardGetHashFileSystemNameTable header of
               None \<Rightarrow> (False, out_idx)
             | Some name_table \<Rightarrow>
                 (case name of
                    None \<Rightarrow> (False, out_idx)
                  | Some n \<Rightarrow>
                      if length n = 0 \<or> out_idx = None then (False, out_idx)
                      else
                        (case gamecardGetHashFileSystemEntryIndexByName_loop h name_table n 0 of
                           None \<Rightarrow> (False, out_idx)
                         | Some i \<Rightarrow> (True, Some (of_nat i))))))"

subsection \<open>\<open>gamecardGetOffsetAndSizeFromHashFileSystemPartitionEntryByName\<close> (gamecard.c)\<close>

definition gamecardGetHashFileSystemEntryName :: "buffer option \<Rightarrow> u32 \<Rightarrow> nat option" where
  "gamecardGetHashFileSystemEntryName hfs_header name_offset =
     (case hfs_header of
        None \<Rightarrow> None
      | Some h \<Rightarrow>
          if hfs_entry_count h = 0 \<or> name_offset \<ge> hfs_name_table_size h then None
          else Some (unat sizeof_GameCardHashFileSystemHeader +
                     unat (hfs_entry_count h) * unat sizeof_GameCardHashFileSystemEntry +
                     unat name_offset))"

definition GameCardHashFileSystemPartitionType_Secure :: u8 where
  "GameCardHashFileSystemPartitionType_Secure = 3"

definition GAMECARD_HFS_PARTITION_NAME :: "u8 \<Rightarrow> u8 list" where
  "GAMECARD_HFS_PARTITION_NAME x =
     (if x = 0 then [0x75, 0x70, 0x64, 0x61, 0x74, 0x65]              \<comment> \<open>\<open>update\<close>\<close>
      else if x = 1 then [0x6C, 0x6F, 0x67, 0x6F]                     \<comment> \<open>\<open>logo\<close>\<close>
      else if x = 2 then [0x6E, 0x6F, 0x72, 0x6D, 0x61, 0x6C]         \<comment> \<open>\<open>normal\<close>\<close>
      else if x = 3 then [0x73, 0x65, 0x63, 0x75, 0x72, 0x65]         \<comment> \<open>\<open>secure\<close>\<close>
      else [0x75, 0x6E, 0x6B, 0x6E, 0x6F, 0x77, 0x6E])                \<comment> \<open>\<open>unknown\<close>\<close>"

text \<open>What reading through an invalid pointer gives.\<close>

datatype lookup_fault = Null_pointer | Index_out_of_bounds

text \<open>The loop of \<open>gamecardGetHashFileSystemPartitionIndexByType\<close>, from index \<open>i\<close> on.\<close>

function gamecardGetHashFileSystemPartitionIndexByType_loop :: "buffer \<Rightarrow> u8 \<Rightarrow> nat \<Rightarrow> nat option"
where
  "gamecardGetHashFileSystemPartitionIndexByType_loop h type i =
     (if i < unat (hfs_entry_count h) then
        (case gamecardGetHashFileSystemEntryByIndex (Some h) (of_nat i) of
           None \<Rightarrow> gamecardGetHashFileSystemPartitionIndexByType_loop h type (i + 1)
         | Some fs_entry \<Rightarrow>
             (case gamecardGetHashFileSystemEntryName (Some h) (entry_name_offset h fs_entry) of
                None \<Rightarrow> gamecardGetHashFileSystemPartitionIndexByType_loop h type (i + 1)
              | Some entry_name \<Rightarrow>
                  if strcasecmp_zero (\<lambda>k. h (entry_name + k)) (GAMECARD_HFS_PARTITION_NAME type)
                  then Some i
                  else gamecardGetHashFileSystemPartitionIndexByType_loop h type (i + 1)))
      else None)"
  by pat_completeness auto
termination
  by (relation "measure (\<lambda>(h, type, i). unat (hfs_entry_count h) - i)") auto

declare gamecardGetHashFileSystemPartitionIndexByType_loop.simps [simp del]

definition gamecardGetHashFileSystemPartitionIndexByType ::
  "gc_state \<Rightarrow> u8 \<Rightarrow> u32 option \<Rightarrow> lookup_fault + bool \<times> u32 option"
where
  "gamecardGetHashFileSystemPartitionIndexByType s type out =
     (if type > GameCardHashFileSystemPartitionType_Secure \<or> out = None then Inr (False, out)
      else
        (case g_gameCardHfsRootHeader s of
           None \<Rightarrow> Inl Null_pointer
         | Some fs_header \<Rightarrow>
             (case gamecardGetHashFileSystemPartitionIndexByType_loop fs_header type 0 of
                None \<Rightarrow> Inr (False, out)
              | Some i \<Rightarrow> Inr (True, Some (of_nat i)))))"

text \<open>
  The loop of \<open>gamecardGetOffsetAndSizeFromHashFileSystemPartitionEntryByName\<close>, from index
  \<open>i\<close> on: the index and the entry it stops at.
\<close>

function entry_by_name_loop :: "buffer \<Rightarrow> u8 list \<Rightarrow> nat \<Rightarrow> (nat \<times> nat) option" where
  "entry_by_name_loop h name i =
     (if i < unat (hfs_entry_count h) then
        (case gamecardGetHashFileSystemEntryByIndex (Some h) (of_nat i) of
           None \<Rightarrow> entry_by_name_loop h name (i + 1)
         | Some fs_entry \<Rightarrow>
             (case gamecardGetHashFileSystemEntryName (Some h) (entry_name_offset h fs_entry) of
                None \<Rightarrow> entry_by_name_loop h name (i + 1)
              | Some entry_name \<Rightarrow>
                  if strncasecmp_zero (\<lambda>k. h (entry_name + k)) (cstr name) (length name)
                  then Some (i, fs_entry)
                  else entry_by_name_loop h name (i + 1)))
      else None)"
  by pat_completeness auto
termination
  by (relation "measure (\<lambda>(h, name, i). unat (hfs_entry_count h) - i)") auto

declare entry_by_name_loop.simps [simp del]

definition gamecardGetOffsetAndSizeFromHashFileSystemPartitionEntryByName ::
  "gc_state \<Rightarrow> u8 \<Rightarrow> u8 list option \<Rightarrow> u64 option \<Rightarrow> u64 option \<Rightarrow>
   lookup_fault + bool \<times> u64 option \<times> u64 option"
where
  "gamecardGetOffsetAndSizeFromHashFileSystemPartitionEntryByName s hfs_partition_type name out_offset out_size =
     (if \<not> g_gameCardInserted s \<or> \<not> g_gameCardInfoLoaded s then Inr (False, out_offset, out_size)
      else
        (case name of
           None \<Rightarrow> Inr (False, out_offset, out_size)
         | Some n \<Rightarrow>
             if n = [] \<or> (out_offset = None \<and> out_size = None) then Inr (False, out_offset, out_size)
             else
               (case gamecardGetHashFileSystemPartitionIndexByType s hfs_partition_type (Some 0) of
                  Inl f \<Rightarrow> Inl f
                | Inr (False, idx) \<Rightarrow> Inr (False, out_offset, out_size)
                | Inr (True, None) \<Rightarrow> Inl Null_pointer
                | Inr (True, Some hfs_partition_idx) \<Rightarrow>
                    (case g_gameCardHfsPartitions s of
                       None \<Rightarrow> Inl Null_pointer
                     | Some ps \<Rightarrow>
                         if unat hfs_partition_idx \<ge> length ps then Inl Index_out_of_bounds
                         else
                           (case pi_header (ps ! unat hfs_partition_idx) of
                              None \<Rightarrow> Inl Null_pointer
                            | Some fs_header \<Rightarrow>
                                (case entry_by_name_loop fs_header n 0 of
                                   None \<Rightarrow> Inr (False, out_offset, out_size)
                                 | Some (i, fs_entry) \<Rightarrow>
                                     let p = ps ! unat hfs_partition_idx in
                                     Inr (True,
                                          if out_offset = None then None
                                          else Some (pi_offset p + pi_header_size p +
                                                     entry_offset fs_header fs_entry),
                                          if out_size = None then None
                                          else Some (entry_size fs_header fs_entry))))))))"

subsection \<open>The entry that is found\<close>

text \<open>
  The address of entry \<open>i\<close> in a header, where its name starts, and the first \<open>len\<close> bytes
  found there.
\<close>

definition entry_address :: "nat \<Rightarrow> nat" where
  "entry_address i = unat sizeof_GameCardHashFileSystemHeader + i * unat sizeof_GameCardHashFileSystemEntry"

definition entry_name_start :: "buffer \<Rightarrow> nat \<Rightarrow> nat" where
  "entry_name_start h i =
     unat sizeof_GameCardHashFileSystemHeader +
     unat (hfs_entry_count h) * unat sizeof_GameCardHashFileSystemEntry +
     unat (entry_name_offset h (entry_address i))"

definition name_bytes :: "buffer \<Rightarrow> nat \<Rightarrow> nat \<Rightarrow> u8 list" where
  "name_bytes h p len = map (\<lambda>k. h (p + k)) [0..<len]"

text \<open>The query is a prefix of the name of entry \<open>i\<close>: byte for byte, and up to the case of letters.\<close>

definition prefix_exact :: "buffer \<Rightarrow> nat \<Rightarrow> u8 list \<Rightarrow> bool" where
  "prefix_exact h i name = (name_bytes h (entry_name_start h i) (length name) = name)"

definition prefix_nocase :: "buffer \<Rightarrow> nat \<Rightarrow> u8 list \<Rightarrow> bool" where
  "prefix_nocase h i name =
     (map tolower (name_bytes h (entry_name_start h i) (length name)) = map tolower name)"

lemma tolower_zero [simp]: "(tolower c = 0) = (c = 0)"
proof -
  have "c + 0x20 \<noteq> 0" if "0x41 \<le> c" "c \<le> 0x5A"
    using that by (auto simp: word_le_nat_alt unat_eq_zero [symmetric] unat_word_ariths
        simp del: unat_eq_zero)
  then show ?thesis by (auto simp: tolower_def)
qed

lemma tolower_zero' [simp]: "tolower 0 = 0" "(0 = tolower c) = (c = 0)"
  using tolower_zero [of c] by (auto simp: tolower_def)

lemma cstr_Cons: "(\<lambda>i. cstr (x # xs) (Suc i)) = cstr xs" "cstr (x # xs) 0 = x"
  by (auto simp: cstr_def)

lemma strncmp_zero_prefix:
  "0 \<notin> set name \<Longrightarrow> strncmp_zero a (cstr name) (length name) = (map a [0..<length name] = name)"
proof (induction name arbitrary: a)
  case Nil
  show ?case by simp
next
  case (Cons x xs)
  then have x: "x \<noteq> 0" and xs: "0 \<notin> set xs" by auto
  have m: "map a [0..<Suc (length xs)] = a 0 # map (\<lambda>i. a (Suc i)) [0..<length xs]"
    by (simp add: map_upt_Suc del: upt_Suc)
  show ?case
    using x Cons.IH [OF xs, of "\<lambda>i. a (Suc i)"]
    by (auto simp: cstr_Cons m simp del: upt_Suc)
qed

lemma strncasecmp_zero_prefix:
  "0 \<notin> set name \<Longrightarrow>
   strncasecmp_zero a (cstr name) (length name) =
     (map tolower (map a [0..<length name]) = map tolower name)"
proof (induction name arbitrary: a)
  case Nil
  show ?case by simp
next
  case (Cons x xs)
  then have x: "x \<noteq> 0" and xs: "0 \<notin> set xs" by auto
  have m: "map a [0..<Suc (length xs)] = a 0 # map (\<lambda>i. a (Suc i)) [0..<length xs]"
    by (simp add: map_upt_Suc del: upt_Suc)
  show ?case
    using x Cons.IH [OF xs, of "\<lambda>i. a (Suc i)"]
    by (auto simp: cstr_Cons m simp del: upt_Suc map_map)
qed

lemma gamecardGetHashFileSystemEntryByIndex_below:
  assumes "i < unat (hfs_entry_count h)"
  shows "gamecardGetHashFileSystemEntryByIndex (Some h) (of_nat i) = Some (entry_address i)"
proof -
  have "i < 2 ^ 32" using assms unsigned_less [of "hfs_entry_count h", where ?'a = nat] by simp
  then have u: "unat (of_nat i :: u32) = i"
    by (simp add: unsigned_of_nat take_bit_nat_eq_self)
  with assms have "\<not> (of_nat i :: u32) \<ge> hfs_entry_count h" by (simp add: word_le_nat_alt)
  then show ?thesis
    by (simp add: gamecardGetHashFileSystemEntryByIndex_def entry_address_def u)
qed

lemma gamecardGetHashFileSystemEntryIndexByName_loop_find:
  assumes "0 \<notin> set name"
    and "name_table = unat sizeof_GameCardHashFileSystemHeader +
                      unat (hfs_entry_count h) * unat sizeof_GameCardHashFileSystemEntry"
  shows "gamecardGetHashFileSystemEntryIndexByName_loop h name_table name i =
         find (\<lambda>j. prefix_exact h j name) [i..<unat (hfs_entry_count h)]"
proof (induction "unat (hfs_entry_count h) - i" arbitrary: i)
  case 0
  then show ?case by (subst gamecardGetHashFileSystemEntryIndexByName_loop.simps) simp
next
  case (Suc d)
  then have lt: "i < unat (hfs_entry_count h)" by simp
  from Suc have d: "d = unat (hfs_entry_count h) - Suc i" by simp
  have u: "[i..<unat (hfs_entry_count h)] = i # [i + 1..<unat (hfs_entry_count h)]"
    using lt by (simp add: upt_conv_Cons)
  have p: "strncmp_zero (\<lambda>k. h (name_table + unat (entry_name_offset h (entry_address i)) + k))
             (cstr name) (length name) = prefix_exact h i name"
    by (simp add: strncmp_zero_prefix [OF assms(1)] prefix_exact_def name_bytes_def
        entry_name_start_def assms(2))
  show ?case
    apply (subst gamecardGetHashFileSystemEntryIndexByName_loop.simps)
    apply (simp add: lt gamecardGetHashFileSystemEntryByIndex_below p u Suc(1) [OF d] del: upt_Suc)
    done
qed

lemma entry_by_name_loop_find:
  assumes "0 \<notin> set name"
  shows "entry_by_name_loop h name i =
         map_option (\<lambda>j. (j, entry_address j))
           (find (\<lambda>j. entry_name_offset h (entry_address j) < hfs_name_table_size h \<and>
                       prefix_nocase h j name) [i..<unat (hfs_entry_count h)])"
proof (induction "unat (hfs_entry_count h) - i" arbitrary: i)
  case 0
  then show ?case by (subst entry_by_name_loop.simps) simp
next
  case (Suc d)
  then have lt: "i < unat (hfs_entry_count h)" by simp
  then have nz: "hfs_entry_count h \<noteq> 0" by (auto simp: unat_eq_zero [symmetric] simp del: unat_eq_zero)
  from Suc have d: "d = unat (hfs_entry_count h) - Suc i" by simp
  have u: "[i..<unat (hfs_entry_count h)] = i # [i + 1..<unat (hfs_entry_count h)]"
    using lt by (simp add: upt_conv_Cons)
  have n: "gamecardGetHashFileSystemEntryName (Some h) (entry_name_offset h (entry_address i)) =
           (if entry_name_offset h (entry_address i) < hfs_name_table_size h
            then Some (entry_name_start h i) else None)"
    using nz by (auto simp: gamecardGetHashFileSystemEntryName_def entry_name_start_def)
  have p: "strncasecmp_zero (\<lambda>k. h (entry_name_start h i + k)) (cstr name) (length name) =
           prefix_nocase h i name"
    by (simp add: strncasecmp_zero_prefix [OF assms] prefix_nocase_def name_bytes_def)
  show ?case
    apply (subst entry_by_name_loop.simps)
    apply (simp add: lt gamecardGetHashFileSystemEntryByIndex_below n p u Suc(1) [OF d] del: upt_Suc)
    done
qed

lemma gamecardGetHashFileSystemEntryIndexByName_find:
  assumes "name \<noteq> []" "0 \<notin> set name"
  shows "gamecardGetHashFileSystemEntryIndexByName (Some h) (Some name) (Some out_idx) =
     (case find (\<lambda>j. prefix_exact h j name) [0..<unat (hfs_entry_count h)] of
        None \<Rightarrow> (False, Some out_idx)
      | Some j \<Rightarrow> (True, Some (of_nat j)))"
proof (cases "hfs_entry_count h = 0")
  case True
  then show ?thesis by (simp add: gamecardGetHashFileSystemEntryIndexByName_def)
next
  case False
  then show ?thesis
    using assms(1)
    by (simp add: gamecardGetHashFileSystemEntryIndexByName_def gamecardGetHashFileSystemNameTable_def
        gamecardGetHashFileSystemEntryIndexByName_loop_find [OF assms(2) refl])
qed

lemma gamecardGetOffsetAndSizeFromHashFileSystemPartitionEntryByName_find:
  assumes "name \<noteq> []" "0 \<notin> set name"
    and "g_gameCardInserted s" "g_gameCardInfoLoaded s" "out_offset \<noteq> None \<or> out_size \<noteq> None"
    and "gamecardGetHashFileSystemPartitionIndexByType s type (Some 0) = Inr (True, Some idx)"
    and "g_gameCardHfsPartitions s = Some ps" "unat idx < length ps"
    and "pi_header (ps ! unat idx) = Some h"
  shows "gamecardGetOffsetAndSizeFromHashFileSystemPartitionEntryByName s type (Some name) out_offset out_size =
     (case find (\<lambda>j. entry_name_offset h (entry_address j) < hfs_name_table_size h \<and>
                     prefix_nocase h j name) [0..<unat (hfs_entry_count h)] of
        None \<Rightarrow> Inr (False, out_offset, out_size)
      | Some j \<Rightarrow>
          Inr (True,
               if out_offset = None then None
               else Some (pi_offset (ps ! unat idx) + pi_header_size (ps ! unat idx) +
                          entry_offset h (entry_address j)),
               if out_size = None then None else Some (entry_size h (entry_address j))))"
  using assms(1,3-9)
  by (auto simp: gamecardGetOffsetAndSizeFromHashFileSystemPartitionEntryByName_def
      entry_by_name_loop_find [OF assms(2)] Let_def split: option.splits)

subsection \<open>The two lookups on the partition of the card that loads\<close>

definition query_game :: "u8 list" where
  "query_game = [0x67, 0x61, 0x6D, 0x65]"    \<comment> \<open>\<open>game\<close>\<close>

definition query_Game :: "u8 list" where
  "query_Game = [0x47, 0x61, 0x6D, 0x65]"    \<comment> \<open>\<open>Game\<close>\<close>

lemma good_partition_header_fields:
  "hfs_entry_count good_partition_header = 1"
  "hfs_name_table_size good_partition_header = 0x10"
  "entry_name_offset good_partition_header (entry_address 0) = 0"
  "entry_offset good_partition_header (entry_address 0) = 0"
  "entry_size good_partition_header (entry_address 0) = 0x10"
  "entry_name_start good_partition_header 0 = 0x50"
  "name_bytes good_partition_header 0x50 4 = [0x47, 0x61, 0x6D, 0x65]"
proof -
  show 1: "hfs_entry_count good_partition_header = 1"
    "hfs_name_table_size good_partition_header = 0x10"
    by (simp_all add: good_partition_header_def hfs_entry_count_def hfs_name_table_size_def
        read_le32_memcpy good_card_partition)
  have a: "entry_address 0 = 0x10"
    by (simp add: entry_address_def sizeof_GameCardHashFileSystemHeader_def)
  show 2: "entry_name_offset good_partition_header (entry_address 0) = 0"
    "entry_offset good_partition_header (entry_address 0) = 0"
    "entry_size good_partition_header (entry_address 0) = 0x10"
    by (simp_all add: a good_partition_header_def entry_name_offset_def entry_offset_def entry_size_def
        read_le32_def read_le64_def memcpy_def good_card_def good_card_bytes_def)
  show "entry_name_start good_partition_header 0 = 0x50"
    by (simp add: entry_name_start_def 1 2 sizeof_GameCardHashFileSystemHeader_def
        sizeof_GameCardHashFileSystemEntry_def)
  have u: "[0..<4] = [0, 1, 2, 3 :: nat]" by (simp add: upt_rec)
  show "name_bytes good_partition_header 0x50 4 = [0x47, 0x61, 0x6D, 0x65]"
    by (simp add: name_bytes_def u good_partition_header_def memcpy_def good_card_def good_card_bytes_def)
qed

lemma good_partition_header_prefix:
  "\<not> prefix_exact good_partition_header 0 query_game"
  "prefix_nocase good_partition_header 0 query_game"
  "prefix_exact good_partition_header 0 query_Game"
proof -
  have len: "length query_game = 4" "length query_Game = 4"
    by (simp_all add: query_game_def query_Game_def)
  show "\<not> prefix_exact good_partition_header 0 query_game"
    "prefix_nocase good_partition_header 0 query_game"
    "prefix_exact good_partition_header 0 query_Game"
    by (simp_all add: prefix_exact_def prefix_nocase_def len good_partition_header_fields)
       (simp_all add: query_game_def query_Game_def tolower_def)
qed

text \<open>
  C3, as stated, on the header of that partition, whose only entry is named \<open>Game.nca\<close>:
  the query \<open>game\<close> is a prefix of that name up to case, and
  \<open>gamecardGetHashFileSystemEntryIndexByName\<close> does not find it.
\<close>

theorem lookup_by_name_is_case_sensitive:
  "query_game \<noteq> [] \<and> prefix_nocase good_partition_header 0 query_game \<and>
   0 < unat (hfs_entry_count good_partition_header) \<and>
   gamecardGetHashFileSystemEntryIndexByName (Some good_partition_header) (Some query_game) (Some 7) =
     (False, Some 7)"
proof -
  have q: "query_game \<noteq> []" "0 \<notin> set query_game" by (simp_all add: query_game_def)
  have u: "[0..<unat (1 :: u32)] = [0]" by simp
  show ?thesis
    by (simp add: gamecardGetHashFileSystemEntryIndexByName_find [OF q] good_partition_header_fields
        good_partition_header_prefix u q(1))
qed

text \<open>A ready session that caches the root header and the partition of the card that loads.\<close>

definition sim_lookup_state :: gc_state where
  "sim_lookup_state =
     sim_ready_state\<lparr>g_gameCardHfsRootHeader := Some good_root,
                     g_gameCardHfsPartitions := Some good_partitions\<rparr>"

lemma good_root_update_partition:
  "gamecardGetHashFileSystemPartitionIndexByType sim_lookup_state 0 (Some 0) = Inr (True, Some 0)"
proof -
  have a: "entry_address 0 = 0x10"
    by (simp add: entry_address_def sizeof_GameCardHashFileSystemHeader_def)
  have no: "entry_name_offset good_root 0x10 = 0"
    by (simp add: good_root_def entry_name_offset_def read_le32_def memcpy_def good_card_def
        good_card_bytes_def)
  have en: "gamecardGetHashFileSystemEntryName (Some good_root) 0 = Some 0x50"
    by (simp add: gamecardGetHashFileSystemEntryName_def good_root_fields
        sizeof_GameCardHashFileSystemHeader_def sizeof_GameCardHashFileSystemEntry_def)
  have b: "good_root 0x50 = 0x75" "good_root 0x51 = 0x70" "good_root 0x52 = 0x64"
    "good_root 0x53 = 0x61" "good_root 0x54 = 0x74" "good_root 0x55 = 0x65" "good_root 0x56 = 0"
    by (simp_all add: good_root_def memcpy_def good_card_def good_card_bytes_def)
  have c: "strcasecmp_zero (\<lambda>k. good_root (0x50 + k)) (GAMECARD_HFS_PARTITION_NAME 0)"
    by (simp add: strcasecmp_zero_def GAMECARD_HFS_PARTITION_NAME_def cstr_def b tolower_def)
  have l: "gamecardGetHashFileSystemPartitionIndexByType_loop good_root 0 0 = Some 0"
    apply (subst gamecardGetHashFileSystemPartitionIndexByType_loop.simps)
    apply (simp add: good_root_fields gamecardGetHashFileSystemEntryByIndex_below [of 0 good_root, simplified]
        a no en c)
    done
  show ?thesis
    by (simp add: gamecardGetHashFileSystemPartitionIndexByType_def sim_lookup_state_def l
        GameCardHashFileSystemPartitionType_Secure_def)
qed

text \<open>
  C3, amended. For a query that is not empty (and, being a C string, holds no NUL):

  \<^item> \<open>gamecardGetHashFileSystemEntryIndexByName\<close> (later revision) finds the first entry, in
    entry order, whose name starts with the bytes of the query exactly, case included,
    and fails only when no entry does;
  \<^item> \<open>gamecardGetOffsetAndSizeFromHashFileSystemPartitionEntryByName\<close> (gamecard.c), for a
    ready session, an output pointer that is not NULL and a partition type whose partition
    is found, finds the first entry, in entry order, whose \<open>name_offset\<close> lies in the name
    table and whose name starts with the bytes of the query up to the case of letters, and
    gives its offset in the card and its size; it fails only when no entry does.
\<close>

theorem lookup_by_name_first_match:
  assumes "name \<noteq> []" "0 \<notin> set name"
  shows "gamecardGetHashFileSystemEntryIndexByName (Some h) (Some name) (Some out_idx) =
           (case find (\<lambda>j. prefix_exact h j name) [0..<unat (hfs_entry_count h)] of
              None \<Rightarrow> (False, Some out_idx)
            | Some j \<Rightarrow> (True, Some (of_nat j))) \<and>
         (fst (gamecardGetHashFileSystemEntryIndexByName (Some h) (Some name) (Some out_idx)) =
            (\<exists>j < unat (hfs_entry_count h). prefix_exact h j name)) \<and>
         (g_gameCardInserted s \<and> g_gameCardInfoLoaded s \<and> (out_offset \<noteq> None \<or> out_size \<noteq> None) \<and>
          gamecardGetHashFileSystemPartitionIndexByType s type (Some 0) = Inr (True, Some idx) \<and>
          g_gameCardHfsPartitions s = Some ps \<and> unat idx < length ps \<and>
          pi_header (ps ! unat idx) = Some h' \<longrightarrow>
            gamecardGetOffsetAndSizeFromHashFileSystemPartitionEntryByName s type (Some name)
                out_offset out_size =
              (case find (\<lambda>j. entry_name_offset h' (entry_address j) < hfs_name_table_size h' \<and>
                               prefix_nocase h' j name) [0..<unat (hfs_entry_count h')] of
                 None \<Rightarrow> Inr (False, out_offset, out_size)
               | Some j \<Rightarrow>
                   Inr (True,
                        if out_offset = None then None
                        else Some (pi_offset (ps ! unat idx) + pi_header_size (ps ! unat idx) +
                                   entry_offset h' (entry_address j)),
                        if out_size = None then None else Some (entry_size h' (entry_address j)))))"
proof -
  note a = gamecardGetHashFileSystemEntryIndexByName_find [OF assms, of h out_idx]
  have b: "fst (gamecardGetHashFileSystemEntryIndexByName (Some h) (Some name) (Some out_idx)) =
            (\<exists>j < unat (hfs_entry_count h). prefix_exact h j name)"
  proof (cases "find (\<lambda>j. prefix_exact h j name) [0..<unat (hfs_entry_count h)]")
    case None
    then have "\<not> (\<exists>j < unat (hfs_entry_count h). prefix_exact h j name)"
      by (auto simp: find_None_iff)
    with None show ?thesis unfolding a by simp
  next
    case (Some j)
    then have "j < unat (hfs_entry_count h) \<and> prefix_exact h j name"
      by (auto simp: find_Some_iff)
    with Some show ?thesis unfolding a by auto
  qed
  from a b gamecardGetOffsetAndSizeFromHashFileSystemPartitionEntryByName_find [OF assms]
  show ?thesis by blast
qed

theorem lookup_by_name_first_match_witness:
  "gamecardGetHashFileSystemEntryIndexByName (Some good_partition_header) (Some query_Game) (Some 7) =
     (True, Some 0) \<and>
   gamecardGetHashFileSystemEntryIndexByName (Some good_partition_header) (Some query_game) (Some 7) =
     (False, Some 7) \<and>
   gamecardGetOffsetAndSizeFromHashFileSystemPartitionEntryByName sim_lookup_state 0 (Some query_game)
       (Some 0) (Some 0) = Inr (True, Some 0x600, Some 0x10)"
proof -
  have q: "query_game \<noteq> []" "0 \<notin> set query_game" "query_Game \<noteq> []" "0 \<notin> set query_Game"
    by (simp_all add: query_game_def query_Game_def)
  have u: "[0..<unat (1 :: u32)] = [0]" by simp
  from lookup_by_name_first_match [OF q(3,4), of good_partition_header 7]
  have 1: "gamecardGetHashFileSystemEntryIndexByName (Some good_partition_header) (Some query_Game) (Some 7) =
     (True, Some 0)"
    by (simp add: good_partition_header_fields good_partition_header_prefix u)
  from lookup_by_name_first_match [OF q(1,2), of good_partition_header 7]
  have 2: "gamecardGetHashFileSystemEntryIndexByName (Some good_partition_header) (Some query_game) (Some 7) =
     (False, Some 7)"
    by (simp add: good_partition_header_fields good_partition_header_prefix u)
  have st: "g_gameCardInserted sim_lookup_state" "g_gameCardInfoLoaded sim_lookup_state"
    "g_gameCardHfsPartitions sim_lookup_state = Some good_partitions"
    by (simp_all add: sim_lookup_state_def sim_ready_state_def)
  have p: "unat (0 :: u32) < length good_partitions"
    "pi_header (good_partitions ! unat (0 :: u32)) = Some good_partition_header"
    "pi_offset (good_partitions ! 0) = 0x400"
    "pi_header_size (good_partitions ! 0) = 0x200"
    by (simp_all add: good_partitions_def)
  from lookup_by_name_first_match
         [OF q(1,2), where s = sim_lookup_state and type = 0 and idx = 0 and ps = good_partitions
            and h' = good_partition_header and out_offset = "Some 0" and out_size = "Some 0"]
       st good_root_update_partition p(1,2)
  have 3: "gamecardGetOffsetAndSizeFromHashFileSystemPartitionEntryByName sim_lookup_state 0 (Some query_game)
       (Some 0) (Some 0) = Inr (True, Some 0x600, Some 0x10)"
    by (simp add: good_partition_header_fields good_partition_header_prefix u p(3,4))
  from 1 2 3 show ?thesis by blast
qed

end
